(* ===== verification/Prelude.thy ===== *)
theory Prelude
  imports Main "HOL-Library.Word" "HOL-Library.Monad_Syntax" "HOL-Library.AList"
begin

text \<open>
  Shared base of the development: the machine types of the code, the outcome discipline
  (\<open>None\<close> stands for an abnormal end: undefined behaviour or an uncaught exception),
  the \<open>ensures\<close> predicate that states total correctness of a step, the decimal printer
  \<open>std::to_string\<close>, and facts on queues and on association lists (the model of
  \<open>std::deque\<close>, \<open>std::list\<close> and \<open>std::unordered_map\<close>).
\<close>

section \<open>Machine types\<close>

type_synonym u8 = "8 word"
type_synonym u16 = "16 word"
type_synonym u32 = "32 word"
type_synonym u64 = "64 word"
type_synonym bytes = "u8 list"

section \<open>Outcomes\<close>

named_theorems registrations "definitions of the functions that register callbacks"

text \<open>\<open>ensures m Q\<close>: the step \<open>m\<close> ends normally and its result satisfies \<open>Q\<close>.\<close>

definition ensures :: "'a option \<Rightarrow> ('a \<Rightarrow> bool) \<Rightarrow> bool" where
  "ensures m Q = (case m of None \<Rightarrow> False | Some x \<Rightarrow> Q x)"

lemma ensures_None [simp]: "\<not> ensures None Q"
  by (simp add: ensures_def)

lemma ensures_Some [simp]: "ensures (Some x) Q = Q x"
  by (simp add: ensures_def)

lemma ensures_bind [simp]:
  "ensures (Option.bind m f) Q = ensures m (\<lambda>x. ensures (f x) Q)"
  by (cases m) auto

lemma ensures_mono: "ensures m P \<Longrightarrow> (\<And>x. P x \<Longrightarrow> Q x) \<Longrightarrow> ensures m Q"
  by (cases m) auto

lemma ensures_bindI:
  "ensures m P \<Longrightarrow> (\<And>x. P x \<Longrightarrow> ensures (f x) Q) \<Longrightarrow> ensures (Option.bind m f) Q"
  by (cases m) auto

lemma ensures_bindI2:
  assumes "ensures m (\<lambda>(x, s). P x s)" and "\<And>x s. P x s \<Longrightarrow> ensures (f (x, s)) Q"
  shows "ensures (Option.bind m f) Q"
  using assms by (cases m) auto

lemma ensures_conj: "ensures m P \<Longrightarrow> ensures m Q \<Longrightarrow> ensures m (\<lambda>x. P x \<and> Q x)"
  by (cases m) auto

lemma ensures_defined: "ensures m Q \<Longrightarrow> m \<noteq> None"
  by (cases m) auto

lemma ensuresE:
  assumes "ensures m Q"
  obtains x where "m = Some x" "Q x"
  using assms by (cases m) auto

lemma ensures_SomeD: "ensures m Q \<Longrightarrow> m = Some x \<Longrightarrow> Q x"
  by simp

section \<open>Decimal printing\<close>

text \<open>\<open>std::to_string\<close> on the unsigned and signed integers the code prints.\<close>

definition digit_char :: "nat \<Rightarrow> char" where
  "digit_char d = char_of (48 + d)"

fun to_string_nat :: "nat \<Rightarrow> string" where
  "to_string_nat n =
     (if n < 10 then [digit_char n] else to_string_nat (n div 10) @ [digit_char (n mod 10)])"

declare to_string_nat.simps [simp del]

definition to_string_int :: "int \<Rightarrow> string" where
  "to_string_int i =
     (if i < 0 then CHR ''-'' # to_string_nat (nat (- i)) else to_string_nat (nat i))"

definition to_string_u16 :: "u16 \<Rightarrow> string" where
  "to_string_u16 p = to_string_nat (unat p)"

text \<open>The value a string of digits denotes; the inverse of the printer.\<close>

definition digits_value :: "string \<Rightarrow> nat" where
  "digits_value s = foldl (\<lambda>v c. 10 * v + (of_char c - 48)) 0 s"

lemma of_char_digit: "d < 10 \<Longrightarrow> of_char (digit_char d) = 48 + (d :: nat)"
  by (simp add: digit_char_def)

lemma digits_value_snoc:
  "digits_value (s @ [c]) = 10 * digits_value s + (of_char c - 48)"
  by (simp add: digits_value_def)

lemma digits_value_to_string: "digits_value (to_string_nat n) = n"
proof (induction n rule: to_string_nat.induct)
  case (1 n)
  show ?case
  proof (cases "n < 10")
    case True
    then show ?thesis
      by (simp add: to_string_nat.simps [of n] digits_value_def of_char_digit)
  next
    case False
    with 1 have "digits_value (to_string_nat (n div 10)) = n div 10" by simp
    with False show ?thesis
      by (simp add: to_string_nat.simps [of n] digits_value_snoc of_char_digit)
  qed
qed

lemma to_string_nat_inject: "to_string_nat m = to_string_nat n \<Longrightarrow> m = n"
  by (metis digits_value_to_string)

lemma to_string_u16_inject: "to_string_u16 p = to_string_u16 q \<Longrightarrow> p = q"
  by (auto simp: to_string_u16_def dest!: to_string_nat_inject simp: word_unat_eq_iff)

section \<open>Association lists as unordered maps\<close>

text \<open>
  A \<open>std::unordered_map\<close> is an association list with distinct keys; the list's order is the
  container's iteration order. \<open>insert\<close> does nothing when the key is present, \<open>find\<close> and
  \<open>at\<close> are \<open>map_of\<close>, \<open>erase\<close> is \<open>AList.delete\<close>, and a mutation through the reference that
  \<open>at\<close> or an iterator gives is \<open>AList.map_entry\<close>.
\<close>

definition umap_insert :: "'k \<Rightarrow> 'v \<Rightarrow> ('k \<times> 'v) list \<Rightarrow> ('k \<times> 'v) list" where
  "umap_insert k v xs = (if map_of xs k = None then (k, v) # xs else xs)"

abbreviation keys_of :: "('k \<times> 'v) list \<Rightarrow> 'k list" where
  "keys_of xs \<equiv> map fst xs"

lemma umap_insert_fresh [simp]:
  "k \<notin> fst ` set xs \<Longrightarrow> umap_insert k v xs = (k, v) # xs"
  by (simp add: umap_insert_def map_of_eq_None_iff)

lemma distinct_umap_insert:
  "distinct (keys_of xs) \<Longrightarrow> distinct (keys_of (umap_insert k v xs))"
  by (auto simp: umap_insert_def map_of_eq_None_iff)

lemma map_of_umap_insert:
  "map_of (umap_insert k v xs) =
     (if map_of xs k = None then (map_of xs)(k \<mapsto> v) else map_of xs)"
  by (simp add: umap_insert_def)

lemma set_umap_insert_subset: "set (umap_insert k v xs) \<subseteq> insert (k, v) (set xs)"
  by (auto simp: umap_insert_def)

lemma keys_map_entry [simp]: "keys_of (AList.map_entry k f xs) = keys_of xs"
  by (induction xs rule: AList.map_entry.induct) auto

lemma set_umap_delete: "set (AList.delete k xs) = {e \<in> set xs. fst e \<noteq> k}"
  by (auto simp: AList.delete_eq)

end
