(* ===== verification/Common.thy ===== *)
theory Common
  imports Prelude
begin

text \<open>
  The declarations of \<^verbatim>\<open>include/common.hpp\<close> shared by every class: the \<open>Message\<close> struct that
  carries an error report, the \<open>IpVersion\<close> enum and the version string.
\<close>

record Message =
  msg_head :: string
  msg_body :: string

definition empty_message :: Message where
  "empty_message = \<lparr>msg_head = [], msg_body = []\<rparr>"

datatype IpVersion = IPV_ANY | IPV4 | IPV6

definition g_version_string :: string where
  "g_version_string = ''1.0.1''"

definition version :: string where
  "version = g_version_string"

end
