(* ===== verification/ISocket.thy ===== *)
theory ISocket
  imports Common
begin

text \<open>
  The abstract class of \<^verbatim>\<open>src/ISocket.hpp\<close>. Its virtual functions are the fields of a record,
  the vtable, over the type \<open>'s\<close> of the implementing objects and the world \<open>'w\<close>: a call
  through an \<open>ISocket*\<close> is the vtable's field applied to the object. \<open>accept\<close> returns the
  new object it hands out, if any; \<open>receive\<close> takes the vector it fills. The three address
  queries can end abnormally (\<open>None\<close>). The flag and size queries are pure reads.
  The locales state what \<^verbatim>\<open>TcpNodePrivate\<close> relies on when it uses a socket.
\<close>

section \<open>The interface\<close>

datatype ReceiveResult =
    RR_OK
  | ERROR_NO_CONNECTION
  | ERROR_PEER_DISCONNECTED
  | ERROR_IS_LISTENER
  | ERROR_NOTHING_RECEIVED
  | ERROR_SYSTEM

instantiation ReceiveResult :: enum
begin

definition enum_ReceiveResult :: "ReceiveResult list" where
  "enum_ReceiveResult =
     [RR_OK, ERROR_NO_CONNECTION, ERROR_PEER_DISCONNECTED, ERROR_IS_LISTENER,
      ERROR_NOTHING_RECEIVED, ERROR_SYSTEM]"

definition enum_all_ReceiveResult :: "(ReceiveResult \<Rightarrow> bool) \<Rightarrow> bool" where
  "enum_all_ReceiveResult P \<longleftrightarrow> list_all P Enum.enum"

definition enum_ex_ReceiveResult :: "(ReceiveResult \<Rightarrow> bool) \<Rightarrow> bool" where
  "enum_ex_ReceiveResult P \<longleftrightarrow> list_ex P Enum.enum"

instance
proof
  show univ: "(UNIV :: ReceiveResult set) = set Enum.enum"
    by (auto simp: enum_ReceiveResult_def intro: ReceiveResult.exhaust)
  show "distinct (Enum.enum :: ReceiveResult list)"
    by (simp add: enum_ReceiveResult_def)
  show "Enum.enum_all P \<longleftrightarrow> Ball UNIV P" for P :: "ReceiveResult \<Rightarrow> bool"
    by (simp only: enum_all_ReceiveResult_def univ list_all_iff)
  show "Enum.enum_ex P \<longleftrightarrow> Bex UNIV P" for P :: "ReceiveResult \<Rightarrow> bool"
    by (simp only: enum_ex_ReceiveResult_def univ list_ex_iff)
qed

end

record ('s, 'w) ISocket =
  vlisten :: "u16 \<Rightarrow> IpVersion \<Rightarrow> 's \<Rightarrow> 'w \<Rightarrow> bool \<times> 's \<times> 'w"
  vconnect :: "string \<Rightarrow> u16 \<Rightarrow> 's \<Rightarrow> 'w \<Rightarrow> bool \<times> 's \<times> 'w"
  vclose :: "'s \<Rightarrow> 'w \<Rightarrow> 's \<times> 'w"
  vaccept :: "'s \<Rightarrow> 'w \<Rightarrow> 's option \<times> 's \<times> 'w"
  vreceive :: "bytes \<Rightarrow> 's \<Rightarrow> 'w \<Rightarrow> (ReceiveResult \<times> bytes) \<times> 's \<times> 'w"
  vsend :: "bytes \<Rightarrow> 's \<Rightarrow> 'w \<Rightarrow> u64 \<times> 's \<times> 'w"
  vsocketNumber :: "'s \<Rightarrow> int"
  visListener :: "'s \<Rightarrow> bool"
  vlistenPort :: "'s \<Rightarrow> u16"
  visConnected :: "'s \<Rightarrow> bool"
  visListening :: "'s \<Rightarrow> bool"
  vpeerIpAddress :: "'s \<Rightarrow> 'w \<Rightarrow> (string \<times> 'w) option"
  vpeerPort :: "'s \<Rightarrow> 'w \<Rightarrow> (u16 \<times> 'w) option"
  vownIpAddress :: "'s \<Rightarrow> 'w \<Rightarrow> string \<times> 'w"
  vpeerName :: "'s \<Rightarrow> 'w \<Rightarrow> (string \<times> 'w) option"
  vsetReceiveBufferSize :: "u64 \<Rightarrow> 's \<Rightarrow> 's"
  vreceiveBufferSize :: "'s \<Rightarrow> u64"
  vsetSleepTime :: "u32 \<Rightarrow> 's \<Rightarrow> 's"
  vsleepTime :: "'s \<Rightarrow> u32"
  vgetLastErrno :: "'s \<Rightarrow> int \<times> 's"
  vgetLastErrnoString :: "'s \<Rightarrow> string \<times> 's"
  vdestroy :: "'s \<Rightarrow> 'w \<Rightarrow> 'w"

section \<open>The contracts\<close>

text \<open>
  Error numbers are read once: \<open>getLastErrno\<close> clears what it returns, and
  \<open>getLastErrnoString\<close> describes the number that is stored at that moment, which it
  clears as well. The number is the only thing either call changes.
\<close>

locale errno_source =
  fixes V :: "('s, 'w) ISocket"
    and stored_errno :: "'s \<Rightarrow> int"
    and describe :: "int \<Rightarrow> string"
  assumes getLastErrno_val: "fst (vgetLastErrno V so) = stored_errno so"
    and getLastErrno_clears: "stored_errno (snd (vgetLastErrno V so)) = 0"
    and getLastErrnoString_val:
      "fst (vgetLastErrnoString V so) = (if stored_errno so = 0 then [] else describe (stored_errno so))"
    and getLastErrnoString_clears: "stored_errno (snd (vgetLastErrnoString V so)) = 0"
begin

lemma second_read_zero: "fst (vgetLastErrno V (snd (vgetLastErrno V so))) = 0"
  by (simp add: getLastErrno_val getLastErrno_clears)

lemma string_after_number_empty: "fst (vgetLastErrnoString V (snd (vgetLastErrno V so))) = []"
  by (simp add: getLastErrnoString_val getLastErrno_clears)

lemma number_after_string_zero: "fst (vgetLastErrno V (snd (vgetLastErrnoString V so))) = 0"
  by (simp add: getLastErrno_val getLastErrnoString_clears)

end

text \<open>
  The connection life cycle of a stream socket: what the flags say after each call that
  changes them. \<open>ok\<close> is the invariant of the implementing class. A listener that accepts
  keeps no pending error, so a refused accept is silent.
\<close>

locale stream_socket = errno_source V stored_errno describe
  for V :: "('s, 'w) ISocket" and stored_errno :: "'s \<Rightarrow> int" and describe :: "int \<Rightarrow> string" +
  fixes ok :: "'s \<Rightarrow> bool"
    and default_buffer :: u64
  assumes close_down:
      "vclose V so w = (so', w') \<Longrightarrow>
         ok so' \<and> \<not> visConnected V so' \<and> \<not> visListener V so' \<and> \<not> visListening V so'"
    and listen_up:
      "vlisten V p ver so w = (True, so', w') \<Longrightarrow>
         ok so' \<and> visListener V so' \<and> visListening V so' \<and> vlistenPort V so' = p \<and>
         \<not> visConnected V so'"
    and listen_down:
      "vlisten V p ver so w = (False, so', w') \<Longrightarrow>
         ok so' \<and> \<not> visListener V so' \<and> \<not> visListening V so' \<and> \<not> visConnected V so'"
    and connect_flags:
      "vconnect V ip p so w = (b, so', w') \<Longrightarrow>
         ok so' \<and> visConnected V so' = b \<and> \<not> visListener V so' \<and> \<not> visListening V so' \<and>
         vreceiveBufferSize V so' = vreceiveBufferSize V so"
    and accept_new:
      "vaccept V so w = (Some n, so', w') \<Longrightarrow>
         ok n \<and> visConnected V n \<and> \<not> visListener V n \<and>
         vreceiveBufferSize V n = default_buffer"
    and accept_listener:
      "vaccept V so w = (r, so', w') \<Longrightarrow>
         visListener V so' = visListener V so \<and> visListening V so' = visListening V so \<and>
         (ok so \<longrightarrow> ok so')"
    and accept_silent:
      "vaccept V so w = (None, so', w') \<Longrightarrow> visListener V so \<Longrightarrow> stored_errno so' = 0"
    and receive_listener:
      "visListener V so \<Longrightarrow> fst (fst (vreceive V d so w)) = ERROR_IS_LISTENER"
    and receive_unconnected:
      "\<not> visListener V so \<Longrightarrow> \<not> visConnected V so \<Longrightarrow>
         fst (fst (vreceive V d so w)) = ERROR_NO_CONNECTION"
    and ok_exclusive: "ok so \<Longrightarrow> \<not> (visConnected V so \<and> visListener V so)"
begin

lemma listen_result_flag:
  "vlisten V p ver so w = (b, so', w') \<Longrightarrow> visListener V so' = b \<and> visListening V so' = b"
  by (cases b) (auto dest: listen_up listen_down)

lemma receive_after_close:
  "vclose V so w = (so', w') \<Longrightarrow> fst (fst (vreceive V d so' w'')) = ERROR_NO_CONNECTION"
  using close_down receive_unconnected by blast

lemma accept_failure_unreported:
  "vaccept V so w = (None, so', w') \<Longrightarrow> visListener V so \<Longrightarrow> fst (vgetLastErrno V so') = 0"
  by (simp add: getLastErrno_val accept_silent)

end

end
