(* ===== verification/SockHeap.thy ===== *)
theory SockHeap
  imports ISocket
begin

text \<open>
  The heap of \<open>ISocket\<close> objects. A pointer is \<open>None\<close> (\<open>nullptr\<close>) or an address; the heap
  maps the addresses of the live objects to their contents. A virtual call through a null or
  dangling pointer, and a second \<open>delete\<close> of an object, end abnormally (\<open>None\<close>). The record
  is extended by the node's own state, so the operations are generic in the extension.
\<close>

type_synonym ptr = "nat option"

record ('s, 'w) mem =
  objects :: "nat \<Rightarrow> 's option"
  next_object :: nat
  world :: 'w

definition live :: "('s, 'w, 'z) mem_scheme \<Rightarrow> nat set" where
  "live s = dom (objects s)"

definition heap_ok :: "('s, 'w, 'z) mem_scheme \<Rightarrow> bool" where
  "heap_ok s \<longleftrightarrow> (\<forall>a \<in> live s. a < next_object s)"

section \<open>Virtual calls, new and delete\<close>

definition store_object ::
  "nat \<Rightarrow> 's \<Rightarrow> 'w \<Rightarrow> ('s, 'w, 'z) mem_scheme \<Rightarrow> ('s, 'w, 'z) mem_scheme" where
  "store_object a so w s = s\<lparr>objects := (objects s)(a \<mapsto> so), world := w\<rparr>"

definition call ::
  "ptr \<Rightarrow> ('s \<Rightarrow> 'w \<Rightarrow> 'a \<times> 's \<times> 'w) \<Rightarrow> ('s, 'w, 'z) mem_scheme \<Rightarrow>
     ('a \<times> ('s, 'w, 'z) mem_scheme) option" where
  "call p f s =
     do { a \<leftarrow> p;
          so \<leftarrow> objects s a;
          let (x, so', w') = f so (world s);
          Some (x, store_object a so' w' s) }"

text \<open>A call that touches only the object, one that only reads it, and one that can end abnormally.\<close>

definition call_local ::
  "ptr \<Rightarrow> ('s \<Rightarrow> 'a \<times> 's) \<Rightarrow> ('s, 'w, 'z) mem_scheme \<Rightarrow>
     ('a \<times> ('s, 'w, 'z) mem_scheme) option" where
  "call_local p f s = call p (\<lambda>so w. let (x, so') = f so in (x, so', w)) s"

definition call_read :: "ptr \<Rightarrow> ('s \<Rightarrow> 'a) \<Rightarrow> ('s, 'w, 'z) mem_scheme \<Rightarrow> 'a option" where
  "call_read p f s = do { a \<leftarrow> p; so \<leftarrow> objects s a; Some (f so) }"

definition call_query ::
  "ptr \<Rightarrow> ('s \<Rightarrow> 'w \<Rightarrow> ('a \<times> 'w) option) \<Rightarrow> ('s, 'w, 'z) mem_scheme \<Rightarrow>
     ('a \<times> ('s, 'w, 'z) mem_scheme) option" where
  "call_query p f s =
     do { a \<leftarrow> p;
          so \<leftarrow> objects s a;
          (x, w') \<leftarrow> f so (world s);
          Some (x, s\<lparr>world := w'\<rparr>) }"

definition new_object :: "'s \<Rightarrow> ('s, 'w, 'z) mem_scheme \<Rightarrow> nat \<times> ('s, 'w, 'z) mem_scheme" where
  "new_object so s =
     (next_object s,
      s\<lparr>objects := (objects s)(next_object s \<mapsto> so), next_object := Suc (next_object s)\<rparr>)"

definition delete_object ::
  "('s, 'w) ISocket \<Rightarrow> ptr \<Rightarrow> ('s, 'w, 'z) mem_scheme \<Rightarrow> ('s, 'w, 'z) mem_scheme option" where
  "delete_object V p s =
     (case p of
        None \<Rightarrow> Some s
      | Some a \<Rightarrow>
          do { so \<leftarrow> objects s a;
               Some (s\<lparr>objects := (objects s)(a := None), world := vdestroy V so (world s)\<rparr>) })"

section \<open>Their outcomes\<close>

lemma live_store_object [simp]: "a \<in> live s \<Longrightarrow> live (store_object a so w s) = live s"
  by (auto simp: live_def store_object_def)

lemma next_store_object [simp]: "next_object (store_object a so w s) = next_object s"
  by (simp add: store_object_def)

lemma live_world [simp]: "live (s\<lparr>world := w\<rparr>) = live s"
  by (simp add: live_def)

lemma heap_ok_store_object [simp]:
  "a \<in> live s \<Longrightarrow> heap_ok (store_object a so w s) = heap_ok s"
  by (simp add: heap_ok_def)

lemma heap_ok_world [simp]: "heap_ok (s\<lparr>world := w\<rparr>) = heap_ok s"
  by (simp add: heap_ok_def)

lemma ensures_call:
  assumes "p = Some a" and "a \<in> live s"
    and "\<And>x so w. Q (x, store_object a so w s)"
  shows "ensures (call p f s) Q"
  using assms by (auto simp: call_def live_def ensures_def split: prod.splits)

lemma ensures_call_local:
  assumes "p = Some a" and "a \<in> live s"
    and "\<And>x so w. Q (x, store_object a so w s)"
  shows "ensures (call_local p f s) Q"
  unfolding call_local_def by (rule ensures_call) (use assms in auto)

lemma ensures_call_read:
  "p = Some a \<Longrightarrow> a \<in> live s \<Longrightarrow> (\<And>x. Q x) \<Longrightarrow> ensures (call_read p f s) Q"
  by (auto simp: call_read_def live_def)

lemma ensures_call_query:
  assumes "p = Some a" and "a \<in> live s" and "\<And>so w. f so w \<noteq> None"
    and "\<And>x w. Q (x, s\<lparr>world := w\<rparr>)"
  shows "ensures (call_query p f s) Q"
proof -
  from assms(2) obtain so where so: "objects s a = Some so" by (auto simp: live_def)
  obtain x w where "f so (world s) = Some (x, w)" using assms(3) by fastforce
  with assms(1,4) so show ?thesis by (simp add: call_query_def)
qed

lemma ensures_delete_object:
  assumes "p = Some a" and "a \<in> live s"
    and "\<And>w. Q (s\<lparr>objects := (objects s)(a := None), world := w\<rparr>)"
  shows "ensures (delete_object V p s) Q"
  using assms by (auto simp: delete_object_def live_def)

lemma live_new_object: "new_object so s = (a, s') \<Longrightarrow> live s' = insert a (live s)"
  by (auto simp: new_object_def live_def)

lemma new_object_fresh: "heap_ok s \<Longrightarrow> new_object so s = (a, s') \<Longrightarrow> a \<notin> live s"
  by (auto simp: new_object_def heap_ok_def)

lemma heap_ok_new_object: "heap_ok s \<Longrightarrow> new_object so s = (a, s') \<Longrightarrow> heap_ok s'"
  by (auto simp: new_object_def heap_ok_def live_def less_Suc_eq dom_def)

lemma use_after_delete:
  assumes "delete_object V (Some a) s = Some s'"
  shows "call (Some a) f s' = None" and "delete_object V (Some a) s' = None"
proof -
  from assms obtain so where "objects s a = Some so"
    and "s' = s\<lparr>objects := (objects s)(a := None), world := vdestroy V so (world s)\<rparr>"
    by (cases "objects s a") (auto simp: delete_object_def)
  then show "call (Some a) f s' = None" "delete_object V (Some a) s' = None"
    by (simp_all add: call_def delete_object_def)
qed

end
