(* ===== verification/PeerPrivate.thy ===== *)
theory PeerPrivate
  imports Common SockHeap
begin

text \<open>
  The class \<open>spw::PeerPrivate\<close> of \<^verbatim>\<open>src/PeerPrivate.hpp\<close> and \<^verbatim>\<open>src/PeerPrivate.cpp\<close>: the data of
  one connection, and the operations the node uses on it.
\<close>

section \<open>State\<close>

datatype DisconnectType =
    PEER_DISCONNECTED_THEMSELF
  | PEER_WAS_DISCONNECTED
  | PEER_WAS_DISCONNECTED_DUE_TO_ERROR

record PeerPrivate =
  m_connection_id :: u64
  m_ip_address :: string
  m_port_number :: u16
  m_hostname :: string
  m_valid :: bool
  m_to_be_deleted :: bool
  m_socket :: ptr
  m_disconn :: DisconnectType
  m_errmsg :: Message

definition PeerPrivate_new :: PeerPrivate where
  "PeerPrivate_new =
     \<lparr>m_connection_id = 0, m_ip_address = [], m_port_number = 0, m_hostname = [],
      m_valid = False, m_to_be_deleted = False, m_socket = None,
      m_disconn = PEER_DISCONNECTED_THEMSELF, m_errmsg = empty_message\<rparr>"

section \<open>Operations\<close>

text \<open>The getters; the simplifier replaces each by the member it reads.\<close>

definition PeerPrivate_id :: "PeerPrivate \<Rightarrow> u64" where
  [simp]: "PeerPrivate_id pp = m_connection_id pp"

definition PeerPrivate_ipAddress :: "PeerPrivate \<Rightarrow> string" where
  [simp]: "PeerPrivate_ipAddress pp = m_ip_address pp"

definition PeerPrivate_port :: "PeerPrivate \<Rightarrow> u16" where
  [simp]: "PeerPrivate_port pp = m_port_number pp"

definition PeerPrivate_hostName :: "PeerPrivate \<Rightarrow> string" where
  [simp]: "PeerPrivate_hostName pp = m_hostname pp"

definition PeerPrivate_isValid :: "PeerPrivate \<Rightarrow> bool" where
  [simp]: "PeerPrivate_isValid pp = m_valid pp"

definition PeerPrivate_bool :: "PeerPrivate \<Rightarrow> bool" where
  [simp]: "PeerPrivate_bool pp = PeerPrivate_isValid pp"

definition toBeDeleted :: "PeerPrivate \<Rightarrow> bool" where
  [simp]: "toBeDeleted pp = m_to_be_deleted pp"

definition getSocket :: "PeerPrivate \<Rightarrow> ptr" where
  [simp]: "getSocket pp = m_socket pp"

definition disconnectType :: "PeerPrivate \<Rightarrow> DisconnectType" where
  [simp]: "disconnectType pp = m_disconn pp"

definition getErrorMessage :: "PeerPrivate \<Rightarrow> Message" where
  [simp]: "getErrorMessage pp = m_errmsg pp"

definition PeerPrivate_assign :: "PeerPrivate \<Rightarrow> PeerPrivate \<Rightarrow> PeerPrivate" where
  "PeerPrivate_assign this other =
     this\<lparr>m_connection_id := m_connection_id other,
          m_ip_address := m_ip_address other,
          m_port_number := m_port_number other,
          m_hostname := m_hostname other,
          m_valid := m_valid other,
          m_to_be_deleted := m_to_be_deleted other,
          m_socket := m_socket other,
          m_disconn := m_disconn other,
          m_errmsg := m_errmsg other\<rparr>"

definition PeerPrivate_eq :: "PeerPrivate \<Rightarrow> PeerPrivate \<Rightarrow> bool" where
  "PeerPrivate_eq this other \<longleftrightarrow>
     m_connection_id this = m_connection_id other \<and>
     m_ip_address this = m_ip_address other \<and>
     m_port_number this = m_port_number other \<and>
     m_hostname this = m_hostname other"

definition PeerPrivate_set ::
  "u64 \<Rightarrow> string \<Rightarrow> u16 \<Rightarrow> string \<Rightarrow> PeerPrivate \<Rightarrow> PeerPrivate" where
  "PeerPrivate_set conn_id ip port hostname pp =
     pp\<lparr>m_connection_id := conn_id, m_ip_address := ip, m_port_number := port,
        m_hostname := hostname\<rparr>"

definition setValid :: "bool \<Rightarrow> PeerPrivate \<Rightarrow> PeerPrivate" where
  "setValid valid pp = pp\<lparr>m_valid := valid\<rparr>"

definition scheduleDelete :: "DisconnectType \<Rightarrow> PeerPrivate \<Rightarrow> PeerPrivate" where
  "scheduleDelete dt pp = pp\<lparr>m_disconn := dt, m_to_be_deleted := True\<rparr>"

definition setSocket :: "ptr \<Rightarrow> PeerPrivate \<Rightarrow> PeerPrivate" where
  "setSocket sock pp = pp\<lparr>m_socket := sock\<rparr>"

definition setErrorMessage :: "Message \<Rightarrow> PeerPrivate \<Rightarrow> PeerPrivate" where
  "setErrorMessage err pp = pp\<lparr>m_errmsg := err\<rparr>"

text \<open>\<open>destroySocket\<close> works on the socket heap: close, delete, forget the pointer.\<close>

definition destroySocket ::
  "('s, 'w) ISocket \<Rightarrow> PeerPrivate \<Rightarrow> ('s, 'w, 'z) mem_scheme \<Rightarrow>
     (PeerPrivate \<times> ('s, 'w, 'z) mem_scheme) option" where
  "destroySocket V pp s =
     (if m_socket pp \<noteq> None
      then do { (_, s) \<leftarrow> call (m_socket pp) (\<lambda>so w. ((), vclose V so w)) s;
                s \<leftarrow> delete_object V (m_socket pp) s;
                Some (pp\<lparr>m_socket := None\<rparr>, s) }
      else Some (pp, s))"

section \<open>Properties\<close>

lemma PeerPrivate_assign_eq: "PeerPrivate_assign this other = other"
  by (simp add: PeerPrivate_assign_def)

lemma PeerPrivate_eq_equiv:
  "PeerPrivate_eq a a"
  "PeerPrivate_eq a b \<Longrightarrow> PeerPrivate_eq b a"
  "PeerPrivate_eq a b \<Longrightarrow> PeerPrivate_eq b c \<Longrightarrow> PeerPrivate_eq a c"
  by (auto simp: PeerPrivate_eq_def)

lemma peer_updates [simp]:
  "m_connection_id (scheduleDelete dt pp) = m_connection_id pp"
  "m_socket (scheduleDelete dt pp) = m_socket pp"
  "m_valid (scheduleDelete dt pp) = m_valid pp"
  "m_to_be_deleted (scheduleDelete dt pp)"
  "m_disconn (scheduleDelete dt pp) = dt"
  "m_errmsg (scheduleDelete dt pp) = m_errmsg pp"
  "m_connection_id (setErrorMessage e pp) = m_connection_id pp"
  "m_socket (setErrorMessage e pp) = m_socket pp"
  "m_valid (setErrorMessage e pp) = m_valid pp"
  "m_to_be_deleted (setErrorMessage e pp) = m_to_be_deleted pp"
  "m_disconn (setErrorMessage e pp) = m_disconn pp"
  "m_errmsg (setErrorMessage e pp) = e"
  by (simp_all add: scheduleDelete_def setErrorMessage_def)

lemma scheduleDelete_last: "scheduleDelete dt2 (scheduleDelete dt1 pp) = scheduleDelete dt2 pp"
  by (simp add: scheduleDelete_def)

lemma destroySocket_spec:
  assumes "m_socket pp = Some a" and "a \<in> live s"
  shows "ensures (destroySocket V pp s)
    (\<lambda>(pp', s'). pp' = pp\<lparr>m_socket := None\<rparr> \<and>
       (\<exists>w. s' = s\<lparr>objects := (objects s)(a := None), world := w\<rparr>))"
  unfolding destroySocket_def using assms
  by (auto intro!: ensures_call [where a = a] ensures_delete_object [where a = a])
    (auto simp: store_object_def)

end
