(* ===== verification/Peer.thy ===== *)
theory Peer
  imports PeerPrivate
begin

text \<open>
  The class \<open>spw::Peer\<close> of \<^verbatim>\<open>include/Peer.hpp\<close> and \<^verbatim>\<open>src/Peer.cpp\<close>: a handle that owns a
  \<open>PeerPrivate\<close> through a raw pointer. The store below has the \<open>Peer\<close> objects that are
  constructed, with the pointer each holds, and the heap of \<open>PeerPrivate\<close> objects. The special
  members are modelled on it with their \<open>new\<close>s and \<open>delete\<close>s, and shown to give value
  semantics; the node's model then handles a \<open>Peer\<close> as the value it denotes.
\<close>

section \<open>Getters\<close>

text \<open>
  A \<open>Peer\<close> denotes the \<open>PeerPrivate\<close> its pointer leads to, or \<open>None\<close> when the pointer is
  null (a moved-from object). The getters test the pointer first.
\<close>

type_synonym Peer = "PeerPrivate option"

definition Peer_id :: "Peer \<Rightarrow> u64" where
  "Peer_id p = (case p of Some pp \<Rightarrow> PeerPrivate_id pp | None \<Rightarrow> 0)"

definition Peer_ipAddress :: "Peer \<Rightarrow> string" where
  "Peer_ipAddress p = (case p of Some pp \<Rightarrow> PeerPrivate_ipAddress pp | None \<Rightarrow> [])"

definition Peer_port :: "Peer \<Rightarrow> u16" where
  "Peer_port p = (case p of Some pp \<Rightarrow> PeerPrivate_port pp | None \<Rightarrow> 0)"

definition Peer_hostName :: "Peer \<Rightarrow> string" where
  "Peer_hostName p = (case p of Some pp \<Rightarrow> PeerPrivate_hostName pp | None \<Rightarrow> [])"

definition Peer_isValid :: "Peer \<Rightarrow> bool" where
  "Peer_isValid p = (case p of Some pp \<Rightarrow> PeerPrivate_isValid pp | None \<Rightarrow> False)"

definition Peer_eq :: "Peer \<Rightarrow> Peer \<Rightarrow> bool" where
  "Peer_eq p q = (case (p, q) of (Some pp, Some qq) \<Rightarrow> PeerPrivate_eq pp qq | _ \<Rightarrow> False)"

definition Peer_bool :: "Peer \<Rightarrow> bool" where
  "Peer_bool p = (case p of Some pp \<Rightarrow> PeerPrivate_bool pp | None \<Rightarrow> False)"

section \<open>The store and the special members\<close>

record peer_store =
  handles :: "nat \<Rightarrow> ptr option"
  privates :: "nat \<Rightarrow> PeerPrivate option"
  next_private :: nat

definition new_private :: "peer_store \<Rightarrow> nat \<times> peer_store" where
  "new_private st =
     (next_private st,
      st\<lparr>privates := (privates st)(next_private st \<mapsto> PeerPrivate_new),
         next_private := Suc (next_private st)\<rparr>)"

definition delete_private :: "ptr \<Rightarrow> peer_store \<Rightarrow> peer_store option" where
  "delete_private p st =
     (case p of
        None \<Rightarrow> Some st
      | Some a \<Rightarrow>
          (if privates st a = None then None
           else Some (st\<lparr>privates := (privates st)(a := None)\<rparr>)))"

text \<open>\<open>*m_private = *other.m_private\<close>, through the pointers the two objects hold now.\<close>

definition copy_private :: "nat \<Rightarrow> nat \<Rightarrow> peer_store \<Rightarrow> peer_store option" where
  "copy_private this other st =
     do { tp \<leftarrow> handles st this;
          t \<leftarrow> tp;
          tv \<leftarrow> privates st t;
          op \<leftarrow> handles st other;
          oa \<leftarrow> op;
          ov \<leftarrow> privates st oa;
          Some (st\<lparr>privates := (privates st)(t \<mapsto> PeerPrivate_assign tv ov)\<rparr>) }"

definition Peer_ctor :: "nat \<Rightarrow> peer_store \<Rightarrow> peer_store option" where
  "Peer_ctor this st =
     (let (a, st) = new_private st
      in Some (st\<lparr>handles := (handles st)(this \<mapsto> Some a)\<rparr>))"

text \<open>The body shared by the copy constructor and the copy assignment.\<close>

definition Peer_copy_body :: "nat \<Rightarrow> nat \<Rightarrow> peer_store \<Rightarrow> peer_store option" where
  "Peer_copy_body this other st =
     do { m_private \<leftarrow> handles st this;
          st \<leftarrow> delete_private m_private st;
          let (a, st) = new_private st;
          copy_private this other (st\<lparr>handles := (handles st)(this \<mapsto> Some a)\<rparr>) }"

definition Peer_copy_ctor :: "nat \<Rightarrow> nat \<Rightarrow> peer_store \<Rightarrow> peer_store option" where
  "Peer_copy_ctor this other st =
     Peer_copy_body this other (st\<lparr>handles := (handles st)(this \<mapsto> None)\<rparr>)"

definition Peer_assign :: "nat \<Rightarrow> nat \<Rightarrow> peer_store \<Rightarrow> peer_store option" where
  "Peer_assign this other st = Peer_copy_body this other st"

definition Peer_move_ctor :: "nat \<Rightarrow> nat \<Rightarrow> peer_store \<Rightarrow> peer_store option" where
  "Peer_move_ctor this other st =
     do { m_private \<leftarrow> handles st other;
          Some (st\<lparr>handles := (handles st)(this \<mapsto> m_private, other \<mapsto> None)\<rparr>) }"

definition Peer_dtor :: "nat \<Rightarrow> peer_store \<Rightarrow> peer_store option" where
  "Peer_dtor this st =
     do { m_private \<leftarrow> handles st this;
          st \<leftarrow> (if m_private \<noteq> None then delete_private m_private st else Some st);
          Some (st\<lparr>handles := (handles st)(this := None)\<rparr>) }"

section \<open>Value semantics\<close>

text \<open>
  \<open>denote st p\<close>: what the object at \<open>p\<close> stands for, \<open>None\<close> when no \<open>Peer\<close> is constructed
  there. In a well-formed store every handle leads to a live object, no two share one, and
  every live object is owned by a handle (nothing leaks).
\<close>

definition denote :: "peer_store \<Rightarrow> nat \<Rightarrow> Peer option" where
  "denote st p =
     (case handles st p of
        None \<Rightarrow> None
      | Some None \<Rightarrow> Some None
      | Some (Some a) \<Rightarrow> Some (privates st a))"

definition store_ok :: "peer_store \<Rightarrow> bool" where
  "store_ok st \<longleftrightarrow>
     (\<forall>p a. handles st p = Some (Some a) \<longrightarrow> a \<in> dom (privates st)) \<and>
     (\<forall>p q a. handles st p = Some (Some a) \<and> handles st q = Some (Some a) \<longrightarrow> p = q) \<and>
     (\<forall>a \<in> dom (privates st). a < next_private st \<and> (\<exists>p. handles st p = Some (Some a)))"

lemma store_okI:
  assumes "\<And>p a. handles st p = Some (Some a) \<Longrightarrow> a \<in> dom (privates st)"
    and "\<And>p q a. handles st p = Some (Some a) \<Longrightarrow> handles st q = Some (Some a) \<Longrightarrow> p = q"
    and "\<And>a. a \<in> dom (privates st) \<Longrightarrow> a < next_private st"
    and "\<And>a. a \<in> dom (privates st) \<Longrightarrow> \<exists>p. handles st p = Some (Some a)"
  shows "store_ok st"
  using assms unfolding store_ok_def by blast

lemma store_okD:
  assumes "store_ok st"
  shows "handles st p = Some (Some a) \<Longrightarrow> a \<in> dom (privates st)"
    and "handles st p = Some (Some a) \<Longrightarrow> handles st q = Some (Some a) \<Longrightarrow> p = q"
    and "a \<in> dom (privates st) \<Longrightarrow> a < next_private st"
    and "a \<in> dom (privates st) \<Longrightarrow> \<exists>p. handles st p = Some (Some a)"
  using assms unfolding store_ok_def by blast+

lemmas store_op_defs = new_private_def delete_private_def copy_private_def Let_def

text \<open>
  The steps of the special members: dropping a handle's object, and giving a handle without
  an object a fresh one.
\<close>

lemma drop_object:
  assumes ok: "store_ok st" and h: "handles st this = Some mp"
  shows "\<exists>st'. delete_private mp st = Some st' \<and>
    store_ok (st'\<lparr>handles := (handles st)(this \<mapsto> None)\<rparr>) \<and>
    handles st' = handles st \<and> next_private st' = next_private st \<and>
    (\<forall>q. q \<noteq> this \<longrightarrow> denote st' q = denote st q)"
proof (cases mp)
  case None
  with h have "st\<lparr>handles := (handles st)(this \<mapsto> None)\<rparr> = st"
    by (simp add: fun_upd_idem)
  with ok None show ?thesis by (simp add: delete_private_def)
next
  case (Some a)
  let ?st = "st\<lparr>privates := (privates st)(a := None)\<rparr>"
  have ha: "handles st this = Some (Some a)" using h Some by simp
  have other: "handles st q \<noteq> Some (Some a)" if "q \<noteq> this" for q
    using store_okD(2) [OF ok _ ha, of q] that by blast
  have "a \<in> dom (privates st)" by (rule store_okD(1) [OF ok ha])
  then have "delete_private mp st = Some ?st" using Some by (auto simp: delete_private_def)
  moreover have "store_ok (?st\<lparr>handles := (handles st)(this \<mapsto> None)\<rparr>)"
  proof (rule store_okI)
    fix b
    assume "b \<in> dom (privates (?st\<lparr>handles := (handles st)(this \<mapsto> None)\<rparr>))"
    then have b: "b \<in> dom (privates st)" "b \<noteq> a" by (auto split: if_splits)
    then show "b < next_private (?st\<lparr>handles := (handles st)(this \<mapsto> None)\<rparr>)"
      using store_okD(3) [OF ok b(1)] by simp
    obtain p where "handles st p = Some (Some b)" using store_okD(4) [OF ok b(1)] by blast
    with b(2) ha show "\<exists>p. handles (?st\<lparr>handles := (handles st)(this \<mapsto> None)\<rparr>) p = Some (Some b)"
      by (intro exI [of _ p]) auto
  qed (use store_okD(1,2) [OF ok] other in \<open>fastforce split: if_splits\<close>)+
  moreover have "\<forall>q. q \<noteq> this \<longrightarrow> denote ?st q = denote st q"
    using other by (auto simp: denote_def split: option.splits)
  ultimately show ?thesis by auto
qed

definition with_object :: "nat \<Rightarrow> PeerPrivate \<Rightarrow> peer_store \<Rightarrow> peer_store" where
  "with_object this pp st =
     st\<lparr>privates := (privates st)(next_private st \<mapsto> pp),
        next_private := Suc (next_private st),
        handles := (handles st)(this \<mapsto> Some (next_private st))\<rparr>"

lemma give_object:
  assumes ok: "store_ok (st\<lparr>handles := (handles st)(this \<mapsto> None)\<rparr>)"
  shows "store_ok (with_object this pp st)"
    and "denote (with_object this pp st) = (denote st)(this \<mapsto> Some pp)"
proof -
  have lt: "a < next_private st" if "a \<in> dom (privates st)" for a
    using store_okD(3) [OF ok, of a] that by simp
  have nohandle: "handles st q \<noteq> Some (Some (next_private st))" if "q \<noteq> this" for q
    using store_okD(1) [OF ok, of q "next_private st"] lt [of "next_private st"] that by auto
  show "denote (with_object this pp st) = (denote st)(this \<mapsto> Some pp)"
    using nohandle by (auto simp: denote_def with_object_def fun_eq_iff split: option.splits)
  show "store_ok (with_object this pp st)"
  proof (rule store_okI)
    fix p q a
    assume "handles (with_object this pp st) p = Some (Some a)"
      and "handles (with_object this pp st) q = Some (Some a)"
    with nohandle store_okD(2) [OF ok, of p a q] show "p = q"
      by (auto simp: with_object_def split: if_splits)
  next
    fix p a
    assume "handles (with_object this pp st) p = Some (Some a)"
    with store_okD(1) [OF ok, of p a] show "a \<in> dom (privates (with_object this pp st))"
      by (auto simp: with_object_def split: if_splits)
  next
    fix a
    assume a: "a \<in> dom (privates (with_object this pp st))"
    with lt show "a < next_private (with_object this pp st)"
      by (auto simp: with_object_def less_Suc_eq split: if_splits)
    show "\<exists>p. handles (with_object this pp st) p = Some (Some a)"
    proof (cases "a = next_private st")
      case True
      then show ?thesis by (intro exI [of _ this]) (simp add: with_object_def)
    next
      case False
      with a have "a \<in> dom (privates st)" by (auto simp: with_object_def)
      with store_okD(4) [OF ok, of a] obtain p
        where "p \<noteq> this" "handles st p = Some (Some a)"
        by (auto split: if_splits)
      then show ?thesis by (intro exI [of _ p]) (simp add: with_object_def)
    qed
  qed
qed

text \<open>A call \<open>m_private->f(...)\<close> that a friend class makes on a \<open>Peer\<close>.\<close>

definition Peer_update :: "nat \<Rightarrow> (PeerPrivate \<Rightarrow> PeerPrivate) \<Rightarrow> peer_store \<Rightarrow> peer_store option" where
  "Peer_update this f st =
     do { mp \<leftarrow> handles st this;
          a \<leftarrow> mp;
          pp \<leftarrow> privates st a;
          Some (st\<lparr>privates := (privates st)(a \<mapsto> f pp)\<rparr>) }"

lemma denote_SomeD:
  "denote st p = Some (Some pp) \<Longrightarrow> \<exists>a. handles st p = Some (Some a) \<and> privates st a = Some pp"
  by (auto simp: denote_def split: option.splits)

lemma denote_None: "denote st p = None \<longleftrightarrow> handles st p = None"
  by (auto simp: denote_def split: option.splits)

lemma copy_body_result:
  assumes ok: "store_ok st" and h: "handles st this = Some mp"
  obtains st1 where "delete_private mp st = Some st1"
    and "store_ok (st1\<lparr>handles := (handles st1)(this \<mapsto> None)\<rparr>)"
    and "\<And>q. q \<noteq> this \<Longrightarrow> denote st1 q = denote st q" and "handles st1 = handles st"
    and "Peer_copy_body this other st = copy_private this other (with_object this PeerPrivate_new st1)"
proof -
  obtain st1 where d: "delete_private mp st = Some st1"
      "store_ok (st1\<lparr>handles := (handles st)(this \<mapsto> None)\<rparr>)"
      "handles st1 = handles st" "\<And>q. q \<noteq> this \<Longrightarrow> denote st1 q = denote st q"
    using drop_object [OF ok h] by blast
  then have "Peer_copy_body this other st = copy_private this other (with_object this PeerPrivate_new st1)"
    using h by (simp add: Peer_copy_body_def new_private_def Let_def with_object_def)
  with d that show thesis by simp
qed

lemma Peer_copy_body_other:
  assumes ok: "store_ok st" and h: "handles st this = Some mp"
    and v: "denote st other = Some (Some pp)" and ne: "this \<noteq> other"
  shows "\<exists>st'. Peer_copy_body this other st = Some st' \<and> store_ok st' \<and>
    denote st' = (denote st)(this \<mapsto> Some pp)"
proof -
  obtain st1 where st1: "store_ok (st1\<lparr>handles := (handles st1)(this \<mapsto> None)\<rparr>)"
      "\<And>q. q \<noteq> this \<Longrightarrow> denote st1 q = denote st q"
      "Peer_copy_body this other st = copy_private this other (with_object this PeerPrivate_new st1)"
    using copy_body_result [OF ok h] by metis
  have "denote st1 other = Some (Some pp)" using st1(2) ne v by metis
  then obtain oa where oa: "handles st1 other = Some (Some oa)" "privates st1 oa = Some pp"
    using denote_SomeD by blast
  then have "oa \<noteq> next_private st1"
    using store_okD(3) [OF st1(1), of oa] by auto
  with oa ne have "copy_private this other (with_object this PeerPrivate_new st1) =
      Some (with_object this pp st1)"
    by (simp add: copy_private_def with_object_def PeerPrivate_assign_eq)
  moreover have "(denote st1)(this \<mapsto> Some pp) = (denote st)(this \<mapsto> Some pp)"
    using st1(2) by (auto simp: fun_eq_iff)
  ultimately show ?thesis using st1(3) give_object [OF st1(1), of pp] by auto
qed

lemma Peer_copy_body_self:
  assumes ok: "store_ok st" and h: "handles st this = Some mp"
  shows "\<exists>st'. Peer_copy_body this this st = Some st' \<and> store_ok st' \<and>
    denote st' = (denote st)(this \<mapsto> Some PeerPrivate_new)"
proof -
  obtain st1 where st1: "store_ok (st1\<lparr>handles := (handles st1)(this \<mapsto> None)\<rparr>)"
      "\<And>q. q \<noteq> this \<Longrightarrow> denote st1 q = denote st q"
      "Peer_copy_body this this st = copy_private this this (with_object this PeerPrivate_new st1)"
    using copy_body_result [OF ok h] by metis
  have "copy_private this this (with_object this PeerPrivate_new st1) =
      Some (with_object this PeerPrivate_new st1)"
    by (simp add: copy_private_def with_object_def PeerPrivate_assign_eq)
  moreover have "(denote st1)(this \<mapsto> Some PeerPrivate_new) = (denote st)(this \<mapsto> Some PeerPrivate_new)"
    using st1(2) by (auto simp: fun_eq_iff)
  ultimately show ?thesis using st1(3) give_object [OF st1(1), of PeerPrivate_new] by auto
qed

lemma Peer_copy_body_null:
  assumes ok: "store_ok st" and h: "handles st this = Some mp"
    and v: "denote st other = Some None" and ne: "this \<noteq> other"
  shows "Peer_copy_body this other st = None"
proof -
  obtain st1 where st1: "handles st1 = handles st"
      "Peer_copy_body this other st = copy_private this other (with_object this PeerPrivate_new st1)"
    using copy_body_result [OF ok h] by metis
  have "handles st other = Some None"
    using v ok by (auto simp: denote_def split: option.splits dest: store_okD(1))
  with st1 ne show ?thesis by (simp add: copy_private_def with_object_def)
qed

lemma store_ok_construct:
  assumes "store_ok st" and "handles st this = None"
  shows "store_ok (st\<lparr>handles := (handles st)(this \<mapsto> None)\<rparr>)"
    and "q \<noteq> this \<Longrightarrow> denote (st\<lparr>handles := (handles st)(this \<mapsto> None)\<rparr>) q = denote st q"
proof -
  show "store_ok (st\<lparr>handles := (handles st)(this \<mapsto> None)\<rparr>)"
  proof (rule store_okI)
    fix a assume "a \<in> dom (privates (st\<lparr>handles := (handles st)(this \<mapsto> None)\<rparr>))"
    then have a: "a \<in> dom (privates st)" by simp
    show "a < next_private (st\<lparr>handles := (handles st)(this \<mapsto> None)\<rparr>)"
      using store_okD(3) [OF assms(1) a] by simp
    obtain p where "handles st p = Some (Some a)" using store_okD(4) [OF assms(1) a] by blast
    with assms(2) show "\<exists>p. handles (st\<lparr>handles := (handles st)(this \<mapsto> None)\<rparr>) p = Some (Some a)"
      by (intro exI [of _ p]) auto
  qed (use store_okD(1,2) [OF assms(1)] in \<open>fastforce split: if_splits\<close>)+
qed (auto simp: denote_def split: option.splits)

lemma denote_handle_None: "denote (st\<lparr>handles := (handles st)(p := None)\<rparr>) = (denote st)(p := None)"
  by (auto simp: denote_def fun_eq_iff split: option.splits)

lemma Peer_copy_ctor_spec:
  assumes "store_ok st" and "denote st this = None" and "denote st other = Some (Some pp)"
  shows "\<exists>st'. Peer_copy_ctor this other st = Some st' \<and> store_ok st' \<and>
    denote st' = (denote st)(this \<mapsto> Some pp)"
proof -
  let ?st = "st\<lparr>handles := (handles st)(this \<mapsto> None)\<rparr>"
  have h: "handles st this = None" using assms(2) by (simp add: denote_None)
  have ne: "this \<noteq> other" using assms(2,3) by auto
  have "denote ?st other = Some (Some pp)"
    using store_ok_construct(2) [OF assms(1) h] ne assms(3) by metis
  then obtain st' where "Peer_copy_body this other ?st = Some st'" "store_ok st'"
      "denote st' = (denote ?st)(this \<mapsto> Some pp)"
    using Peer_copy_body_other [OF store_ok_construct(1) [OF assms(1) h], of this None other pp] ne
    by auto
  moreover have "(denote ?st)(this \<mapsto> Some pp) = (denote st)(this \<mapsto> Some pp)"
    using store_ok_construct(2) [OF assms(1) h] by (auto simp: fun_eq_iff)
  ultimately show ?thesis by (simp add: Peer_copy_ctor_def)
qed

lemma Peer_ctor_spec:
  assumes "store_ok st" and "denote st this = None"
  shows "\<exists>st'. Peer_ctor this st = Some st' \<and> store_ok st' \<and>
    denote st' = (denote st)(this \<mapsto> Some PeerPrivate_new)"
proof -
  have h: "handles st this = None" using assms(2) by (simp add: denote_None)
  have "Peer_ctor this st = Some (with_object this PeerPrivate_new st)"
    by (simp add: Peer_ctor_def new_private_def with_object_def Let_def)
  with give_object [OF store_ok_construct(1) [OF assms(1) h], of PeerPrivate_new]
  show ?thesis by auto
qed

lemma Peer_move_ctor_spec:
  assumes ok: "store_ok st" and n: "denote st this = None" and v: "denote st other = Some v"
  shows "\<exists>st'. Peer_move_ctor this other st = Some st' \<and> store_ok st' \<and>
    denote st' = (denote st)(this \<mapsto> v, other \<mapsto> None)"
proof -
  obtain mp where mp: "handles st other = Some mp" using v by (auto simp: denote_def split: option.splits)
  have h: "handles st this = None" using n by (simp add: denote_None)
  let ?st = "st\<lparr>handles := (handles st)(this \<mapsto> mp, other \<mapsto> None)\<rparr>"
  have ne: "this \<noteq> other" using n v by auto
  have "store_ok ?st"
  proof (rule store_okI)
    fix p a assume "handles ?st p = Some (Some a)"
    then show "a \<in> dom (privates ?st)"
      using store_okD(1) [OF ok] mp by (auto split: if_splits)
  next
    fix p q a assume "handles ?st p = Some (Some a)" "handles ?st q = Some (Some a)"
    then show "p = q"
      using store_okD(2) [OF ok, of _ a] mp by (auto split: if_splits)
  next
    fix a assume "a \<in> dom (privates ?st)"
    then have a: "a \<in> dom (privates st)" by simp
    show "a < next_private ?st" using store_okD(3) [OF ok a] by simp
    obtain p where "handles st p = Some (Some a)" using store_okD(4) [OF ok a] by blast
    with mp h ne show "\<exists>p. handles ?st p = Some (Some a)"
      by (cases "p = other") (auto intro: exI [of _ this] exI [of _ p])
  qed
  moreover have "denote ?st = (denote st)(this \<mapsto> v, other \<mapsto> None)"
    using mp v ne by (auto simp: denote_def fun_eq_iff split: option.splits)
  ultimately show ?thesis using mp by (simp add: Peer_move_ctor_def)
qed

lemma Peer_dtor_spec:
  assumes ok: "store_ok st" and v: "denote st this = Some v"
  shows "\<exists>st'. Peer_dtor this st = Some st' \<and> store_ok st' \<and> denote st' = (denote st)(this := None)"
proof -
  obtain mp where mp: "handles st this = Some mp" using v by (auto simp: denote_def split: option.splits)
  obtain st1 where st1: "delete_private mp st = Some st1"
      "store_ok (st1\<lparr>handles := (handles st1)(this \<mapsto> None)\<rparr>)"
      "handles st1 = handles st" "\<And>q. q \<noteq> this \<Longrightarrow> denote st1 q = denote st q"
    using drop_object [OF ok mp] by metis
  let ?st = "st1\<lparr>handles := (handles st)(this := None)\<rparr>"
  let ?st2 = "st1\<lparr>handles := (handles st1)(this \<mapsto> None)\<rparr>"
  have sub: "handles ?st2 p = Some (Some a)" "privates ?st2 = privates ?st"
    if "handles ?st p = Some (Some a)" for p a
    using that st1(3) by (auto split: if_splits)
  have "store_ok ?st"
  proof (rule store_okI)
    fix p a assume "handles ?st p = Some (Some a)"
    from store_okD(1) [OF st1(2) sub(1) [OF this]] show "a \<in> dom (privates ?st)" by simp
  next
    fix p q a assume "handles ?st p = Some (Some a)" "handles ?st q = Some (Some a)"
    then show "p = q" by (intro store_okD(2) [OF st1(2) sub(1) sub(1)])
  next
    fix a assume "a \<in> dom (privates ?st)"
    then have a: "a \<in> dom (privates (st1\<lparr>handles := (handles st1)(this \<mapsto> None)\<rparr>))" by simp
    show "a < next_private ?st" using store_okD(3) [OF st1(2) a] by simp
    show "\<exists>p. handles ?st p = Some (Some a)"
      using store_okD(4) [OF st1(2) a] st1(3) by (auto split: if_splits)
  qed
  moreover have "denote ?st = (denote st)(this := None)"
    unfolding st1(3) [symmetric] denote_handle_None using st1(4) by (auto simp: fun_eq_iff)
  moreover have "Peer_dtor this st = Some ?st"
    using mp st1(1,3) by (cases mp) (auto simp: Peer_dtor_def delete_private_def)
  ultimately show ?thesis by auto
qed

lemma Peer_update_spec:
  assumes ok: "store_ok st" and v: "denote st this = Some (Some pp)"
  shows "\<exists>st'. Peer_update this f st = Some st' \<and> store_ok st' \<and>
    denote st' = (denote st)(this \<mapsto> Some (f pp))"
proof -
  obtain a where a: "handles st this = Some (Some a)" "privates st a = Some pp"
    using denote_SomeD [OF v] by blast
  let ?st = "st\<lparr>privates := (privates st)(a \<mapsto> f pp)\<rparr>"
  have dom: "dom (privates ?st) = dom (privates st)" using a(2) by auto
  have "store_ok ?st = store_ok st" unfolding store_ok_def dom by simp
  moreover have "denote ?st = (denote st)(this \<mapsto> Some (f pp))"
  proof
    fix q
    show "denote ?st q = ((denote st)(this \<mapsto> Some (f pp))) q"
    proof (cases "q = this")
      case True
      with a show ?thesis by (simp add: denote_def)
    next
      case False
      then have "handles st q \<noteq> Some (Some a)" using store_okD(2) [OF ok a(1), of q] by auto
      with False show ?thesis by (auto simp: denote_def split: option.splits)
    qed
  qed
  ultimately show ?thesis using a ok by (simp add: Peer_update_def)
qed

section \<open>The contract, and what follows from it\<close>

text \<open>
  The interface of a class with value semantics: constructing a copy, assigning, moving,
  changing and destroying objects acts on the denoted values alone.
\<close>

locale value_objects =
  fixes ok :: "'st \<Rightarrow> bool"
    and val :: "'st \<Rightarrow> nat \<Rightarrow> 'v option option"
    and copy_ctor assign move_ctor :: "nat \<Rightarrow> nat \<Rightarrow> 'st \<Rightarrow> 'st option"
    and dtor :: "nat \<Rightarrow> 'st \<Rightarrow> 'st option"
    and update :: "nat \<Rightarrow> ('v \<Rightarrow> 'v) \<Rightarrow> 'st \<Rightarrow> 'st option"
  assumes copy_val: "ok st \<Longrightarrow> val st p = None \<Longrightarrow> val st q = Some (Some v) \<Longrightarrow>
      \<exists>st'. copy_ctor p q st = Some st' \<and> ok st' \<and> val st' = (val st)(p \<mapsto> Some v)"
    and assign_val: "ok st \<Longrightarrow> val st p = Some u \<Longrightarrow> val st q = Some (Some v) \<Longrightarrow> p \<noteq> q \<Longrightarrow>
      \<exists>st'. assign p q st = Some st' \<and> ok st' \<and> val st' = (val st)(p \<mapsto> Some v)"
    and move_val: "ok st \<Longrightarrow> val st p = None \<Longrightarrow> val st q = Some u \<Longrightarrow>
      \<exists>st'. move_ctor p q st = Some st' \<and> ok st' \<and> val st' = (val st)(p \<mapsto> u, q \<mapsto> None)"
    and dtor_val: "ok st \<Longrightarrow> val st p = Some u \<Longrightarrow>
      \<exists>st'. dtor p st = Some st' \<and> ok st' \<and> val st' = (val st)(p := None)"
    and update_val: "ok st \<Longrightarrow> val st p = Some (Some v) \<Longrightarrow>
      \<exists>st'. update p f st = Some st' \<and> ok st' \<and> val st' = (val st)(p \<mapsto> Some (f v))"
begin

text \<open>A copy is independent of its source, whatever happens to the source afterwards.\<close>

lemma copy_then_update:
  assumes "ok st" "val st p = None" "val st q = Some (Some v)"
  shows "\<exists>st'. (do { st \<leftarrow> copy_ctor p q st; update q f st }) = Some st' \<and> ok st' \<and>
    val st' p = Some (Some v) \<and> val st' q = Some (Some (f v))"
proof -
  have ne: "p \<noteq> q" using assms(2,3) by auto
  obtain st1 where s1: "copy_ctor p q st = Some st1" "ok st1" "val st1 = (val st)(p \<mapsto> Some v)"
    using copy_val [OF assms] by blast
  then have "val st1 q = Some (Some v)" using ne assms(3) by simp
  then obtain st2 where "update q f st1 = Some st2" "ok st2" "val st2 = (val st1)(q \<mapsto> Some (f v))"
    using update_val [OF s1(2)] by blast
  with s1 ne show ?thesis by auto
qed

lemma copy_then_destroy:
  assumes "ok st" "val st p = None" "val st q = Some (Some v)"
  shows "\<exists>st'. (do { st \<leftarrow> copy_ctor p q st; dtor q st }) = Some st' \<and> ok st' \<and>
    val st' p = Some (Some v) \<and> val st' q = None"
proof -
  have ne: "p \<noteq> q" using assms(2,3) by auto
  obtain st1 where s1: "copy_ctor p q st = Some st1" "ok st1" "val st1 = (val st)(p \<mapsto> Some v)"
    using copy_val [OF assms] by blast
  then have "val st1 q = Some (Some v)" using ne assms(3) by simp
  then obtain st2 where "dtor q st1 = Some st2" "ok st2" "val st2 = (val st1)(q := None)"
    using dtor_val [OF s1(2)] by blast
  with s1 ne show ?thesis by auto
qed

end

interpretation peer_values:
  value_objects store_ok denote Peer_copy_ctor Peer_assign Peer_move_ctor Peer_dtor Peer_update
proof unfold_locales
  fix st p q v and u :: Peer
  assume ok: "store_ok st"
  show "\<exists>st'. Peer_copy_ctor p q st = Some st' \<and> store_ok st' \<and> denote st' = (denote st)(p \<mapsto> Some v)"
    if "denote st p = None" "denote st q = Some (Some v)"
    by (rule Peer_copy_ctor_spec [OF ok that])
  show "\<exists>st'. Peer_assign p q st = Some st' \<and> store_ok st' \<and> denote st' = (denote st)(p \<mapsto> Some v)"
    if "denote st p = Some u" "denote st q = Some (Some v)" "p \<noteq> q"
    using Peer_copy_body_other [OF ok _ that(2,3)] that(1) denote_None [of st p]
    by (auto simp: Peer_assign_def)
qed (auto intro: Peer_move_ctor_spec Peer_dtor_spec Peer_update_spec)

section \<open>The first object, and a handle without one\<close>

definition no_peers :: peer_store where
  "no_peers = \<lparr>handles = (\<lambda>_. None), privates = (\<lambda>_. None), next_private = 0\<rparr>"

lemma Peer_ctor_first:
  "\<exists>st. Peer_ctor p no_peers = Some st \<and> store_ok st \<and> (\<forall>q. q \<noteq> p \<longrightarrow> denote st q = None) \<and>
     denote st p = Some (Some PeerPrivate_new)"
  by (auto simp: Peer_ctor_def new_private_def no_peers_def store_ok_def denote_def)

text \<open>The object a handle was moved from has no private object to copy.\<close>

lemma Peer_assign_moved:
  assumes ok: "store_ok st" and p: "handles st p = Some mp" and ne: "p \<noteq> q"
  shows "(do { st \<leftarrow> Peer_move_ctor q p st; Peer_copy_body q p st }) = None"
  using p ne
  by (auto simp: Peer_move_ctor_def Peer_copy_body_def copy_private_def delete_private_def
      new_private_def Let_def split: option.splits Option.bind_splits)

end
