(* ===== verification/NodeState.thy ===== *)
theory NodeState
  imports Peer
begin

text \<open>
  The state of \<open>spw::TcpNodePrivate\<close> (\<^verbatim>\<open>src/TcpNodePrivate.hpp\<close>) and the helpers every
  operation uses. The record extends the socket heap with the members of the class, the static
  connection counter, and the sequence of callback invocations so far. A \<open>std::thread\<close> member
  holds the control point of its thread. A registered callback is a number naming the closure;
  an invocation is an event that records the closure and the arguments it was given.
\<close>

section \<open>Callbacks and their invocations\<close>

type_synonym cb = nat

record callbacks =
  m_callbackNewPeerConnected :: "cb option"
  m_callbackConnectedToNewPeer :: "cb option"
  m_callbackReceived :: "cb option"
  m_callbackSent :: "cb option"
  m_callbackPeerDisconnected :: "cb option"
  m_callbackClosedConnection :: "cb option"
  m_callbackStartedListening :: "cb option"
  m_callbackStoppedListening :: "cb option"
  m_callbackListenError :: "cb option"
  m_callbackSendError :: "cb option"
  m_callbackConnectError :: "cb option"
  m_callbackFaultyConnectionClosed :: "cb option"

definition no_callbacks :: callbacks where
  "no_callbacks =
     \<lparr>m_callbackNewPeerConnected = None, m_callbackConnectedToNewPeer = None,
      m_callbackReceived = None, m_callbackSent = None, m_callbackPeerDisconnected = None,
      m_callbackClosedConnection = None, m_callbackStartedListening = None,
      m_callbackStoppedListening = None, m_callbackListenError = None,
      m_callbackSendError = None, m_callbackConnectError = None,
      m_callbackFaultyConnectionClosed = None\<rparr>"

datatype event =
    NewPeerConnected cb PeerPrivate
  | ConnectedToNewPeer cb PeerPrivate
  | Received cb PeerPrivate bytes
  | Sent cb PeerPrivate u64
  | PeerDisconnected cb PeerPrivate
  | ClosedConnection cb PeerPrivate
  | StartedListening cb u16
  | StoppedListening cb
  | ListenError cb Message
  | SendError cb Message
  | ConnectError cb Message
  | FaultyConnectionClosed cb PeerPrivate Message

section \<open>Threads\<close>

text \<open>
  The control points of the three worker threads. \<open>NoThread\<close> is a default-constructed
  \<open>std::thread\<close>, \<open>Exit\<close> a thread whose function has returned. The connect thread's points
  carry the locals of its loops: the index \<open>i\<close>, the snapshot \<open>queue_length\<close>, the address of
  the new socket, the target, the elapsed time in nanoseconds, and the local \<open>pr\<close>. The code
  gives two callbacks after it has unlocked \<open>m_data_access\<close>: the points \<open>C_Notify\<close> and
  \<open>L_Stopped\<close> stand between the unlocking and the invocation. \<open>L_Stopped\<close> carries the
  closure, which the thread has already read; \<open>m_callback_access\<close> stays locked.
\<close>

datatype listen_pc =
    L_NoThread
  | L_Loop
  | L_StartListening
  | L_StopListening
  | L_Stopped "cb option"
  | L_Wake
  | L_Pause
  | L_Poll
  | L_Exit

datatype connect_pc =
    C_NoThread
  | C_Loop
  | C_Pause
  | C_For nat nat
  | C_Try nat nat nat string u16 int
  | C_Failed nat nat nat string u16
  | C_Connected nat nat nat
  | C_Notify nat nat PeerPrivate
  | C_Pop
  | C_Exit

datatype send_pc = S_NoThread | S_Loop | S_Pause | S_Work | S_Exit

datatype owner_pc = O_Running | O_JoinConnect | O_JoinSend | O_JoinListen | O_Destroyed

text \<open>
  The code queries the three parts of a peer's address as the arguments of one call, so the
  compiler chooses the order of the queries, at every call anew.
\<close>

datatype arg_order =
    Ip_Port_Name | Ip_Name_Port | Port_Ip_Name | Port_Name_Ip | Name_Ip_Port | Name_Port_Ip

section \<open>The node\<close>

type_synonym IpAndPort = "string \<times> u16"
type_synonym OutBuffer = "u64 \<times> bytes"
type_synonym PeerList = "(u64 \<times> PeerPrivate) list"

record ('s, 'w) node = "('s, 'w) mem" +
  m_listener :: ptr
  m_portnumber :: u16
  m_ip_version :: IpVersion
  m_connect_thread_running :: bool
  m_send_thread_running :: bool
  m_listen_thread_running :: bool
  m_listening_enabled :: bool
  m_destructor_called :: bool
  m_listener_available :: bool
  m_wakeup_listen_thread :: bool
  m_changing_listener :: bool
  m_connect_timeout :: int
  m_node_sleep_time :: int
  m_potential_peers :: "IpAndPort list"
  m_data_to_send :: "OutBuffer list"
  m_connectThread :: connect_pc
  m_sendThread :: send_pc
  m_listenThread :: listen_pc
  m_callbacks :: callbacks
  m_createNewSocketFunction :: "'w \<Rightarrow> 's option \<times> 'w"
  m_peers :: PeerList
  m_connection_counter :: u64
  m_owner :: owner_pc
  m_arg_order :: "'w \<Rightarrow> arg_order"
  events :: "event list"

definition DEFAULT_TIMEOUT_MS :: int where
  "DEFAULT_TIMEOUT_MS = 3000"

definition DEFAULT_SLEEPTIME_MS :: int where
  "DEFAULT_SLEEPTIME_MS = 10"

text \<open>One callback invocation, and an invocation guarded by the test that a callback is set.\<close>

definition emit :: "event \<Rightarrow> ('s, 'w) node \<Rightarrow> ('s, 'w) node" where
  "emit e s = s\<lparr>events := events s @ [e]\<rparr>"

definition fire :: "cb option \<Rightarrow> (cb \<Rightarrow> event) \<Rightarrow> ('s, 'w) node \<Rightarrow> ('s, 'w) node" where
  "fire c e s = (case c of None \<Rightarrow> s | Some k \<Rightarrow> emit (e k) s)"

text \<open>A mutation of the peer stored under a key, through the reference to it.\<close>

definition update_peer ::
  "u64 \<Rightarrow> (PeerPrivate \<Rightarrow> PeerPrivate) \<Rightarrow> ('s, 'w) node \<Rightarrow> ('s, 'w) node" where
  "update_peer k f s = s\<lparr>m_peers := AList.map_entry k f (m_peers s)\<rparr>"

text \<open>A call of the socket creation function; \<open>None\<close> is a null result.\<close>

definition create_socket :: "('s, 'w) node \<Rightarrow> ptr \<times> ('s, 'w) node" where
  "create_socket s =
     (let (r, w) = m_createNewSocketFunction s (world s)
      in case r of
           None \<Rightarrow> (None, s\<lparr>world := w\<rparr>)
         | Some so \<Rightarrow> let (a, s) = new_object so (s\<lparr>world := w\<rparr>) in (Some a, s))"

definition createErrorMessage ::
  "('s, 'w) ISocket \<Rightarrow> string \<Rightarrow> string \<Rightarrow> ptr \<Rightarrow> ('s, 'w) node \<Rightarrow> (Message \<times> ('s, 'w) node) option" where
  "createErrorMessage V h b sock s =
     (let m = \<lparr>msg_head = h, msg_body = b\<rparr>
      in if sock \<noteq> None
         then do { (last_errno, s) \<leftarrow> call_local sock (vgetLastErrno V) s;
                   if last_errno \<noteq> 0
                   then do { (str, s) \<leftarrow> call_local sock (vgetLastErrnoString V) s;
                             Some (m\<lparr>msg_body := msg_body m @ CHR 0x0A # ''Error number '' @
                                        to_string_int last_errno @ '' :'' @ str\<rparr>, s) }
                   else Some (m, s) }
         else Some (m, s))"

definition peerExists :: "u64 \<Rightarrow> ('s, 'w) node \<Rightarrow> bool" where
  "peerExists peer_id s =
     (case map_of (m_peers s) peer_id of None \<Rightarrow> False | Some pp \<Rightarrow> m_valid pp)"

text \<open>
  The \<open>Peer\<close> that \<open>_listenThreadJob\<close> and \<open>_connectThreadJob\<close> build for a new connection:
  the code is the same in both.
\<close>

definition query_address ::
  "('s, 'w) ISocket \<Rightarrow> arg_order \<Rightarrow> 's \<Rightarrow> 'w \<Rightarrow> ((string \<times> u16 \<times> string) \<times> 'w) option" where
  "query_address V ord so w =
     (case ord of
        Ip_Port_Name \<Rightarrow>
          do { (ip, w) \<leftarrow> vpeerIpAddress V so w;
               (port, w) \<leftarrow> vpeerPort V so w;
               (name, w) \<leftarrow> vpeerName V so w;
               Some ((ip, port, name), w) }
      | Ip_Name_Port \<Rightarrow>
          do { (ip, w) \<leftarrow> vpeerIpAddress V so w;
               (name, w) \<leftarrow> vpeerName V so w;
               (port, w) \<leftarrow> vpeerPort V so w;
               Some ((ip, port, name), w) }
      | Port_Ip_Name \<Rightarrow>
          do { (port, w) \<leftarrow> vpeerPort V so w;
               (ip, w) \<leftarrow> vpeerIpAddress V so w;
               (name, w) \<leftarrow> vpeerName V so w;
               Some ((ip, port, name), w) }
      | Port_Name_Ip \<Rightarrow>
          do { (port, w) \<leftarrow> vpeerPort V so w;
               (name, w) \<leftarrow> vpeerName V so w;
               (ip, w) \<leftarrow> vpeerIpAddress V so w;
               Some ((ip, port, name), w) }
      | Name_Ip_Port \<Rightarrow>
          do { (name, w) \<leftarrow> vpeerName V so w;
               (ip, w) \<leftarrow> vpeerIpAddress V so w;
               (port, w) \<leftarrow> vpeerPort V so w;
               Some ((ip, port, name), w) }
      | Name_Port_Ip \<Rightarrow>
          do { (name, w) \<leftarrow> vpeerName V so w;
               (port, w) \<leftarrow> vpeerPort V so w;
               (ip, w) \<leftarrow> vpeerIpAddress V so w;
               Some ((ip, port, name), w) })"

definition make_peer ::
  "('s, 'w) ISocket \<Rightarrow> nat \<Rightarrow> u64 \<Rightarrow> ('s, 'w) node \<Rightarrow> (PeerPrivate \<times> ('s, 'w) node) option" where
  "make_peer V new_peer current_count s =
     do { ((ip, port, name), s) \<leftarrow>
            call_query (Some new_peer) (\<lambda>so w. query_address V (m_arg_order s w) so w) s;
          let pr = PeerPrivate_set current_count ip port name PeerPrivate_new;
          let pr = setSocket (Some new_peer) pr;
          let pr = setValid True pr;
          Some (pr, s) }"

section \<open>Construction\<close>

text \<open>
  The constructor, on a heap with its next free address, a world and the value of the static
  counter; \<open>default_new\<close> is \<open>defaultNewSocket\<close>.
\<close>

definition TcpNodePrivate_new ::
  "('w \<Rightarrow> 's option \<times> 'w) \<Rightarrow> IpVersion \<Rightarrow> (nat \<Rightarrow> 's option) \<Rightarrow> nat \<Rightarrow> 'w \<Rightarrow> u64 \<Rightarrow>
     ('s, 'w) node" where
  "TcpNodePrivate_new default_new ipv heap next w counter =
     (let s = \<lparr>objects = heap, next_object = next, world = w,
               m_listener = None, m_portnumber = 0, m_ip_version = ipv,
               m_connect_thread_running = False, m_send_thread_running = False,
               m_listen_thread_running = False, m_listening_enabled = False,
               m_destructor_called = False, m_listener_available = False,
               m_wakeup_listen_thread = False, m_changing_listener = False,
               m_connect_timeout = DEFAULT_TIMEOUT_MS, m_node_sleep_time = DEFAULT_SLEEPTIME_MS,
               m_potential_peers = [], m_data_to_send = [],
               m_connectThread = C_NoThread, m_sendThread = S_NoThread,
               m_listenThread = L_NoThread, m_callbacks = no_callbacks,
               m_createNewSocketFunction = default_new, m_peers = [],
               m_connection_counter = counter, m_owner = O_Running,
               m_arg_order = (\<lambda>_. Ip_Port_Name), events = []\<rparr>;
          (listener, s) = create_socket s
      in s\<lparr>m_listener := listener\<rparr>)"

end
