(* ===== verification/NodeApi.thy ===== *)
theory NodeApi
  imports NodeState
begin

text \<open>
  The member functions of \<open>spw::TcpNodePrivate\<close> that the owner of a node calls
  (\<^verbatim>\<open>src/TcpNodePrivate.cpp\<close>). Each runs under the data mutex or changes single atomics, and
  is one function on the node. \<open>None\<close> is an abnormal end; \<open>notify_one\<close> has no state.
\<close>

section \<open>Listening\<close>

text \<open>Assigning a new thread to a joinable \<open>std::thread\<close> terminates the program.\<close>

definition startListenThreadIfNotRunning :: "('s, 'w) node \<Rightarrow> ('s, 'w) node option" where
  "startListenThreadIfNotRunning s =
     (if \<not> m_listen_thread_running s
      then (let s = s\<lparr>m_listen_thread_running := True\<rparr>
            in if m_listenThread s \<noteq> L_NoThread then None
               else Some (s\<lparr>m_listenThread := L_Loop\<rparr>))
      else Some s)"

definition doListen :: "u16 \<Rightarrow> IpVersion \<Rightarrow> ('s, 'w) node \<Rightarrow> ('s, 'w) node option" where
  "doListen port ipv s =
     (let s = s\<lparr>m_portnumber := port\<rparr>;
          s = s\<lparr>m_listening_enabled := True\<rparr>;
          s = (if m_listener_available s then s\<lparr>m_changing_listener := True\<rparr> else s);
          s = s\<lparr>m_ip_version := ipv\<rparr>;
          s = s\<lparr>m_wakeup_listen_thread := True\<rparr>
      in startListenThreadIfNotRunning s)"

definition isListening :: "('s, 'w) node \<Rightarrow> bool" where
  "isListening s = m_listening_enabled s"

definition listenPort :: "('s, 'w) node \<Rightarrow> u16" where
  "listenPort s = m_portnumber s"

text \<open>
  Two writes of atomics, without a lock. Here they are one after the other; \<open>NodeSystem\<close> has
  also the runs in which other steps come between them.
\<close>

definition stopListening :: "('s, 'w) node \<Rightarrow> ('s, 'w) node" where
  "stopListening s =
     (if m_listen_thread_running s
      then s\<lparr>m_listening_enabled := False, m_wakeup_listen_thread := True\<rparr>
      else s)"

definition setListener ::
  "('s, 'w) ISocket \<Rightarrow> ptr \<Rightarrow> ('s, 'w) node \<Rightarrow> ('s, 'w) node option" where
  "setListener V ifsock s =
     (if ifsock \<noteq> None
      then do { (_, s) \<leftarrow> call (m_listener s) (\<lambda>so w. ((), vclose V so w)) s;
                s \<leftarrow> delete_object V (m_listener s) s;
                let s = s\<lparr>m_listener := ifsock\<rparr>;
                Some (if m_listening_enabled s then s\<lparr>m_changing_listener := True\<rparr> else s) }
      else Some s)"

section \<open>Connecting and sending\<close>

definition connectTo :: "string \<Rightarrow> u16 \<Rightarrow> ('s, 'w) node \<Rightarrow> ('s, 'w) node option" where
  "connectTo ipaddr port s =
     do { s \<leftarrow> (if \<not> m_connect_thread_running s
               then (let s = s\<lparr>m_connect_thread_running := True\<rparr>
                     in if m_connectThread s \<noteq> C_NoThread then None
                        else Some (s\<lparr>m_connectThread := C_Loop\<rparr>))
               else Some s);
          let s = s\<lparr>m_potential_peers := m_potential_peers s @ [(ipaddr, port)]\<rparr>;
          startListenThreadIfNotRunning s }"

definition sendData ::
  "('s, 'w) ISocket \<Rightarrow> Peer \<Rightarrow> bytes \<Rightarrow> ('s, 'w) node \<Rightarrow> ('s, 'w) node option" where
  "sendData V pr dat s =
     (if peerExists (Peer_id pr) s
      then do { s \<leftarrow> (if \<not> m_send_thread_running s
                     then (let s = s\<lparr>m_send_thread_running := True\<rparr>
                           in if m_sendThread s \<noteq> S_NoThread then None
                              else Some (s\<lparr>m_sendThread := S_Loop\<rparr>))
                     else Some s);
                Some (s\<lparr>m_data_to_send := m_data_to_send s @ [(Peer_id pr, dat)]\<rparr>) }
      else (case m_callbackSendError (m_callbacks s) of
              None \<Rightarrow> Some s
            | Some c \<Rightarrow>
                do { (errmsg, s) \<leftarrow> createErrorMessage V ''Send Error''
                       (''Cannot send. Not connected to'' @ Peer_ipAddress pr @ '':'' @
                        to_string_u16 (Peer_port pr) @ ''.'') None s;
                     Some (emit (SendError c errmsg) s) }))"

section \<open>Peers\<close>

definition disconnectPeer :: "Peer \<Rightarrow> ('s, 'w) node \<Rightarrow> ('s, 'w) node option" where
  "disconnectPeer pr s =
     (if peerExists (Peer_id pr) s
      then do { _ \<leftarrow> map_of (m_peers s) (Peer_id pr);
                Some (update_peer (Peer_id pr) (scheduleDelete PEER_WAS_DISCONNECTED) s) }
      else Some s)"

definition disconnectAll :: "('s, 'w) node \<Rightarrow> ('s, 'w) node" where
  "disconnectAll s =
     s\<lparr>m_peers := map (\<lambda>(k, pp). (k, scheduleDelete PEER_WAS_DISCONNECTED pp)) (m_peers s)\<rparr>"

definition allPeers :: "('s, 'w) node \<Rightarrow> PeerList" where
  "allPeers s = m_peers s"

text \<open>The loop of \<open>latestPeer\<close>; \<open>at\<close> on a missing key is an exception (\<open>None\<close>).\<close>

fun max_key :: "PeerList \<Rightarrow> u64 \<Rightarrow> u64" where
  "max_key [] mx = mx"
| "max_key ((current, _) # ps) mx = max_key ps (if current > mx then current else mx)"

definition latestPeer :: "('s, 'w) node \<Rightarrow> Peer option" where
  "latestPeer s =
     (if m_peers s \<noteq> []
      then do { pp \<leftarrow> map_of (m_peers s) (max_key (m_peers s) 0); Some (Some pp) }
      else Some (Some PeerPrivate_new))"

section \<open>Settings\<close>

definition connectTimeout :: "('s, 'w) node \<Rightarrow> int" where
  "connectTimeout s = m_connect_timeout s"

definition setConnectTimeout :: "int \<Rightarrow> ('s, 'w) node \<Rightarrow> ('s, 'w) node" where
  "setConnectTimeout ms s = s\<lparr>m_connect_timeout := ms\<rparr>"

definition setSleepTime :: "int \<Rightarrow> ('s, 'w) node \<Rightarrow> ('s, 'w) node" where
  "setSleepTime ms s = s\<lparr>m_node_sleep_time := ms\<rparr>"

definition receiveBufferSize :: "('s, 'w) ISocket \<Rightarrow> ('s, 'w) node \<Rightarrow> u64 option" where
  "receiveBufferSize V s =
     (if m_listener s \<noteq> None then call_read (m_listener s) (vreceiveBufferSize V) s else Some 0)"

definition setReceiveBufferSize ::
  "('s, 'w) ISocket \<Rightarrow> u64 \<Rightarrow> ('s, 'w) node \<Rightarrow> ('s, 'w) node option" where
  "setReceiveBufferSize V number_of_bytes s =
     (if m_listener s \<noteq> None
      then do { (_, s) \<leftarrow> call_local (m_listener s)
                           (\<lambda>so. ((), vsetReceiveBufferSize V number_of_bytes so)) s;
                Some s }
      else Some s)"

text \<open>An empty \<open>std::function\<close> is \<open>None\<close>.\<close>

definition setSocketInterfaceCreateFunction ::
  "('w \<Rightarrow> 's option \<times> 'w) option \<Rightarrow> ('s, 'w) node \<Rightarrow> ('s, 'w) node" where
  "setSocketInterfaceCreateFunction new_socket_func s =
     (case new_socket_func of
        None \<Rightarrow> s
      | Some f \<Rightarrow> s\<lparr>m_createNewSocketFunction := f\<rparr>)"

section \<open>Callback registration\<close>

definition onStartedListening :: "cb option \<Rightarrow> ('s, 'w) node \<Rightarrow> ('s, 'w) node" where
  "onStartedListening c s = s\<lparr>m_callbacks := (m_callbacks s)\<lparr>m_callbackStartedListening := c\<rparr>\<rparr>"

definition onStoppedListening :: "cb option \<Rightarrow> ('s, 'w) node \<Rightarrow> ('s, 'w) node" where
  "onStoppedListening c s = s\<lparr>m_callbacks := (m_callbacks s)\<lparr>m_callbackStoppedListening := c\<rparr>\<rparr>"

definition onAccept :: "cb option \<Rightarrow> ('s, 'w) node \<Rightarrow> ('s, 'w) node" where
  "onAccept c s = s\<lparr>m_callbacks := (m_callbacks s)\<lparr>m_callbackNewPeerConnected := c\<rparr>\<rparr>"

definition onReceive :: "cb option \<Rightarrow> ('s, 'w) node \<Rightarrow> ('s, 'w) node" where
  "onReceive c s = s\<lparr>m_callbacks := (m_callbacks s)\<lparr>m_callbackReceived := c\<rparr>\<rparr>"

definition onDisconnect :: "cb option \<Rightarrow> ('s, 'w) node \<Rightarrow> ('s, 'w) node" where
  "onDisconnect c s = s\<lparr>m_callbacks := (m_callbacks s)\<lparr>m_callbackPeerDisconnected := c\<rparr>\<rparr>"

definition onClosedConnection :: "cb option \<Rightarrow> ('s, 'w) node \<Rightarrow> ('s, 'w) node" where
  "onClosedConnection c s = s\<lparr>m_callbacks := (m_callbacks s)\<lparr>m_callbackClosedConnection := c\<rparr>\<rparr>"

definition onConnect :: "cb option \<Rightarrow> ('s, 'w) node \<Rightarrow> ('s, 'w) node" where
  "onConnect c s = s\<lparr>m_callbacks := (m_callbacks s)\<lparr>m_callbackConnectedToNewPeer := c\<rparr>\<rparr>"

definition onSend :: "cb option \<Rightarrow> ('s, 'w) node \<Rightarrow> ('s, 'w) node" where
  "onSend c s = s\<lparr>m_callbacks := (m_callbacks s)\<lparr>m_callbackSent := c\<rparr>\<rparr>"

definition onListenError :: "cb option \<Rightarrow> ('s, 'w) node \<Rightarrow> ('s, 'w) node" where
  "onListenError c s = s\<lparr>m_callbacks := (m_callbacks s)\<lparr>m_callbackListenError := c\<rparr>\<rparr>"

definition onSendError :: "cb option \<Rightarrow> ('s, 'w) node \<Rightarrow> ('s, 'w) node" where
  "onSendError c s = s\<lparr>m_callbacks := (m_callbacks s)\<lparr>m_callbackSendError := c\<rparr>\<rparr>"

definition onConnectError :: "cb option \<Rightarrow> ('s, 'w) node \<Rightarrow> ('s, 'w) node" where
  "onConnectError c s = s\<lparr>m_callbacks := (m_callbacks s)\<lparr>m_callbackConnectError := c\<rparr>\<rparr>"

definition onFaultyConnectionClosed :: "cb option \<Rightarrow> ('s, 'w) node \<Rightarrow> ('s, 'w) node" where
  "onFaultyConnectionClosed c s =
     s\<lparr>m_callbacks := (m_callbacks s)\<lparr>m_callbackFaultyConnectionClosed := c\<rparr>\<rparr>"

declare
  onStartedListening_def [registrations]
  onStoppedListening_def [registrations]
  onAccept_def [registrations]
  onReceive_def [registrations]
  onDisconnect_def [registrations]
  onClosedConnection_def [registrations]
  onConnect_def [registrations]
  onSend_def [registrations]
  onListenError_def [registrations]
  onSendError_def [registrations]
  onConnectError_def [registrations]
  onFaultyConnectionClosed_def [registrations]

section \<open>Destruction\<close>

text \<open>
  The destructor signals and joins the three threads in turn. The owner's control point says
  which thread it is waiting for; a join returns once the thread's function has returned, and
  a thread that was never started is not waited for. Then the peers are scheduled, and the
  listener is closed and deleted.
\<close>

definition dtor_begin :: "('s, 'w) node \<Rightarrow> ('s, 'w) node" where
  "dtor_begin s =
     s\<lparr>m_destructor_called := True, m_connect_thread_running := False, m_owner := O_JoinConnect\<rparr>"

definition dtor_send :: "('s, 'w) node \<Rightarrow> ('s, 'w) node" where
  "dtor_send s = s\<lparr>m_send_thread_running := False, m_owner := O_JoinSend\<rparr>"

definition dtor_listen :: "('s, 'w) node \<Rightarrow> ('s, 'w) node" where
  "dtor_listen s = s\<lparr>m_listen_thread_running := False, m_owner := O_JoinListen\<rparr>"

definition dtor_end :: "('s, 'w) ISocket \<Rightarrow> ('s, 'w) node \<Rightarrow> ('s, 'w) node option" where
  "dtor_end V s =
     do { let s = disconnectAll s;
          (_, s) \<leftarrow> call (m_listener s) (\<lambda>so w. ((), vclose V so w)) s;
          s \<leftarrow> delete_object V (m_listener s) s;
          Some (s\<lparr>m_owner := O_Destroyed\<rparr>) }"

end
