(* ===== verification/ListenThread.thy ===== *)
theory ListenThread
  imports NodeApi
begin

text \<open>
  \<open>TcpNodePrivate::_listenThreadJob\<close>: the loop body cut at the points where the thread holds no
  lock, one function per piece, and the step function that composes them over the thread's
  control points.
\<close>

section \<open>Switching the listener on and off\<close>

definition listen_requested :: "('s, 'w) node \<Rightarrow> bool" where
  "listen_requested s \<longleftrightarrow>
     m_listening_enabled s \<and> \<not> m_listener_available s \<or> m_changing_listener s"

definition stop_requested :: "('s, 'w) node \<Rightarrow> bool" where
  "stop_requested s \<longleftrightarrow> \<not> m_listening_enabled s \<and> m_listener_available s"

definition start_listening :: "('s, 'w) ISocket \<Rightarrow> ('s, 'w) node \<Rightarrow> ('s, 'w) node option" where
  "start_listening V s =
     do { (ok, s) \<leftarrow> call (m_listener s) (vlisten V (m_portnumber s) (m_ip_version s)) s;
          s \<leftarrow> (if \<not> ok
               then do { s \<leftarrow> (case m_callbackListenError (m_callbacks s) of
                                None \<Rightarrow> Some s
                              | Some c \<Rightarrow>
                                  do { (errmsg, s) \<leftarrow> createErrorMessage V ''Listen Error''
                                         ''Failed to create listener'' (m_listener s) s;
                                       Some (emit (ListenError c errmsg) s) });
                         Some (s\<lparr>m_listener_available := False, m_listening_enabled := False\<rparr>) }
               else do { let s = s\<lparr>m_listener_available := True\<rparr>;
                         (case m_callbackStartedListening (m_callbacks s) of
                            None \<Rightarrow> Some s
                          | Some c \<Rightarrow>
                              do { portnum \<leftarrow> call_read (m_listener s) (vlistenPort V) s;
                                   Some (emit (StartedListening c portnum) s) }) });
          Some (s\<lparr>m_changing_listener := False\<rparr>) }"

text \<open>
  Stopping: under both mutexes the listener is closed and the callback read; \<open>lck.unlock()\<close> then
  unlocks the data mutex (the callback mutex is \<open>lck2\<close>), and the callback is invoked.
\<close>

definition stop_listening ::
  "('s, 'w) ISocket \<Rightarrow> ('s, 'w) node \<Rightarrow> (cb option \<times> ('s, 'w) node) option" where
  "stop_listening V s =
     do { (_, s) \<leftarrow> call (m_listener s) (\<lambda>so w. ((), vclose V so w)) s;
          let s = s\<lparr>m_listener_available := False\<rparr>;
          Some (m_callbackStoppedListening (m_callbacks s), s) }"

text \<open>The condition on which \<open>_pauseUntilPeersOrListenerAvailable\<close> returns.\<close>

definition peers_or_listener :: "('s, 'w) node \<Rightarrow> bool" where
  "peers_or_listener s \<longleftrightarrow>
     m_peers s \<noteq> [] \<or> m_listener_available s \<or> m_destructor_called s \<or>
     m_changing_listener s \<or> m_wakeup_listen_thread s"

section \<open>Accepting\<close>

text \<open>What follows \<open>accept\<close>: a connection with the socket \<open>so\<close>, or no connection.\<close>

definition accepted_new :: "('s, 'w) ISocket \<Rightarrow> 's \<Rightarrow> ('s, 'w) node \<Rightarrow> ('s, 'w) node option" where
  "accepted_new V so s =
     do { let (new_peer, s) = new_object so s;
          let current_count = m_connection_counter s + 1;
          let s = s\<lparr>m_connection_counter := current_count\<rparr>;
          (np, s) \<leftarrow> make_peer V new_peer current_count s;
          let s = s\<lparr>m_peers := umap_insert current_count np (m_peers s)\<rparr>;
          Some (fire (m_callbackNewPeerConnected (m_callbacks s))
                  (\<lambda>c. NewPeerConnected c np) s) }"

definition accepted_none :: "('s, 'w) ISocket \<Rightarrow> ('s, 'w) node \<Rightarrow> ('s, 'w) node option" where
  "accepted_none V s =
     do { (errornum, s) \<leftarrow> call_local (m_listener s) (vgetLastErrno V) s;
          if errornum \<noteq> 0
          then (case m_callbackListenError (m_callbacks s) of
                  None \<Rightarrow> Some s
                | Some c \<Rightarrow>
                    do { (errmsg, s) \<leftarrow> createErrorMessage V ''Listen Error''
                           ''Failed to accept'' (m_listener s) s;
                         Some (emit (ListenError c errmsg) s) })
          else Some s }"

definition accept_peer :: "('s, 'w) ISocket \<Rightarrow> ('s, 'w) node \<Rightarrow> ('s, 'w) node option" where
  "accept_peer V s =
     do { isListener \<leftarrow> call_read (m_listener s) (visListener V) s;
          isListening \<leftarrow> call_read (m_listener s) (visListening V) s;
          if isListener \<and> isListening \<and> m_listener_available s
          then do { (accepted, s) \<leftarrow> call (m_listener s) (vaccept V) s;
                    (case accepted of
                       Some so \<Rightarrow> accepted_new V so s
                     | None \<Rightarrow> accepted_none V s) }
          else Some s }"

section \<open>Receiving\<close>

definition fail_peer ::
  "('s, 'w) ISocket \<Rightarrow> u64 \<Rightarrow> string \<Rightarrow> ptr \<Rightarrow> ('s, 'w) node \<Rightarrow> ('s, 'w) node option" where
  "fail_peer V k body sock s =
     do { let s = update_peer k (scheduleDelete PEER_WAS_DISCONNECTED_DUE_TO_ERROR) s;
          (errmsg, s) \<leftarrow> createErrorMessage V ''Receive Error'' body sock s;
          Some (update_peer k (setErrorMessage errmsg) s) }"

text \<open>The body of the receive loop for the entry under the key \<open>k\<close>.\<close>

definition receive_peer :: "('s, 'w) ISocket \<Rightarrow> u64 \<Rightarrow> ('s, 'w) node \<Rightarrow> ('s, 'w) node option" where
  "receive_peer V k s =
     do { pp \<leftarrow> map_of (m_peers s) k;
          if toBeDeleted pp then Some s
          else do {
            let psock = getSocket pp;
            ((recres, recdata), s) \<leftarrow>
              (if psock \<noteq> None
               then do { isConnected \<leftarrow> call_read psock (visConnected V) s;
                         if isConnected then call psock (vreceive V []) s
                         else Some ((ERROR_NO_CONNECTION, []), s) }
               else Some ((ERROR_NO_CONNECTION, []), s));
            (case recres of
               RR_OK \<Rightarrow>
                 Some (fire (m_callbackReceived (m_callbacks s)) (\<lambda>c. Received c pp recdata) s)
             | ERROR_NO_CONNECTION \<Rightarrow> fail_peer V k ''Socket is not connected.'' None s
             | ERROR_IS_LISTENER \<Rightarrow> fail_peer V k ''Socket is a listener.'' None s
             | ERROR_PEER_DISCONNECTED \<Rightarrow>
                 Some (update_peer k (scheduleDelete PEER_DISCONNECTED_THEMSELF) s)
             | ERROR_SYSTEM \<Rightarrow> fail_peer V k ''Failed to receive.'' (getSocket pp) s
             | ERROR_NOTHING_RECEIVED \<Rightarrow> Some s) } }"

fun receive_loop :: "('s, 'w) ISocket \<Rightarrow> u64 list \<Rightarrow> ('s, 'w) node \<Rightarrow> ('s, 'w) node option" where
  "receive_loop V [] s = Some s"
| "receive_loop V (k # ks) s = do { s \<leftarrow> receive_peer V k s; receive_loop V ks s }"

section \<open>Deleting\<close>

text \<open>The entry the deletion loop stops at: the first one scheduled, in iteration order.\<close>

definition next_scheduled :: "PeerList \<Rightarrow> (u64 \<times> PeerPrivate) option" where
  "next_scheduled ps = find (\<lambda>(k, pp). toBeDeleted pp) ps"

definition notify_closed :: "PeerPrivate \<Rightarrow> ('s, 'w) node \<Rightarrow> ('s, 'w) node" where
  "notify_closed temp s =
     (let cbs = m_callbacks s
      in if disconnectType temp = PEER_DISCONNECTED_THEMSELF \<and> m_callbackPeerDisconnected cbs \<noteq> None
         then fire (m_callbackPeerDisconnected cbs) (\<lambda>c. PeerDisconnected c temp) s
         else if m_callbackClosedConnection cbs \<noteq> None \<and> disconnectType temp = PEER_WAS_DISCONNECTED
         then fire (m_callbackClosedConnection cbs) (\<lambda>c. ClosedConnection c temp) s
         else if m_callbackFaultyConnectionClosed cbs \<noteq> None \<and>
                 disconnectType temp = PEER_WAS_DISCONNECTED_DUE_TO_ERROR
         then fire (m_callbackFaultyConnectionClosed cbs)
                (\<lambda>c. FaultyConnectionClosed c temp (getErrorMessage temp)) s
         else s)"

definition delete_next :: "('s, 'w) ISocket \<Rightarrow> ('s, 'w) node \<Rightarrow> ('s, 'w) node option" where
  "delete_next V s =
     (case next_scheduled (m_peers s) of
        None \<Rightarrow> Some s
      | Some (k, temp) \<Rightarrow>
          do { (pp, s) \<leftarrow> destroySocket V temp s;
               let s = s\<lparr>m_peers := AList.delete k (m_peers s)\<rparr>;
               Some (notify_closed temp s) })"

section \<open>The thread\<close>

definition poll :: "('s, 'w) ISocket \<Rightarrow> ('s, 'w) node \<Rightarrow> ('s, 'w) node option" where
  "poll V s =
     do { s \<leftarrow> accept_peer V s;
          s \<leftarrow> receive_loop V (keys_of (m_peers s)) s;
          delete_next V s }"

definition listenThread_step :: "('s, 'w) ISocket \<Rightarrow> ('s, 'w) node \<Rightarrow> ('s, 'w) node option" where
  "listenThread_step V s =
     (case m_listenThread s of
        L_Loop \<Rightarrow>
          Some (s\<lparr>m_listenThread :=
                    (if \<not> m_listen_thread_running s then L_Exit
                     else if listen_requested s then L_StartListening
                     else if stop_requested s then L_StopListening
                     else L_Wake)\<rparr>)
      | L_StartListening \<Rightarrow>
          do { s \<leftarrow> start_listening V s; Some (s\<lparr>m_listenThread := L_Wake\<rparr>) }
      | L_StopListening \<Rightarrow>
          do { (c, s) \<leftarrow> stop_listening V s; Some (s\<lparr>m_listenThread := L_Stopped c\<rparr>) }
      | L_Stopped c \<Rightarrow> Some ((fire c StoppedListening s)\<lparr>m_listenThread := L_Wake\<rparr>)
      | L_Wake \<Rightarrow> Some (s\<lparr>m_wakeup_listen_thread := False, m_listenThread := L_Pause\<rparr>)
      | L_Pause \<Rightarrow>
          Some (s\<lparr>m_listenThread := (if m_destructor_called s then L_Exit else L_Poll)\<rparr>)
      | L_Poll \<Rightarrow> do { s \<leftarrow> poll V s; Some (s\<lparr>m_listenThread := L_Loop\<rparr>) }
      | _ \<Rightarrow> Some s)"

definition listenThread_enabled :: "('s, 'w) node \<Rightarrow> bool" where
  "listenThread_enabled s =
     (case m_listenThread s of
        L_NoThread \<Rightarrow> False
      | L_Exit \<Rightarrow> False
      | L_Pause \<Rightarrow> peers_or_listener s
      | _ \<Rightarrow> True)"

end
