(* ===== verification/ConnectThread.thy ===== *)
theory ConnectThread
  imports NodeApi
begin

text \<open>
  \<open>TcpNodePrivate::_connectThreadJob\<close>: one function per piece between two lock operations, and
  the step function over the control points. \<open>T\<close> is the clock: \<open>T ms w\<close> sleeps \<open>ms\<close>
  milliseconds and returns the time measured around the sleep in nanoseconds (the code adds
  these up as \<open>duration<double>\<close>; the model's sum is exact).
\<close>

text \<open>The head of the \<open>for\<close> body: a new socket, and the target at the front of the queue.\<close>

definition begin_connect :: "nat \<Rightarrow> nat \<Rightarrow> ('s, 'w) node \<Rightarrow> ('s, 'w) node option" where
  "begin_connect i queue_length s =
     do { let (new_peer, s) = create_socket s;
          (ip, port) \<leftarrow> (case m_potential_peers s of [] \<Rightarrow> None | t # _ \<Rightarrow> Some t);
          a \<leftarrow> new_peer;
          Some (s\<lparr>m_connectThread := C_Try i queue_length a ip port 0\<rparr>) }"

text \<open>
  One pass of the \<open>do\<close> loop: the outcome of \<open>connect\<close>, the error number, the elapsed time,
  and whether the loop goes on.
\<close>

definition try_connect ::
  "('s, 'w) ISocket \<Rightarrow> (int \<Rightarrow> 'w \<Rightarrow> int \<times> 'w) \<Rightarrow> nat \<Rightarrow> string \<Rightarrow> u16 \<Rightarrow> int \<Rightarrow> ('s, 'w) node \<Rightarrow>
     ((bool \<times> int \<times> bool) \<times> ('s, 'w) node) option" where
  "try_connect V T new_peer ip port elapsed s =
     do { (connect_success, s) \<leftarrow> call (Some new_peer) (vconnect V ip port) s;
          (errornum, s) \<leftarrow> call_local (Some new_peer) (vgetLastErrno V) s;
          let (measured, w) = T (m_node_sleep_time s) (world s);
          let s = s\<lparr>world := w\<rparr>;
          let elapsed = elapsed + measured;
          let timeup = (elapsed div 1000000 \<ge> m_connect_timeout s);
          Some ((connect_success, elapsed, \<not> connect_success \<and> errornum = 0 \<and> \<not> timeup), s) }"

definition connect_failed ::
  "('s, 'w) ISocket \<Rightarrow> nat \<Rightarrow> string \<Rightarrow> u16 \<Rightarrow> ('s, 'w) node \<Rightarrow> ('s, 'w) node option" where
  "connect_failed V new_peer ip port s =
     do { s \<leftarrow> (case m_callbackConnectError (m_callbacks s) of
                 None \<Rightarrow> Some s
               | Some c \<Rightarrow>
                   do { (errmsg, s) \<leftarrow> createErrorMessage V ''Connect Error''
                          (''Failed to connect to '' @ ip @ '':'' @ to_string_u16 port)
                          (Some new_peer) s;
                        Some (emit (ConnectError c errmsg) s) });
          delete_object V (Some new_peer) s }"

text \<open>The connection is filed under the data mutex; its callback is invoked after the unlocking.\<close>

definition connect_done ::
  "('s, 'w) ISocket \<Rightarrow> nat \<Rightarrow> ('s, 'w) node \<Rightarrow> (PeerPrivate \<times> ('s, 'w) node) option" where
  "connect_done V new_peer s =
     do { let current_count = m_connection_counter s + 1;
          let s = s\<lparr>m_connection_counter := current_count\<rparr>;
          (pr, s) \<leftarrow> make_peer V new_peer current_count s;
          Some (pr, s\<lparr>m_peers := umap_insert current_count pr (m_peers s)\<rparr>) }"

definition connect_notify :: "PeerPrivate \<Rightarrow> ('s, 'w) node \<Rightarrow> ('s, 'w) node" where
  "connect_notify pr s =
     fire (m_callbackConnectedToNewPeer (m_callbacks s)) (\<lambda>c. ConnectedToNewPeer c pr) s"

definition pop_potential_peer :: "('s, 'w) node \<Rightarrow> ('s, 'w) node option" where
  "pop_potential_peer s =
     (case m_potential_peers s of
        [] \<Rightarrow> None
      | _ # q \<Rightarrow> Some (s\<lparr>m_potential_peers := q\<rparr>))"

text \<open>The condition on which \<open>_pauseUntilQueueNotEmpty\<close> returns.\<close>

definition queue_not_empty :: "('s, 'w) node \<Rightarrow> bool" where
  "queue_not_empty s \<longleftrightarrow> m_potential_peers s \<noteq> [] \<or> m_destructor_called s"

definition connectThread_step ::
  "('s, 'w) ISocket \<Rightarrow> (int \<Rightarrow> 'w \<Rightarrow> int \<times> 'w) \<Rightarrow> ('s, 'w) node \<Rightarrow> ('s, 'w) node option" where
  "connectThread_step V T s =
     (case m_connectThread s of
        C_Loop \<Rightarrow>
          (if \<not> m_connect_thread_running s then Some (s\<lparr>m_connectThread := C_Exit\<rparr>)
           else let queue_length = length (m_potential_peers s)
                in if queue_length \<le> 0 then Some (s\<lparr>m_connectThread := C_Pause\<rparr>)
                   else Some (s\<lparr>m_connectThread := C_For 0 queue_length\<rparr>))
      | C_Pause \<Rightarrow> Some (s\<lparr>m_connectThread := C_Loop\<rparr>)
      | C_For i n \<Rightarrow>
          (if i < n then begin_connect i n s else Some (s\<lparr>m_connectThread := C_Pop\<rparr>))
      | C_Try i n a ip port elapsed \<Rightarrow>
          do { ((connect_success, elapsed, again), s) \<leftarrow> try_connect V T a ip port elapsed s;
               Some (s\<lparr>m_connectThread :=
                         (if again then C_Try i n a ip port elapsed
                          else if connect_success then C_Connected i n a
                          else C_Failed i n a ip port)\<rparr>) }
      | C_Failed i n a ip port \<Rightarrow>
          do { s \<leftarrow> connect_failed V a ip port s;
               Some (s\<lparr>m_connectThread := C_For (i + 1) n\<rparr>) }
      | C_Connected i n a \<Rightarrow>
          do { (pr, s) \<leftarrow> connect_done V a s; Some (s\<lparr>m_connectThread := C_Notify i n pr\<rparr>) }
      | C_Notify i n pr \<Rightarrow> Some ((connect_notify pr s)\<lparr>m_connectThread := C_For (i + 1) n\<rparr>)
      | C_Pop \<Rightarrow> do { s \<leftarrow> pop_potential_peer s; Some (s\<lparr>m_connectThread := C_Loop\<rparr>) }
      | _ \<Rightarrow> Some s)"

definition connectThread_enabled :: "('s, 'w) node \<Rightarrow> bool" where
  "connectThread_enabled s =
     (case m_connectThread s of
        C_NoThread \<Rightarrow> False
      | C_Exit \<Rightarrow> False
      | C_Pause \<Rightarrow> queue_not_empty s
      | _ \<Rightarrow> True)"

end
