(* ===== verification/SendThread.thy ===== *)
theory SendThread
  imports NodeApi
begin

text \<open>
  \<open>TcpNodePrivate::_sendThreadJob\<close>: the part under the data mutex that handles the front of
  the output list, and the step function over the control points.
\<close>

definition send_front :: "('s, 'w) ISocket \<Rightarrow> ('s, 'w) node \<Rightarrow> ('s, 'w) node option" where
  "send_front V s =
     (case m_data_to_send s of
        [] \<Rightarrow> Some s
      | (peer_id, dat) # rest \<Rightarrow>
          do { s \<leftarrow> (case map_of (m_peers s) peer_id of
                      None \<Rightarrow>
                        (case m_callbackSendError (m_callbacks s) of
                           None \<Rightarrow> Some s
                         | Some c \<Rightarrow>
                             do { (errmsg, s) \<leftarrow> createErrorMessage V ''Send Error''
                                    ''Specified peer does not exist.'' None s;
                                  Some (emit (SendError c errmsg) s) })
                    | Some pp \<Rightarrow>
                        if \<not> toBeDeleted pp
                        then do { (bytes_sent, s) \<leftarrow> call (getSocket pp) (vsend V dat) s;
                                  if bytes_sent > 0
                                  then Some (fire (m_callbackSent (m_callbacks s))
                                               (\<lambda>c. Sent c pp bytes_sent) s)
                                  else if m_callbackSendError (m_callbacks s) \<noteq> None
                                  then do { (errmsg, s) \<leftarrow> createErrorMessage V ''Send Error''
                                              ''Sending Failed'' (getSocket pp) s;
                                            let s = update_peer peer_id (setErrorMessage errmsg) s;
                                            Some (update_peer peer_id
                                              (scheduleDelete PEER_WAS_DISCONNECTED_DUE_TO_ERROR) s) }
                                  else Some s }
                        else Some s);
               Some (s\<lparr>m_data_to_send := tl (m_data_to_send s)\<rparr>) })"

text \<open>The size of the list as the \<open>uint8_t\<close> it is stored in.\<close>

definition to_send_count :: "('s, 'w) node \<Rightarrow> u8" where
  "to_send_count s = of_nat (length (m_data_to_send s))"

text \<open>The condition on which \<open>_pauseUntilDataToSendAvailable\<close> returns.\<close>

definition data_available :: "('s, 'w) node \<Rightarrow> bool" where
  "data_available s \<longleftrightarrow> m_data_to_send s \<noteq> [] \<or> m_destructor_called s"

definition sendThread_step :: "('s, 'w) ISocket \<Rightarrow> ('s, 'w) node \<Rightarrow> ('s, 'w) node option" where
  "sendThread_step V s =
     (case m_sendThread s of
        S_Loop \<Rightarrow>
          (if \<not> m_send_thread_running s then Some (s\<lparr>m_sendThread := S_Exit\<rparr>)
           else if to_send_count s \<le> 0 then Some (s\<lparr>m_sendThread := S_Pause\<rparr>)
           else do { s \<leftarrow> send_front V s; Some (s\<lparr>m_sendThread := S_Loop\<rparr>) })
      | S_Pause \<Rightarrow> Some (s\<lparr>m_sendThread := S_Work\<rparr>)
      | S_Work \<Rightarrow> do { s \<leftarrow> send_front V s; Some (s\<lparr>m_sendThread := S_Loop\<rparr>) }
      | _ \<Rightarrow> Some s)"

definition sendThread_enabled :: "('s, 'w) node \<Rightarrow> bool" where
  "sendThread_enabled s =
     (case m_sendThread s of
        S_NoThread \<Rightarrow> False
      | S_Exit \<Rightarrow> False
      | S_Pause \<Rightarrow> data_available s
      | _ \<Rightarrow> True)"

end
