(* ===== verification/NodeInv.thy ===== *)
theory NodeInv
  imports ListenThread ConnectThread SendThread
begin

text \<open>
  Memory safety of the node: the ownership invariant over the socket heap and the peer table,
  and for every operation and every piece of a thread that, in a state that satisfies it, the
  code ends normally (no null or dangling pointer is used, no \<open>at\<close> or \<open>front\<close> fails, nothing
  is deleted twice) and re-establishes it.
\<close>

section \<open>The invariants\<close>

fun connecting :: "connect_pc \<Rightarrow> ptr list" where
  "connecting (C_Try i n a ip port elapsed) = [Some a]"
| "connecting (C_Failed i n a ip port) = [Some a]"
| "connecting (C_Connected i n a) = [Some a]"
| "connecting _ = []"

abbreviation peer_sockets :: "PeerList \<Rightarrow> ptr list" where
  "peer_sockets ps \<equiv> map (\<lambda>(k, pp). m_socket pp) ps"

text \<open>The pointers through which the node owns sockets: no two are equal, and all are live.\<close>

definition listener_of :: "owner_pc \<Rightarrow> ptr \<Rightarrow> ptr list" where
  "listener_of ow p = (if ow = O_Destroyed then [] else [p])"

definition owned :: "('s, 'w) node \<Rightarrow> ptr list" where
  "owned s =
     listener_of (m_owner s) (m_listener s) @
     connecting (m_connectThread s) @ peer_sockets (m_peers s)"

definition own_inv :: "('s, 'w) node \<Rightarrow> bool" where
  "own_inv s \<longleftrightarrow> heap_ok s \<and> distinct (owned s) \<and> set (owned s) \<subseteq> Some ` live s"

text \<open>Every entry of the peer table is filed under its own id and is valid.\<close>

definition peers_inv :: "PeerList \<Rightarrow> bool" where
  "peers_inv ps \<longleftrightarrow>
     distinct (keys_of ps) \<and> (\<forall>(k, pp) \<in> set ps. m_connection_id pp = k \<and> m_valid pp)"

definition core_inv :: "('s, 'w) node \<Rightarrow> bool" where
  "core_inv s \<longleftrightarrow> own_inv s \<and> peers_inv (m_peers s)"

text \<open>The connect thread's snapshot never exceeds the queue, so \<open>front\<close> and \<open>pop_front\<close> are safe.\<close>

fun queue_inv :: "connect_pc \<Rightarrow> IpAndPort list \<Rightarrow> bool" where
  "queue_inv (C_For i n) q \<longleftrightarrow> i \<le> n \<and> 0 < n \<and> n \<le> length q"
| "queue_inv (C_Try i n a ip port elapsed) q \<longleftrightarrow> i < n \<and> n \<le> length q"
| "queue_inv (C_Failed i n a ip port) q \<longleftrightarrow> i < n \<and> n \<le> length q"
| "queue_inv (C_Connected i n a) q \<longleftrightarrow> i < n \<and> n \<le> length q"
| "queue_inv (C_Notify i n pp) q \<longleftrightarrow> i < n \<and> n \<le> length q"
| "queue_inv C_Pop q \<longleftrightarrow> q \<noteq> []"
| "queue_inv _ q \<longleftrightarrow> True"

text \<open>
  Threads and the owner: while the node is in use a thread exists exactly when its flag is set,
  and each join of the destructor waits until the thread has ended.
\<close>

definition connect_stopped :: "('s, 'w) node \<Rightarrow> bool" where
  "connect_stopped s \<longleftrightarrow> m_connectThread s = C_NoThread \<or> m_connectThread s = C_Exit"

definition send_stopped :: "('s, 'w) node \<Rightarrow> bool" where
  "send_stopped s \<longleftrightarrow> m_sendThread s = S_NoThread \<or> m_sendThread s = S_Exit"

definition listen_stopped :: "('s, 'w) node \<Rightarrow> bool" where
  "listen_stopped s \<longleftrightarrow> m_listenThread s = L_NoThread \<or> m_listenThread s = L_Exit"

definition thread_inv :: "('s, 'w) node \<Rightarrow> bool" where
  "thread_inv s \<longleftrightarrow>
     (m_destructor_called s \<longleftrightarrow> m_owner s \<noteq> O_Running) \<and>
     (m_owner s = O_Running \<longrightarrow>
        (m_connect_thread_running s \<longleftrightarrow> m_connectThread s \<noteq> C_NoThread) \<and>
        (m_send_thread_running s \<longleftrightarrow> m_sendThread s \<noteq> S_NoThread) \<and>
        (m_listen_thread_running s \<longleftrightarrow> m_listenThread s \<noteq> L_NoThread)) \<and>
     (m_owner s \<in> {O_JoinSend, O_JoinListen, O_Destroyed} \<longrightarrow> connect_stopped s) \<and>
     (m_owner s \<in> {O_JoinListen, O_Destroyed} \<longrightarrow> send_stopped s) \<and>
     (m_owner s = O_Destroyed \<longrightarrow> listen_stopped s)"

definition creates_sockets :: "('w \<Rightarrow> 's option \<times> 'w) \<Rightarrow> bool" where
  "creates_sockets f \<longleftrightarrow> (\<forall>w. fst (f w) \<noteq> None)"

definition node_inv :: "('s, 'w) node \<Rightarrow> bool" where
  "node_inv s \<longleftrightarrow>
     core_inv s \<and> queue_inv (m_connectThread s) (m_potential_peers s) \<and> thread_inv s \<and>
     creates_sockets (m_createNewSocketFunction s)"

text \<open>What the socket implementation must guarantee: the address queries are defined.\<close>

definition names_defined :: "('s, 'w) ISocket \<Rightarrow> bool" where
  "names_defined V \<longleftrightarrow>
     (\<forall>so w. vpeerIpAddress V so w \<noteq> None \<and> vpeerPort V so w \<noteq> None \<and> vpeerName V so w \<noteq> None)"

section \<open>Frames\<close>

text \<open>The members that the pieces of a thread leave alone, as one value.\<close>

definition control ::
  "('s, 'w) node \<Rightarrow>
     (connect_pc \<times> send_pc \<times> listen_pc \<times> owner_pc) \<times> (bool \<times> bool \<times> bool \<times> bool) \<times>
     IpAndPort list \<times> ('w \<Rightarrow> 's option \<times> 'w) \<times> callbacks \<times> ptr" where
  "control s =
     ((m_connectThread s, m_sendThread s, m_listenThread s, m_owner s),
      (m_connect_thread_running s, m_send_thread_running s, m_listen_thread_running s,
       m_destructor_called s),
      m_potential_peers s, m_createNewSocketFunction s, m_callbacks s, m_listener s)"

lemma store_object_node [simp]:
  "m_listener (store_object a so w s) = m_listener s"
  "m_peers (store_object a so w s) = m_peers s"
  "m_callbacks (store_object a so w s) = m_callbacks s"
  "m_connectThread (store_object a so w s) = m_connectThread s"
  "m_owner (store_object a so w s) = m_owner s"
  "m_listener_available (store_object a so w s) = m_listener_available s"
  "m_listening_enabled (store_object a so w s) = m_listening_enabled s"
  "m_changing_listener (store_object a so w s) = m_changing_listener s"
  "m_potential_peers (store_object a so w s) = m_potential_peers s"
  "m_data_to_send (store_object a so w s) = m_data_to_send s"
  "m_connection_counter (store_object a so w s) = m_connection_counter s"
  "m_node_sleep_time (store_object a so w s) = m_node_sleep_time s"
  "m_connect_timeout (store_object a so w s) = m_connect_timeout s"
  "events (store_object a so w s) = events s"
  "control (store_object a so w s) = control s"
  by (simp_all add: store_object_def control_def)

lemma owned_store_object [simp]: "owned (store_object a so w s) = owned s"
  by (simp add: owned_def)

lemma core_store_object [simp]:
  "a \<in> live s \<Longrightarrow> core_inv (store_object a so w s) = core_inv s"
  by (simp add: core_inv_def own_inv_def)

text \<open>The members the core invariant depends on, and updates of the others.\<close>

lemma core_cong:
  assumes "core_inv s" and "objects s' = objects s" and "next_object s' = next_object s"
    and "m_owner s' = m_owner s" and "m_listener s' = m_listener s"
    and "m_connectThread s' = m_connectThread s" and "m_peers s' = m_peers s"
  shows "core_inv s'"
  using assms by (simp add: core_inv_def own_inv_def owned_def heap_ok_def live_def)

lemma core_updates [simp]:
  "core_inv (s\<lparr>world := w\<rparr>) = core_inv s"
  "core_inv (s\<lparr>events := e\<rparr>) = core_inv s"
  "core_inv (s\<lparr>m_listening_enabled := b\<rparr>) = core_inv s"
  "core_inv (s\<lparr>m_listener_available := b\<rparr>) = core_inv s"
  "core_inv (s\<lparr>m_changing_listener := b\<rparr>) = core_inv s"
  "core_inv (s\<lparr>m_wakeup_listen_thread := b\<rparr>) = core_inv s"
  "core_inv (s\<lparr>m_listenThread := lp\<rparr>) = core_inv s"
  "core_inv (s\<lparr>m_sendThread := sp\<rparr>) = core_inv s"
  "core_inv (s\<lparr>m_connection_counter := c\<rparr>) = core_inv s"
  "core_inv (s\<lparr>m_data_to_send := d\<rparr>) = core_inv s"
  "core_inv (s\<lparr>m_potential_peers := q\<rparr>) = core_inv s"
  "core_inv (s\<lparr>m_callbacks := c'\<rparr>) = core_inv s"
  "core_inv (s\<lparr>m_portnumber := p\<rparr>) = core_inv s"
  "core_inv (s\<lparr>m_ip_version := v\<rparr>) = core_inv s"
  "core_inv (s\<lparr>m_connect_thread_running := b\<rparr>) = core_inv s"
  "core_inv (s\<lparr>m_send_thread_running := b\<rparr>) = core_inv s"
  "core_inv (s\<lparr>m_listen_thread_running := b\<rparr>) = core_inv s"
  "core_inv (s\<lparr>m_connect_timeout := i\<rparr>) = core_inv s"
  "core_inv (s\<lparr>m_node_sleep_time := i\<rparr>) = core_inv s"
  "core_inv (s\<lparr>m_destructor_called := b\<rparr>) = core_inv s"
  "core_inv (s\<lparr>m_createNewSocketFunction := f\<rparr>) = core_inv s"
  by (simp_all add: core_inv_def own_inv_def owned_def heap_ok_def live_def)

lemma control_updates [simp]:
  "control (s\<lparr>world := w\<rparr>) = control s"
  "control (s\<lparr>events := e\<rparr>) = control s"
  "control (s\<lparr>m_listening_enabled := b\<rparr>) = control s"
  "control (s\<lparr>m_listener_available := b\<rparr>) = control s"
  "control (s\<lparr>m_changing_listener := b\<rparr>) = control s"
  "control (s\<lparr>m_connection_counter := c\<rparr>) = control s"
  "control (s\<lparr>m_peers := ps\<rparr>) = control s"
  "control (s\<lparr>m_data_to_send := d\<rparr>) = control s"
  "control (s\<lparr>objects := h\<rparr>) = control s"
  "control (s\<lparr>next_object := n\<rparr>) = control s"
  by (simp_all add: control_def)

lemma emit_fire [simp]:
  "core_inv (emit e s) = core_inv s" "control (emit e s) = control s"
  "core_inv (fire c f s) = core_inv s" "control (fire c f s) = control s"
  "m_peers (emit e s) = m_peers s" "m_peers (fire c f s) = m_peers s"
  "live (emit e s) = live s" "live (fire c f s) = live s"
  by (simp_all add: emit_def fire_def live_def split: option.splits)

lemma controlD:
  assumes "control s' = control s"
  shows "m_owner s' = m_owner s" "m_listener s' = m_listener s" "m_callbacks s' = m_callbacks s"
    "m_connectThread s' = m_connectThread s" "m_potential_peers s' = m_potential_peers s"
    "m_sendThread s' = m_sendThread s" "m_listenThread s' = m_listenThread s"
    "m_createNewSocketFunction s' = m_createNewSocketFunction s"
    "m_destructor_called s' = m_destructor_called s"
    "m_connect_thread_running s' = m_connect_thread_running s"
    "m_send_thread_running s' = m_send_thread_running s"
    "m_listen_thread_running s' = m_listen_thread_running s"
  using assms by (simp_all add: control_def)

lemma update_peer_core:
  assumes "\<And>pp. m_socket (f pp) = m_socket pp" and "\<And>pp. m_connection_id (f pp) = m_connection_id pp"
    and "\<And>pp. m_valid (f pp) = m_valid pp"
  shows "core_inv (update_peer k f s) = core_inv s"
proof -
  have *: "peer_sockets (AList.map_entry k f ps) = peer_sockets ps \<and>
      (peers_inv (AList.map_entry k f ps) = peers_inv ps)" for ps
  proof (induction ps)
    case Nil
    then show ?case by simp
  next
    case (Cons p ps)
    then show ?case by (cases p) (auto simp: peers_inv_def assms)
  qed
  show ?thesis
    using * [of "m_peers s"]
    by (simp add: core_inv_def own_inv_def owned_def update_peer_def heap_ok_def live_def)
qed

lemma core_scheduleDelete [simp]: "core_inv (update_peer k (scheduleDelete dt) s) = core_inv s"
  by (rule update_peer_core) simp_all

lemma core_setErrorMessage [simp]: "core_inv (update_peer k (setErrorMessage e) s) = core_inv s"
  by (rule update_peer_core) simp_all

lemma control_update_peer [simp]: "control (update_peer k f s) = control s"
  by (simp add: update_peer_def)

lemma keys_update_peer [simp]: "keys_of (m_peers (update_peer k f s)) = keys_of (m_peers s)"
  by (simp add: update_peer_def)

section \<open>Ownership\<close>

lemma owned_live: "core_inv s \<Longrightarrow> p \<in> set (owned s) \<Longrightarrow> \<exists>a. p = Some a \<and> a \<in> live s"
  by (auto simp: core_inv_def own_inv_def)

lemma listener_live:
  "core_inv s \<Longrightarrow> m_owner s \<noteq> O_Destroyed \<Longrightarrow> \<exists>a. m_listener s = Some a \<and> a \<in> live s"
  by (rule owned_live) (auto simp: owned_def listener_of_def)

lemma peer_socket_mem: "map_of ps k = Some pp \<Longrightarrow> m_socket pp \<in> set (peer_sockets ps)"
  by (force dest: map_of_SomeD)

lemma peer_live:
  "core_inv s \<Longrightarrow> map_of (m_peers s) k = Some pp \<Longrightarrow> \<exists>a. m_socket pp = Some a \<and> a \<in> live s"
  by (rule owned_live) (auto simp: owned_def dest: peer_socket_mem)

lemma connecting_live:
  "core_inv s \<Longrightarrow> Some a \<in> set (connecting (m_connectThread s)) \<Longrightarrow> a \<in> live s"
  using owned_live [of s "Some a"] by (auto simp: owned_def)

lemma peer_update_live: "live (update_peer k f s) = live s"
  by (simp add: update_peer_def live_def)

text \<open>\<open>keeps s s'\<close>: a piece of a thread that ran from \<open>s\<close> to \<open>s'\<close> kept the core invariant and its frame.\<close>

definition keeps :: "('s, 'w) node \<Rightarrow> ('s, 'w) node \<Rightarrow> bool" where
  "keeps s s' \<longleftrightarrow> core_inv s' \<and> control s' = control s"

lemma keeps_refl [simp]: "keeps s s = core_inv s"
  by (simp add: keeps_def)

lemma keeps_trans: "keeps s s' \<Longrightarrow> keeps s' s'' \<Longrightarrow> keeps s s''"
  by (simp add: keeps_def)

text \<open>\<open>same s s'\<close>: moreover no socket was created or deleted, and the peer table is the same.\<close>

definition same :: "('s, 'w) node \<Rightarrow> ('s, 'w) node \<Rightarrow> bool" where
  "same s s' \<longleftrightarrow> keeps s s' \<and> live s' = live s \<and> m_peers s' = m_peers s"

lemma same_refl [simp]: "same s s = core_inv s"
  by (simp add: same_def)

lemma same_trans: "same s s' \<Longrightarrow> same s' s'' \<Longrightarrow> same s s''"
  by (auto simp: same_def keeps_def)

lemma same_keeps: "same s s' \<Longrightarrow> keeps s s'"
  by (simp add: same_def)

lemma keepsD:
  assumes "keeps s s'"
  shows "core_inv s'" "m_owner s' = m_owner s" "m_listener s' = m_listener s"
    "m_callbacks s' = m_callbacks s" "m_connectThread s' = m_connectThread s"
    "control s' = control s"
  using assms by (auto simp: keeps_def dest: controlD)

lemmas sameD = keepsD [OF same_keeps]

lemma same_updates [simp]:
  "same s (s'\<lparr>events := e\<rparr>) = same s s'"
  "same s (s'\<lparr>world := w\<rparr>) = same s s'"
  "same s (s'\<lparr>m_listening_enabled := b\<rparr>) = same s s'"
  "same s (s'\<lparr>m_listener_available := b\<rparr>) = same s s'"
  "same s (s'\<lparr>m_changing_listener := b\<rparr>) = same s s'"
  "same s (s'\<lparr>m_connection_counter := c\<rparr>) = same s s'"
  "same s (s'\<lparr>m_data_to_send := d\<rparr>) = same s s'"
  by (simp_all add: same_def keeps_def live_def)

lemma same_emit [simp]: "same s (emit e s') = same s s'" "same s (fire c f s') = same s s'"
  by (simp_all add: same_def keeps_def)

lemma call_same:
  assumes "core_inv s" and "p = Some a" and "a \<in> live s"
  shows "ensures (call p f s) (\<lambda>(x, s'). same s s')"
  using assms by (auto intro!: ensures_call [where a = a] simp: same_def keeps_def)

lemma call_local_same:
  assumes "core_inv s" and "p = Some a" and "a \<in> live s"
  shows "ensures (call_local p f s) (\<lambda>(x, s'). same s s')"
  unfolding call_local_def by (rule call_same [OF assms])

lemma call_read_any: "p = Some a \<Longrightarrow> a \<in> live s \<Longrightarrow> ensures (call_read p f s) (\<lambda>x. True)"
  by (auto intro: ensures_call_read)

section \<open>The pieces of the threads\<close>

lemma createErrorMessage_ok:
  assumes core: "core_inv s" and sock: "\<And>a. sock = Some a \<Longrightarrow> a \<in> live s"
  shows "ensures (createErrorMessage V h b sock s) (\<lambda>(m, s'). same s s')"
proof (cases sock)
  case None
  with core show ?thesis by (simp add: createErrorMessage_def)
next
  case (Some a)
  have again: "ensures (call_local (Some a) f s1) (\<lambda>(x, s'). same s s')" if "same s s1" for f s1
  proof -
    have "ensures (call_local (Some a) f s1) (\<lambda>(x, s'). same s1 s')"
      using that sock [OF Some] by (intro call_local_same [OF sameD(1)]) (auto simp: same_def)
    then show ?thesis by (rule ensures_mono) (auto intro: same_trans [OF that])
  qed
  show ?thesis
    unfolding createErrorMessage_def using Some core
    by (auto simp: Let_def intro!: ensures_mono [OF again])
qed

text \<open>An error report on a socket that is live, or on none.\<close>

lemma report_ok:
  assumes "same s s1" and "\<And>a. sock = Some a \<Longrightarrow> a \<in> live s"
  shows "ensures (createErrorMessage V h b sock s1) (\<lambda>(m, s'). same s s')"
proof -
  have "ensures (createErrorMessage V h b sock s1) (\<lambda>(m, s'). same s1 s')"
    using assms by (intro createErrorMessage_ok) (auto simp: same_def keeps_def)
  then show ?thesis by (rule ensures_mono) (auto intro: same_trans [OF assms(1)])
qed

lemma call_ok:
  assumes "same s s1" and "p = Some a" and "a \<in> live s"
  shows "ensures (call p f s1) (\<lambda>(x, s'). same s s')"
proof -
  have "ensures (call p f s1) (\<lambda>(x, s'). same s1 s')"
    using assms by (intro call_same [where a = a]) (auto simp: same_def keeps_def)
  then show ?thesis by (rule ensures_mono) (auto intro: same_trans [OF assms(1)])
qed

lemma call_read_ok:
  "same s s1 \<Longrightarrow> p = Some a \<Longrightarrow> a \<in> live s \<Longrightarrow> ensures (call_read p f s1) (\<lambda>x. True)"
  by (rule call_read_any) (auto simp: same_def)

lemmas piece_intros = ensures_mono [OF call_ok] ensures_mono [OF call_read_ok]
  ensures_mono [OF report_ok]

lemma start_listening_ok:
  assumes core: "core_inv s" and own: "m_owner s \<noteq> O_Destroyed"
  shows "ensures (start_listening V s) (same s)"
proof -
  obtain a where a: "m_listener s = Some a" "a \<in> live s" using listener_live [OF core own] by blast
  show ?thesis
    unfolding start_listening_def
  proof (rule ensures_bindI2 [OF call_same [OF core a]], goal_cases)
    case (1 ok s1)
    note l = sameD(3) [OF 1] a
    show ?case
      by (cases ok) (use 1 l in \<open>auto simp: Let_def split: option.split
        intro!: piece_intros [where s = s]\<close>)
  qed
qed

lemma stop_listening_ok:
  assumes core: "core_inv s" and own: "m_owner s \<noteq> O_Destroyed"
  shows "ensures (stop_listening V s) (\<lambda>(c, s'). same s s')"
proof -
  obtain a where a: "m_listener s = Some a" "a \<in> live s" using listener_live [OF core own] by blast
  show ?thesis
    unfolding stop_listening_def
    by (rule ensures_bindI2 [OF call_same [OF core a]]) (simp add: Let_def)
qed

text \<open>The peer object made for a new connection.\<close>

lemma query_address_defined:
  assumes "names_defined V"
  shows "query_address V ord so w \<noteq> None"
proof -
  have "\<exists>x w1. vpeerIpAddress V so w = Some (x, w1)" "\<exists>x w1. vpeerPort V so w = Some (x, w1)"
    "\<exists>x w1. vpeerName V so w = Some (x, w1)" for w
    using assms unfolding names_defined_def by fastforce+
  then show ?thesis
    unfolding query_address_def by (cases ord; simp add: bind_eq_Some_conv; metis)
qed

lemma make_peer_ok:
  assumes "names_defined V" and "a \<in> live s"
  shows "ensures (make_peer V a c s)
    (\<lambda>(pp, s'). m_connection_id pp = c \<and> m_valid pp \<and> m_socket pp = Some a \<and>
       \<not> m_to_be_deleted pp \<and> (\<exists>w. s' = s\<lparr>world := w\<rparr>))"
  using assms query_address_defined [OF assms(1)] unfolding make_peer_def
  by (auto intro!: ensures_call_query [where a = a]
      simp: Let_def PeerPrivate_set_def setSocket_def setValid_def PeerPrivate_new_def; blast)

text \<open>Filing a peer whose socket is live and not owned yet.\<close>

lemma insert_peer_core:
  assumes core: "core_inv s" and new: "a \<in> live s" "Some a \<notin> set (owned s)"
    and pp: "m_connection_id pp = k" "m_valid pp" "m_socket pp = Some a"
  shows "core_inv (s\<lparr>m_peers := umap_insert k pp (m_peers s)\<rparr>)"
proof (cases "map_of (m_peers s) k")
  case (Some x)
  then have "s\<lparr>m_peers := umap_insert k pp (m_peers s)\<rparr> = s" by (simp add: umap_insert_def)
  with core show ?thesis by simp
next
  case None
  then have k: "k \<notin> fst ` set (m_peers s)" by (simp add: map_of_eq_None_iff)
  let ?s = "s\<lparr>m_peers := (k, pp) # m_peers s\<rparr>"
  have mid: "distinct (A @ B @ x # C) \<longleftrightarrow> distinct (A @ B @ C) \<and> x \<notin> set (A @ B @ C)"
    for A B C :: "ptr list" and x by auto
  have own: "owned ?s = listener_of (m_owner s) (m_listener s) @
      connecting (m_connectThread s) @ Some a # peer_sockets (m_peers s)"
    by (simp add: owned_def pp)
  have "distinct (owned ?s)"
    using core new(2) unfolding own mid by (simp add: core_inv_def own_inv_def owned_def)
  moreover have "set (owned ?s) \<subseteq> insert (Some a) (set (owned s))"
    unfolding own by (auto simp: owned_def)
  ultimately have "own_inv ?s"
    using core new(1) by (auto simp: core_inv_def own_inv_def heap_ok_def live_def)
  moreover have "peers_inv ((k, pp) # m_peers s)"
    using core k pp by (auto simp: core_inv_def peers_inv_def)
  ultimately show ?thesis using k by (simp add: core_inv_def)
qed

lemma new_object_core:
  assumes core: "core_inv s" and new: "new_object so s = (a, s')"
  shows "core_inv s'" "a \<in> live s'" "Some a \<notin> set (owned s')" "control s' = control s"
    "m_peers s' = m_peers s" "owned s' = owned s"
proof -
  have ok: "heap_ok s" using core by (simp add: core_inv_def own_inv_def)
  show same: "owned s' = owned s" "m_peers s' = m_peers s" "control s' = control s"
    using new by (auto simp: new_object_def owned_def control_def)
  have live: "live s' = insert a (live s)" "a \<notin> live s" "heap_ok s'"
    using live_new_object [OF new] new_object_fresh [OF ok new] heap_ok_new_object [OF ok new] by auto
  then show "core_inv s'" "a \<in> live s'" "Some a \<notin> set (owned s')"
    using core same by (auto simp: core_inv_def own_inv_def)
qed

text \<open>The registration both threads do for a new connection.\<close>

lemma register_ok:
  assumes core: "core_inv s" and new: "a \<in> live s" "Some a \<notin> set (owned s)"
    and V: "names_defined V"
  shows "ensures (make_peer V a c s) (\<lambda>(pp, s').
      keeps s (s'\<lparr>m_peers := umap_insert c pp (m_peers s')\<rparr>) \<and>
      m_connection_id pp = c \<and> \<not> m_to_be_deleted pp \<and> (\<exists>w. s' = s\<lparr>world := w\<rparr>))"
proof -
  have "keeps s (s\<lparr>world := w, m_peers := umap_insert c pp (m_peers s)\<rparr>)"
    if pp: "m_connection_id pp = c" "m_valid pp" "m_socket pp = Some a" for pp w
  proof -
    let ?s = "s\<lparr>world := w\<rparr>"
    have "core_inv (?s\<lparr>m_peers := umap_insert c pp (m_peers ?s)\<rparr>)"
      by (rule insert_peer_core [where a = a]) (use core new pp in \<open>simp_all add: owned_def\<close>)
    then show ?thesis by (simp add: keeps_def)
  qed
  then show ?thesis by (intro ensures_mono [OF make_peer_ok [OF V new(1)]]) auto
qed

lemma accepted_new_ok:
  assumes core: "core_inv s" and V: "names_defined V"
  shows "ensures (accepted_new V so s) (keeps s)"
proof -
  obtain a s2 where n: "new_object so s = (a, s2)" by fastforce
  note s2 = new_object_core [OF core n]
  let ?c = "m_connection_counter s2 + 1"
  let ?s = "s2\<lparr>m_connection_counter := ?c\<rparr>"
  have new: "core_inv ?s" "a \<in> live ?s" "Some a \<notin> set (owned ?s)" "control ?s = control s"
    using s2 by (simp_all add: live_def owned_def)
  show ?thesis
    unfolding accepted_new_def n Let_def prod.case
    by (rule ensures_bindI2 [OF ensures_mono [OF register_ok [OF new(1-3) V]]])
      (use new(4) in \<open>auto simp: keeps_def\<close>)
qed

lemma accepted_none_ok:
  assumes core: "core_inv s" and l: "m_listener s = Some l" "l \<in> live s"
  shows "ensures (accepted_none V s) (same s)"
  unfolding accepted_none_def
proof (rule ensures_bindI2 [OF call_local_same [OF core l]], goal_cases)
  case (1 e s1)
  then show ?case
    using sameD(3) [OF 1] l by (auto split: option.split intro!: piece_intros [where s = s])
qed

lemma accept_peer_ok:
  assumes core: "core_inv s" and own: "m_owner s \<noteq> O_Destroyed" and V: "names_defined V"
  shows "ensures (accept_peer V s) (keeps s)"
proof -
  obtain l where l: "m_listener s = Some l" "l \<in> live s" using listener_live [OF core own] by blast
  have "ensures (case acc of Some so \<Rightarrow> accepted_new V so s1 | None \<Rightarrow> accepted_none V s1) (keeps s)"
    if s1: "same s s1" for acc s1
  proof -
    have "ensures (case acc of Some so \<Rightarrow> accepted_new V so s1 | None \<Rightarrow> accepted_none V s1)
        (keeps s1)"
      using accepted_new_ok [OF sameD(1) [OF s1] V]
        accepted_none_ok [OF sameD(1) [OF s1], of l V] sameD(3) [OF s1] s1 l
      by (auto split: option.split simp: same_def elim: ensures_mono)
    then show ?thesis by (rule ensures_mono) (rule keeps_trans [OF same_keeps [OF s1]])
  qed
  then have "ensures (call (m_listener s) (vaccept V) s \<bind> (\<lambda>(accepted, s).
      case accepted of Some so \<Rightarrow> accepted_new V so s | None \<Rightarrow> accepted_none V s)) (keeps s)"
    by (intro ensures_bindI2 [OF call_same [OF core l]]) simp
  with core show ?thesis
    unfolding accept_peer_def
    by (auto intro!: ensures_mono [OF call_read_any [OF l]])
qed

text \<open>The receive loop: the keys of the table stay, so every iterator of the loop is valid.\<close>

definition keeps_keys :: "('s, 'w) node \<Rightarrow> ('s, 'w) node \<Rightarrow> bool" where
  "keeps_keys s s' \<longleftrightarrow> keeps s s' \<and> keys_of (m_peers s') = keys_of (m_peers s)"

lemma keeps_keys_refl [simp]: "keeps_keys s s = core_inv s"
  by (simp add: keeps_keys_def)

lemma keeps_keys_trans: "keeps_keys s s' \<Longrightarrow> keeps_keys s' s'' \<Longrightarrow> keeps_keys s s''"
  by (auto simp: keeps_keys_def intro: keeps_trans)

lemma same_keeps_keys: "same s s' \<Longrightarrow> keeps_keys s s'"
  by (simp add: same_def keeps_keys_def)

lemma keeps_keys_updates [simp]:
  "keeps_keys s (update_peer k (scheduleDelete dt) s') = keeps_keys s s'"
  "keeps_keys s (update_peer k (setErrorMessage e) s') = keeps_keys s s'"
  by (simp_all add: keeps_keys_def keeps_def)

lemma fail_peer_ok:
  assumes s1: "same s s1" and sock: "\<And>a. sock = Some a \<Longrightarrow> a \<in> live s"
  shows "ensures (fail_peer V k body sock s1) (keeps_keys s)"
proof -
  let ?s = "update_peer k (scheduleDelete PEER_WAS_DISCONNECTED_DUE_TO_ERROR) s1"
  have 1: "keeps_keys s ?s" "live ?s = live s"
    using s1 by (simp_all add: same_keeps_keys peer_update_live) (simp add: same_def)
  then have "core_inv ?s" by (simp add: keeps_keys_def keeps_def)
  then have "ensures (createErrorMessage V ''Receive Error'' body sock ?s)
      (\<lambda>(m, s'). same ?s s')"
    by (rule createErrorMessage_ok) (use sock 1(2) in simp)
  then show ?thesis
    unfolding fail_peer_def Let_def
    by (rule ensures_bindI2) (simp add: keeps_keys_trans [OF 1(1) same_keeps_keys])
qed

lemma receive_peer_ok:
  assumes core: "core_inv s" and k: "k \<in> set (keys_of (m_peers s))"
  shows "ensures (receive_peer V k s) (keeps_keys s)"
proof -
  from k obtain pp where pp: "map_of (m_peers s) k = Some pp"
    by (auto dest!: weak_map_of_SomeI)
  obtain a where a: "m_socket pp = Some a" "a \<in> live s" using peer_live [OF core pp] by blast
  have body: "ensures (case res of
       RR_OK \<Rightarrow> Some (fire (m_callbackReceived (m_callbacks s1)) (\<lambda>c. Received c pp dat) s1)
     | ERROR_NO_CONNECTION \<Rightarrow> fail_peer V k ''Socket is not connected.'' None s1
     | ERROR_IS_LISTENER \<Rightarrow> fail_peer V k ''Socket is a listener.'' None s1
     | ERROR_PEER_DISCONNECTED \<Rightarrow> Some (update_peer k (scheduleDelete PEER_DISCONNECTED_THEMSELF) s1)
     | ERROR_SYSTEM \<Rightarrow> fail_peer V k ''Failed to receive.'' (Some a) s1
     | ERROR_NOTHING_RECEIVED \<Rightarrow> Some s1) (keeps_keys s)"
    if s1: "same s s1" for res dat s1
    using s1 a(2) by (cases res) (auto intro!: fail_peer_ok simp: same_keeps_keys)
  have "ensures (call (Some a) (vreceive V []) s \<bind> (\<lambda>((res, dat), s1). case res of
       RR_OK \<Rightarrow> Some (fire (m_callbackReceived (m_callbacks s1)) (\<lambda>c. Received c pp dat) s1)
     | ERROR_NO_CONNECTION \<Rightarrow> fail_peer V k ''Socket is not connected.'' None s1
     | ERROR_IS_LISTENER \<Rightarrow> fail_peer V k ''Socket is a listener.'' None s1
     | ERROR_PEER_DISCONNECTED \<Rightarrow> Some (update_peer k (scheduleDelete PEER_DISCONNECTED_THEMSELF) s1)
     | ERROR_SYSTEM \<Rightarrow> fail_peer V k ''Failed to receive.'' (Some a) s1
     | ERROR_NOTHING_RECEIVED \<Rightarrow> Some s1)) (keeps_keys s)"
    by (rule ensures_bindI2 [OF call_same [OF core refl a(2)]]) (auto simp: body)
  moreover have "ensures (fail_peer V k ''Socket is not connected.'' None s) (keeps_keys s)"
    by (rule fail_peer_ok) (use core in auto)
  ultimately show ?thesis
    unfolding receive_peer_def pp bind.bind_lunit toBeDeleted_def getSocket_def a(1) using a core
    by (auto simp: Let_def intro!: ensures_mono [OF call_read_any])
qed

lemma receive_loop_ok:
  "core_inv s \<Longrightarrow> set ks \<subseteq> set (keys_of (m_peers s)) \<Longrightarrow>
     ensures (receive_loop V ks s) (keeps_keys s)"
proof (induction ks arbitrary: s)
  case (Cons k ks)
  then have "ensures (receive_peer V k s) (keeps_keys s)" by (intro receive_peer_ok) auto
  then show ?case
  proof (simp only: receive_loop.simps, elim ensures_bindI)
    fix s1 assume s1: "keeps_keys s s1"
    then have "set (keys_of (m_peers s1)) = set (keys_of (m_peers s))"
      by (simp only: keeps_keys_def)
    with Cons s1 have "ensures (receive_loop V ks s1) (keeps_keys s1)"
      by (intro Cons.IH) (auto simp: keeps_keys_def keeps_def)
    then show "ensures (receive_loop V ks s1) (keeps_keys s)"
      by (rule ensures_mono) (rule keeps_keys_trans [OF s1])
  qed
qed simp

text \<open>Deleting: the socket of the entry dies together with the entry.\<close>

lemma remove_owned:
  assumes "distinct (A @ Some a # B)" and "set (A @ Some a # B) \<subseteq> Some ` L"
  shows "distinct (A @ B) \<and> set (A @ B) \<subseteq> Some ` (L - {a})"
  using assms by auto

lemma delete_split:
  assumes "distinct (keys_of (xs @ (k, v) # ys))"
  shows "AList.delete k (xs @ (k, v) # ys) = xs @ ys"
proof -
  have "k \<notin> fst ` set xs" "k \<notin> fst ` set ys" using assms by auto
  moreover have "filter (\<lambda>(k', _). k \<noteq> k') zs = zs" if "k \<notin> fst ` set zs" for zs :: "('a \<times> 'b) list"
    using that by (force simp: filter_id_conv)
  ultimately show ?thesis by (simp add: AList.delete_eq)
qed

lemma delete_peer_core:
  assumes core: "core_inv s" and k: "(k, pp) \<in> set (m_peers s)" and a: "m_socket pp = Some a"
  shows "core_inv (s\<lparr>objects := (objects s)(a := None), world := w,
                     m_peers := AList.delete k (m_peers s)\<rparr>)"
proof -
  from k obtain xs ys where ps: "m_peers s = xs @ (k, pp) # ys" by (auto dest: split_list)
  have pinv: "peers_inv (xs @ (k, pp) # ys)" using core ps by (simp add: core_inv_def)
  then have del: "AList.delete k (m_peers s) = xs @ ys"
    unfolding ps by (intro delete_split) (simp add: peers_inv_def)
  let ?s = "s\<lparr>objects := (objects s)(a := None), world := w, m_peers := xs @ ys\<rparr>"
  let ?A = "(listener_of (m_owner s) (m_listener s) @ connecting (m_connectThread s)) @
      peer_sockets xs"
  have "owned s = ?A @ Some a # peer_sockets ys" by (simp add: owned_def ps a)
  then have "distinct (?A @ peer_sockets ys) \<and> set (?A @ peer_sockets ys) \<subseteq> Some ` (live s - {a})"
    using core by (intro remove_owned) (simp_all only: core_inv_def own_inv_def)
  moreover have "owned ?s = ?A @ peer_sockets ys" by (simp add: owned_def)
  moreover have "live ?s = live s - {a}" by (auto simp: live_def)
  moreover have "heap_ok ?s" using core by (auto simp: core_inv_def own_inv_def heap_ok_def live_def)
  ultimately have "own_inv ?s" by (simp only: own_inv_def)
  moreover have "peers_inv (xs @ ys)" using pinv by (auto simp: peers_inv_def)
  ultimately show ?thesis by (simp add: core_inv_def del)
qed

lemma next_scheduled_mem:
  "next_scheduled ps = Some (k, pp) \<Longrightarrow> (k, pp) \<in> set ps \<and> m_to_be_deleted pp"
  unfolding next_scheduled_def toBeDeleted_def find_Some_iff by (metis (mono_tags, lifting) nth_mem case_prodD)

lemma notify_closed_frame [simp]:
  "core_inv (notify_closed temp s) = core_inv s" "control (notify_closed temp s) = control s"
  "m_peers (notify_closed temp s) = m_peers s" "live (notify_closed temp s) = live s"
  by (simp_all add: notify_closed_def Let_def)

lemma delete_next_ok:
  assumes core: "core_inv s"
  shows "ensures (delete_next V s) (\<lambda>s'. keeps s s' \<and>
    m_peers s' = (case next_scheduled (m_peers s) of None \<Rightarrow> m_peers s
                  | Some (k, pp) \<Rightarrow> AList.delete k (m_peers s)))"
proof (cases "next_scheduled (m_peers s)")
  case None
  with core show ?thesis by (simp add: delete_next_def)
next
  case (Some p)
  obtain k pp where p: "p = (k, pp)" by (cases p)
  have mem: "(k, pp) \<in> set (m_peers s)" using next_scheduled_mem Some p by blast
  have "map_of (m_peers s) k = Some pp" 
    using core mem by (simp add: core_inv_def peers_inv_def)
  then obtain a where a: "m_socket pp = Some a" "a \<in> live s" using peer_live [OF core] by blast
  show ?thesis
    unfolding delete_next_def using delete_peer_core [OF core mem a(1)] Some p
    by (auto intro!: ensures_mono [OF destroySocket_spec [OF a]] simp: Let_def keeps_def)
qed

lemma poll_ok:
  assumes core: "core_inv s" and own: "m_owner s \<noteq> O_Destroyed" and V: "names_defined V"
  shows "ensures (poll V s) (keeps s)"
  unfolding poll_def
proof (rule ensures_bindI [OF accept_peer_ok [OF assms]])
  fix s1 assume s1: "keeps s s1"
  show "ensures (receive_loop V (keys_of (m_peers s1)) s1 \<bind> delete_next V) (keeps s)"
  proof (rule ensures_bindI [OF receive_loop_ok [OF keepsD(1) [OF s1] subset_refl]])
    fix s2 assume "keeps_keys s1 s2"
    then have s2: "keeps s1 s2" by (simp add: keeps_keys_def)
    show "ensures (delete_next V s2) (keeps s)"
      by (rule ensures_mono [OF delete_next_ok [OF keepsD(1) [OF s2]]])
        (use s1 s2 in \<open>auto intro: keeps_trans\<close>)
  qed
qed

section \<open>The connect and the send thread\<close>

text \<open>A change of the connect thread's point that gives up the socket it holds, or keeps it.\<close>

lemma core_connect_pc:
  assumes "core_inv s" and "connecting pc = connecting (m_connectThread s) \<or> connecting pc = []"
  shows "core_inv (s\<lparr>m_connectThread := pc\<rparr>)"
  using assms by (auto simp: core_inv_def own_inv_def owned_def heap_ok_def live_def)

lemma core_connect_take:
  assumes core: "core_inv s" and a: "a \<in> live s" "Some a \<notin> set (owned s)"
    and pc: "connecting (m_connectThread s) = []" "connecting pc = [Some a]"
  shows "core_inv (s\<lparr>m_connectThread := pc\<rparr>)"
  using assms by (auto simp: core_inv_def own_inv_def owned_def heap_ok_def live_def)

lemma connecting_owned:
  assumes core: "core_inv s" and pc: "connecting (m_connectThread s) = [Some a]"
  shows "a \<in> live s" "core_inv (s\<lparr>m_connectThread := C_Loop\<rparr>)"
    "Some a \<notin> set (owned (s\<lparr>m_connectThread := C_Loop\<rparr>))"
proof -
  show "a \<in> live s" using connecting_live [OF core] pc by simp
  show "core_inv (s\<lparr>m_connectThread := C_Loop\<rparr>)" using core by (intro core_connect_pc) simp_all
  have "distinct (owned s)" using core by (simp only: core_inv_def own_inv_def)
  then show "Some a \<notin> set (owned (s\<lparr>m_connectThread := C_Loop\<rparr>))"
    by (simp add: owned_def pc)
qed

lemma core_drop:
  assumes core: "core_inv s" and a: "Some a \<notin> set (owned s)"
  shows "core_inv (s\<lparr>objects := (objects s)(a := None), world := w\<rparr>)"
proof -
  have "set (owned s) \<subseteq> Some ` (live s - {a})"
    using core a by (auto simp: core_inv_def own_inv_def)
  then show ?thesis
    using core by (auto simp: core_inv_def own_inv_def owned_def heap_ok_def live_def)
qed

lemma begin_connect_ok:
  assumes core: "core_inv s" and f: "creates_sockets (m_createNewSocketFunction s)"
    and q: "m_potential_peers s \<noteq> []" and pc: "connecting (m_connectThread s) = []"
  shows "ensures (begin_connect i n s) (\<lambda>s'. core_inv s' \<and>
    (\<exists>s1 a ip port. control s1 = control s \<and> s' = s1\<lparr>m_connectThread := C_Try i n a ip port 0\<rparr>))"
proof -
  obtain so w where fw: "m_createNewSocketFunction s (world s) = (Some so, w)"
    using f unfolding creates_sockets_def by (metis option.exhaust prod.collapse)
  obtain ip port where tgt: "(ip, port) = hd (m_potential_peers s)" by (metis surj_pair)
  obtain a s2 where n: "new_object so (s\<lparr>world := w\<rparr>) = (a, s2)" by fastforce
  have "core_inv (s\<lparr>world := w\<rparr>)" using core by simp
  note s2 = new_object_core [OF this n]
  have ctl: "control s2 = control s" using s2(4) by simp
  have "core_inv (s2\<lparr>m_connectThread := C_Try i n a ip port 0\<rparr>)"
    using s2(1-3) controlD(4) [OF ctl] pc by (intro core_connect_take) auto
  with ctl q tgt controlD(5) [OF ctl] show ?thesis
    unfolding begin_connect_def create_socket_def fw prod.case option.case Let_def n
    by (cases "m_potential_peers s") (auto, blast)
qed

lemma try_connect_ok:
  assumes core: "core_inv s" and pc: "connecting (m_connectThread s) = [Some a]"
  shows "ensures (try_connect V T a ip port e s) (\<lambda>(x, s'). same s s')"
proof -
  have a: "a \<in> live s" using connecting_owned(1) [OF core pc] .
  show ?thesis
    unfolding try_connect_def
    by (rule ensures_bindI2 [OF call_same [OF core refl a]])
      (use a in \<open>auto simp: Let_def call_local_def split: prod.splits
        intro!: ensures_mono [OF call_ok [where s = s]]\<close>)
qed

lemma connect_failed_ok:
  assumes core: "core_inv s" and pc: "connecting (m_connectThread s) = [Some a]"
  shows "ensures (connect_failed V a ip port s) (\<lambda>s'. control s' = control s \<and>
    core_inv (s'\<lparr>m_connectThread := C_Loop\<rparr>))"
proof -
  have a: "a \<in> live s" using connecting_owned(1) [OF core pc] .
  have "ensures (case m_callbackConnectError (m_callbacks s) of
                 None \<Rightarrow> Some s
               | Some c \<Rightarrow>
                   do { (errmsg, s) \<leftarrow> createErrorMessage V ''Connect Error''
                          (''Failed to connect to '' @ ip @ '':'' @ to_string_u16 port) (Some a) s;
                        Some (emit (ConnectError c errmsg) s) }) (same s)"
    using core a by (auto split: option.split intro!: piece_intros [where s = s])
  then show ?thesis
    unfolding connect_failed_def
  proof (rule ensures_bindI)
    fix s1 assume s1: "same s s1"
    then have live: "a \<in> live s1" using a by (simp add: same_def)
    have "connecting (m_connectThread s1) = [Some a]" using sameD(5) [OF s1] pc by simp
    note own = connecting_owned(2,3) [OF sameD(1) [OF s1] this]
    show "ensures (delete_object V (Some a) s1) (\<lambda>s'. control s' = control s \<and>
        core_inv (s'\<lparr>m_connectThread := C_Loop\<rparr>))"
      by (rule ensures_delete_object [OF refl live])
        (use sameD(6) [OF s1] in \<open>simp add: core_cong [OF core_drop [OF own, of undefined]]\<close>)
  qed
qed

lemma connect_done_ok:
  assumes core: "core_inv s" and pc: "connecting (m_connectThread s) = [Some a]"
    and V: "names_defined V"
  shows "ensures (connect_done V a s) (\<lambda>(pr, s'). control s' = control s \<and>
    core_inv (s'\<lparr>m_connectThread := C_Loop\<rparr>))"
proof -
  note own = connecting_owned [OF core pc]
  let ?c = "m_connection_counter s + 1"
  have a: "a \<in> live (s\<lparr>m_connection_counter := ?c\<rparr>)" using own(1) by (simp add: live_def)
  have reg: "core_inv (s\<lparr>m_connectThread := C_Loop, m_peers := umap_insert k pp (m_peers s)\<rparr>)"
    if "m_connection_id pp = k" "m_valid pp" "m_socket pp = Some a" for k pp
    using insert_peer_core [OF own(2) _ own(3) that] own(1) by (simp add: live_def)
  have "control s' = control s \<and> core_inv (s'\<lparr>m_connectThread := C_Loop\<rparr>)"
    if "m_valid pp" "m_socket pp = Some a" "m_connection_id pp = ?c"
      "s' = s\<lparr>m_connection_counter := ?c, world := w, m_peers := umap_insert ?c pp (m_peers s)\<rparr>"
    for s' w pp
  proof -
    have "control s' = control s" by (simp add: that(4))
    moreover have "core_inv (s'\<lparr>m_connectThread := C_Loop\<rparr>)"
      unfolding that(4) by (rule core_cong [OF reg [OF that(3,1,2)]]) simp_all
    ultimately show ?thesis by simp
  qed
  then show ?thesis
    unfolding connect_done_def Let_def
    by (intro ensures_bindI2 [OF make_peer_ok [OF V a]]) (auto simp: emit_def)
qed

end
