(* ===== verification/NodeSteps.thy ===== *)
theory NodeSteps
  imports NodeInv
begin

text \<open>
  The node invariant through whole steps: each step of the three threads, each member function
  the owner may call, and each stage of the destructor ends normally and keeps \<open>node_inv\<close>.
\<close>

section \<open>Thread steps\<close>

lemma node_invD:
  assumes "node_inv s"
  shows "core_inv s" "queue_inv (m_connectThread s) (m_potential_peers s)" "thread_inv s"
    "creates_sockets (m_createNewSocketFunction s)"
  using assms by (simp_all add: node_inv_def)

lemma thread_inv_cong: "control s' = control s \<Longrightarrow> thread_inv s' = thread_inv s"
  by (simp add: control_def thread_inv_def connect_stopped_def send_stopped_def
      listen_stopped_def)

lemma node_inv_keeps:
  assumes "node_inv s" and k: "keeps s s'"
  shows "node_inv s'"
proof -
  have c: "control s' = control s" "core_inv s'" using k by (simp_all add: keeps_def)
  show ?thesis
    using assms(1) controlD(4,5,8) [OF c(1)] thread_inv_cong [OF c(1)] c(2)
    by (simp add: node_inv_def)
qed

text \<open>Moving a thread that has not ended to another of its control points.\<close>

lemma node_inv_listen:
  assumes "node_inv s" and "\<not> listen_stopped s" and "lp \<noteq> L_NoThread"
  shows "node_inv (s\<lparr>m_listenThread := lp\<rparr>)"
  using assms by (auto simp: node_inv_def thread_inv_def listen_stopped_def connect_stopped_def
      send_stopped_def)

lemma node_inv_send:
  assumes "node_inv s" and "\<not> send_stopped s" and "sp \<noteq> S_NoThread"
  shows "node_inv (s\<lparr>m_sendThread := sp\<rparr>)"
  using assms by (auto simp: node_inv_def thread_inv_def listen_stopped_def connect_stopped_def
      send_stopped_def)

lemma node_inv_connect:
  assumes "node_inv s" and "\<not> connect_stopped s" and "cp \<noteq> C_NoThread"
    and "core_inv (s\<lparr>m_connectThread := cp\<rparr>)" and "queue_inv cp (m_potential_peers s)"
  shows "node_inv (s\<lparr>m_connectThread := cp\<rparr>)"
  using assms by (auto simp: node_inv_def thread_inv_def listen_stopped_def connect_stopped_def
      send_stopped_def)

lemma not_destroyed:
  assumes "node_inv s"
  shows "\<not> listen_stopped s \<Longrightarrow> m_owner s \<noteq> O_Destroyed"
    and "\<not> send_stopped s \<Longrightarrow> m_owner s \<noteq> O_Destroyed"
    and "\<not> connect_stopped s \<Longrightarrow> m_owner s \<noteq> O_Destroyed"
  using assms by (auto simp: node_inv_def thread_inv_def)

lemma stopped_keeps:
  assumes "keeps s s'"
  shows "listen_stopped s' = listen_stopped s" "send_stopped s' = send_stopped s"
    "connect_stopped s' = connect_stopped s"
  using controlD(4,6,7) [OF keepsD(6) [OF assms]]
  by (simp_all add: listen_stopped_def send_stopped_def connect_stopped_def)

lemma listen_piece:
  assumes inv: "node_inv s" and run: "\<not> listen_stopped s" and "lp \<noteq> L_NoThread"
    and piece: "ensures m (keeps s)"
  shows "ensures (m \<bind> (\<lambda>s. Some (s\<lparr>m_listenThread := lp\<rparr>))) node_inv"
  using piece
proof (rule ensures_bindI)
  fix s1 assume s1: "keeps s s1"
  show "ensures (Some (s1\<lparr>m_listenThread := lp\<rparr>)) node_inv"
    using node_inv_listen [OF node_inv_keeps [OF inv s1]] stopped_keeps(1) [OF s1] assms(2,3) by simp
qed

lemma send_piece:
  assumes inv: "node_inv s" and run: "\<not> send_stopped s" and "sp \<noteq> S_NoThread"
    and piece: "ensures m (keeps s)"
  shows "ensures (m \<bind> (\<lambda>s. Some (s\<lparr>m_sendThread := sp\<rparr>))) node_inv"
  using piece
proof (rule ensures_bindI)
  fix s1 assume s1: "keeps s s1"
  show "ensures (Some (s1\<lparr>m_sendThread := sp\<rparr>)) node_inv"
    using node_inv_send [OF node_inv_keeps [OF inv s1]] stopped_keeps(2) [OF s1] assms(2,3) by simp
qed

lemma node_inv_wakeup [simp]: "node_inv (s\<lparr>m_wakeup_listen_thread := b\<rparr>) = node_inv s"
  by (simp add: node_inv_def thread_inv_def listen_stopped_def connect_stopped_def
      send_stopped_def)

lemma listenThread_step_ok:
  assumes inv: "node_inv s" and run: "listenThread_enabled s" and V: "names_defined V"
  shows "ensures (listenThread_step V s) node_inv"
proof -
  have stop: "\<not> listen_stopped s"
    using run by (auto simp: listenThread_enabled_def listen_stopped_def)
  note own = not_destroyed(1) [OF inv stop]
  note core = node_invD(1) [OF inv]
  have start: "ensures (start_listening V s) (keeps s)"
    by (rule ensures_mono [OF start_listening_ok [OF core own]], rule same_keeps, assumption)
  have halt: "ensures (do { (c, s) \<leftarrow> stop_listening V s; Some (s\<lparr>m_listenThread := L_Stopped c\<rparr>) })
      node_inv"
  proof -
    have "node_inv (s1\<lparr>m_listenThread := L_Stopped c\<rparr>)" if "same s s1" for c s1
      using node_inv_listen [OF node_inv_keeps [OF inv same_keeps [OF that]]]
        stopped_keeps(1) [OF same_keeps [OF that]] stop by simp
    then show ?thesis by (intro ensures_bindI2 [OF stop_listening_ok [OF core own]]) simp
  qed
  have told: "node_inv ((fire c f s)\<lparr>m_listenThread := L_Wake\<rparr>)" for c f
  proof -
    have k: "keeps s (fire c f s)"
      using core by (auto simp: keeps_def fire_def emit_def split: option.split elim!: core_cong)
    show ?thesis
      using node_inv_listen [OF node_inv_keeps [OF inv k]] stopped_keeps(1) [OF k] stop by simp
  qed
  have "node_inv (s\<lparr>m_wakeup_listen_thread := False, m_listenThread := L_Pause\<rparr>)"
    by (rule node_inv_listen) (use inv stop in \<open>simp_all add: listen_stopped_def\<close>)
  then show ?thesis
    unfolding listenThread_step_def
    using node_inv_listen [OF inv stop] listen_piece [OF inv stop] start halt told poll_ok [OF core own V] inv
    by (auto split: listen_pc.split simp del: ensures_bind)
qed

lemma keeps_data [simp]: "keeps s (s'\<lparr>m_data_to_send := d\<rparr>) = keeps s s'"
  by (simp add: keeps_def)

lemma send_peer_ok:
  assumes core: "core_inv s" and pp: "map_of (m_peers s) k = Some pp"
  shows "ensures
    (do { (bytes_sent, s) \<leftarrow> call (m_socket pp) (vsend V dat) s;
          if bytes_sent > 0
          then Some (fire (m_callbackSent (m_callbacks s)) (\<lambda>c. Sent c pp bytes_sent) s)
          else if m_callbackSendError (m_callbacks s) \<noteq> None
          then do { (errmsg, s) \<leftarrow> createErrorMessage V ''Send Error'' ''Sending Failed''
                      (m_socket pp) s;
                    let s = update_peer k (setErrorMessage errmsg) s;
                    Some (update_peer k (scheduleDelete PEER_WAS_DISCONNECTED_DUE_TO_ERROR) s) }
          else Some s }) (keeps_keys s)"
proof -
  obtain a where a: "m_socket pp = Some a" "a \<in> live s" using peer_live [OF core pp] by blast
  show ?thesis
    by (rule ensures_bindI2 [OF call_same [OF core a]])
      (use a in \<open>auto simp: same_keeps_keys Let_def intro!: ensures_mono [OF report_ok [where s = s]]\<close>)
qed

lemma send_front_ok:
  assumes core: "core_inv s"
  shows "ensures (send_front V s) (keeps s)"
proof (cases "m_data_to_send s")
  case Nil
  with core show ?thesis by (simp add: send_front_def)
next
  case (Cons d rest)
  obtain k dat where d: "d = (k, dat)" by (cases d)
  show ?thesis
  proof (cases "map_of (m_peers s) k")
    case None
    then show ?thesis
      unfolding send_front_def Cons d
      by (auto split: option.split simp: core same_keeps
          intro!: ensures_mono [OF report_ok [where s = s]])
  next
    case (Some pp)
    show ?thesis
      unfolding send_front_def toBeDeleted_def getSocket_def Cons d list.case prod.case Some option.case
      by (rule ensures_bindI [where P = "keeps_keys s"])
        (use send_peer_ok [OF core Some] core in \<open>simp_all add: keeps_keys_def\<close>)
  qed
qed

lemma sendThread_step_ok:
  assumes inv: "node_inv s" and run: "sendThread_enabled s"
  shows "ensures (sendThread_step V s) node_inv"
proof -
  have stop: "\<not> send_stopped s"
    using run by (auto simp: sendThread_enabled_def send_stopped_def)
  have "ensures (send_front V s \<bind> (\<lambda>s. Some (s\<lparr>m_sendThread := S_Loop\<rparr>))) node_inv"
    by (rule send_piece [OF inv stop _ send_front_ok [OF node_invD(1) [OF inv]]]) simp
  then show ?thesis
    unfolding sendThread_step_def using node_inv_send [OF inv stop] inv
    by (auto split: send_pc.split simp del: ensures_bind)
qed

text \<open>The connect thread: its piece from a point that holds a socket to one that does not.\<close>

lemma connect_release:
  assumes inv: "node_inv s" and run: "\<not> connect_stopped s" and cp: "connecting cp = []"
    and "cp \<noteq> C_NoThread" and q: "queue_inv cp (m_potential_peers s)"
    and s1: "control s1 = control s \<and> core_inv (s1\<lparr>m_connectThread := C_Loop\<rparr>)"
  shows "node_inv (s1\<lparr>m_connectThread := cp\<rparr>)"
proof -
  have c: "control s1 = control s" using s1 by simp
  have "core_inv (s1\<lparr>m_connectThread := C_Loop, m_connectThread := cp\<rparr>)"
    using core_connect_pc [of "s1\<lparr>m_connectThread := C_Loop\<rparr>" cp] s1 cp by simp
  then have "core_inv (s1\<lparr>m_connectThread := cp\<rparr>)" by simp
  moreover have "thread_inv (s1\<lparr>m_connectThread := cp\<rparr>)"
    using thread_inv_cong [OF c] controlD(1) [OF c] controlD(4) [OF c] controlD(10) [OF c] assms
      node_invD(3) [OF inv]
    by (auto simp: thread_inv_def connect_stopped_def send_stopped_def listen_stopped_def)
  ultimately show ?thesis
    using q controlD(5) [OF c] controlD(8) [OF c] node_invD(4) [OF inv] by (simp add: node_inv_def)
qed

lemma begin_step_ok:
  assumes inv: "node_inv s" and run: "\<not> connect_stopped s"
    and pc: "m_connectThread s = C_For i n" and i: "i < n"
  shows "ensures (begin_connect i n s) node_inv"
proof -
  have q: "n \<le> length (m_potential_peers s)" using node_invD(2) [OF inv] pc by simp
  have "ensures (begin_connect i n s) (\<lambda>s'. core_inv s' \<and>
    (\<exists>s1 a ip port. control s1 = control s \<and> s' = s1\<lparr>m_connectThread := C_Try i n a ip port 0\<rparr>))"
    using begin_connect_ok [OF node_invD(1) [OF inv] node_invD(4) [OF inv]] q i pc by fastforce
  then show ?thesis
  proof (rule ensures_mono, elim conjE exE)
    fix s' s1 a ip port
    assume core: "core_inv s'" and c: "control s1 = control s"
      and s': "s' = s1\<lparr>m_connectThread := C_Try i n a ip port 0\<rparr>"
    have "thread_inv s'"
      using thread_inv_cong [OF c] controlD(4) [OF c] pc node_invD(3) [OF inv]
      unfolding s' by (auto simp: thread_inv_def connect_stopped_def send_stopped_def listen_stopped_def)
    then show "node_inv s'"
      using core controlD(5) [OF c] controlD(8) [OF c] node_invD(4) [OF inv] q i
      by (simp add: node_inv_def s')
  qed
qed

lemma try_step_ok:
  assumes inv: "node_inv s" and run: "\<not> connect_stopped s"
    and pc: "m_connectThread s = C_Try i n a ip port elapsed"
    and np: "\<And>e b c. connecting (np e b c) = [Some a] \<and>
      (queue_inv (C_Try i n a ip port elapsed) q \<longrightarrow> queue_inv (np e b c) q)"
    and q: "q = m_potential_peers s"
  shows "ensures (do { ((ok, elapsed, again), s) \<leftarrow> try_connect V T a ip port elapsed s;
           Some (s\<lparr>m_connectThread := np ok elapsed again\<rparr>) }) node_inv"
proof (rule ensures_bindI [OF try_connect_ok [OF node_invD(1) [OF inv]]])
  show "connecting (m_connectThread s) = [Some a]" by (simp add: pc)
  fix x :: "(bool \<times> int \<times> bool) \<times> ('a, 'b) node"
  assume x: "case x of (y, s') \<Rightarrow> same s s'"
  obtain ok e again s1 where [simp]: "x = ((ok, e, again), s1)" by (cases x) auto
  have s1: "keeps s s1" using x by (simp add: same_def)
  have pc1: "m_connectThread s1 = C_Try i n a ip port elapsed" "m_potential_peers s1 = q"
    using controlD(4,5) [OF keepsD(6) [OF s1]] pc q by simp_all
  have "node_inv (s1\<lparr>m_connectThread := np ok e again\<rparr>)"
  proof (rule node_inv_connect [OF node_inv_keeps [OF inv s1]])
    show "core_inv (s1\<lparr>m_connectThread := np ok e again\<rparr>)"
      using keepsD(1) [OF s1] np pc1 by (intro core_connect_pc) simp_all
    show "queue_inv (np ok e again) (m_potential_peers s1)"
      using np [of ok e again] node_invD(2) [OF inv] pc pc1 q by simp
    show "np ok e again \<noteq> C_NoThread" using np [of ok e again] by auto
  qed (simp add: connect_stopped_def pc1)
  then show "ensures (case x of (y, s') \<Rightarrow> (case y of (ok, elapsed, again) \<Rightarrow> \<lambda>s.
      Some (s\<lparr>m_connectThread := np ok elapsed again\<rparr>)) s') node_inv" by simp
qed

lemma connect_pop_ok:
  assumes inv: "node_inv s" and pc: "m_connectThread s = C_Pop"
  shows "ensures (do { s \<leftarrow> pop_potential_peer s; Some (s\<lparr>m_connectThread := C_Loop\<rparr>) }) node_inv"
proof (cases "m_potential_peers s")
  case Nil
  then show ?thesis using node_invD(2) [OF inv] pc by simp
next
  case (Cons p q)
  have "node_inv (s\<lparr>m_connectThread := C_Loop\<rparr>)"
    by (rule node_inv_connect [OF inv])
      (auto simp: connect_stopped_def pc intro!: core_connect_pc node_invD(1) [OF inv])
  moreover have "core_inv (s\<lparr>m_potential_peers := q, m_connectThread := C_Loop\<rparr>)"
    by (rule core_cong [OF node_invD(1) [OF calculation]]) simp_all
  ultimately have "node_inv (s\<lparr>m_potential_peers := q, m_connectThread := C_Loop\<rparr>)"
    by (simp add: node_inv_def thread_inv_def connect_stopped_def send_stopped_def
        listen_stopped_def)
  then show ?thesis by (simp add: pop_potential_peer_def Cons)
qed

lemma connectThread_step_ok:
  assumes inv: "node_inv s" and run: "connectThread_enabled s" and V: "names_defined V"
  shows "ensures (connectThread_step V T s) node_inv"
proof -
  have stop: "\<not> connect_stopped s"
    using run by (auto simp: connectThread_enabled_def connect_stopped_def)
  note core = node_invD(1) [OF inv]
  note q = node_invD(2) [OF inv]
  have move: "node_inv (s\<lparr>m_connectThread := cp\<rparr>)"
    if "connecting cp = []" "cp \<noteq> C_NoThread" "queue_inv cp (m_potential_peers s)" for cp
    using that by (intro node_inv_connect [OF inv stop] core_connect_pc [OF core]) simp_all
  show ?thesis
  proof (cases "m_connectThread s")
    case (C_For i n)
    then show ?thesis
      using begin_step_ok [OF inv stop C_For] move [of C_Pop] q
      by (cases "i < n"; cases "m_potential_peers s") (simp_all add: connectThread_step_def)
  next
    case (C_Try i n a ip port elapsed)
    show ?thesis
      unfolding connectThread_step_def C_Try connect_pc.case
      by (rule try_step_ok [OF inv stop C_Try _ refl]) simp
  next
    case (C_Failed i n a ip port)
    then show ?thesis
      unfolding connectThread_step_def C_Failed connect_pc.case
      using q by (intro ensures_bindI [OF connect_failed_ok [OF core]])
        (auto simp: C_Failed intro!: connect_release [OF inv stop])
  next
    case (C_Connected i n a)
    then show ?thesis
      unfolding connectThread_step_def C_Connected connect_pc.case
      using q by (intro ensures_bindI2 [OF connect_done_ok [OF core _ V]])
        (auto simp: C_Connected intro!: connect_release [OF inv stop])
  next
    case (C_Notify i n pr)
    have "control (connect_notify pr s) = control s" by (simp add: connect_notify_def)
    moreover have "core_inv ((connect_notify pr s)\<lparr>m_connectThread := C_Loop\<rparr>)"
      by (rule core_cong [OF core_connect_pc [OF core]])
        (simp_all add: C_Notify connect_notify_def fire_def emit_def split: option.split)
    ultimately show ?thesis
      using q connect_release [OF inv stop] by (simp add: connectThread_step_def C_Notify)
  next
    case C_Pop
    then show ?thesis using connect_pop_ok [OF inv C_Pop] by (simp add: connectThread_step_def)
  qed (use move inv in \<open>auto simp: connectThread_step_def Let_def Suc_le_eq\<close>)
qed

section \<open>The member functions\<close>

text \<open>
  The calls the owner makes, one constructor per member function that changes the node.
  \<open>setListener\<close> takes over a raw pointer, which the node closes and deletes later: the caller
  must hand over an object that nobody else owns. \<open>SetListener\<close> is given the object, which is
  put at a new address; what \<open>setListener\<close> itself does with any pointer is \<open>NodeApi.setListener\<close>, and
  \<open>setListener_again\<close> below shows why the caller must not pass an object the node has. The
  registrations are given a closure or none.
\<close>

datatype ('s, 'w) api_call =
    DoListen u16 IpVersion
  | StopListening
  | SetListener 's
  | ConnectTo string u16
  | SendData Peer bytes
  | DisconnectPeer Peer
  | DisconnectAll
  | SetConnectTimeout int
  | SetSleepTime int
  | SetReceiveBufferSize u64
  | SetSocketCreateFunction "('w \<Rightarrow> 's option \<times> 'w) option"
  | OnStartedListening "cb option"
  | OnStoppedListening "cb option"
  | OnAccept "cb option"
  | OnReceive "cb option"
  | OnDisconnect "cb option"
  | OnClosedConnection "cb option"
  | OnConnect "cb option"
  | OnSend "cb option"
  | OnListenError "cb option"
  | OnSendError "cb option"
  | OnConnectError "cb option"
  | OnFaultyConnectionClosed "cb option"

definition api ::
  "('s, 'w) ISocket \<Rightarrow> ('s, 'w) api_call \<Rightarrow> ('s, 'w) node \<Rightarrow> ('s, 'w) node option" where
  "api V c s =
     (case c of
        DoListen port ipv \<Rightarrow> doListen port ipv s
      | StopListening \<Rightarrow> Some (stopListening s)
      | SetListener so \<Rightarrow> (let (a, s) = new_object so s in setListener V (Some a) s)
      | ConnectTo ip port \<Rightarrow> connectTo ip port s
      | SendData pr dat \<Rightarrow> sendData V pr dat s
      | DisconnectPeer pr \<Rightarrow> disconnectPeer pr s
      | DisconnectAll \<Rightarrow> Some (disconnectAll s)
      | SetConnectTimeout ms \<Rightarrow> Some (setConnectTimeout ms s)
      | SetSleepTime ms \<Rightarrow> Some (setSleepTime ms s)
      | SetReceiveBufferSize n \<Rightarrow> setReceiveBufferSize V n s
      | SetSocketCreateFunction f \<Rightarrow> Some (setSocketInterfaceCreateFunction f s)
      | OnStartedListening f \<Rightarrow> Some (onStartedListening f s)
      | OnStoppedListening f \<Rightarrow> Some (onStoppedListening f s)
      | OnAccept f \<Rightarrow> Some (onAccept f s)
      | OnReceive f \<Rightarrow> Some (onReceive f s)
      | OnDisconnect f \<Rightarrow> Some (onDisconnect f s)
      | OnClosedConnection f \<Rightarrow> Some (onClosedConnection f s)
      | OnConnect f \<Rightarrow> Some (onConnect f s)
      | OnSend f \<Rightarrow> Some (onSend f s)
      | OnListenError f \<Rightarrow> Some (onListenError f s)
      | OnSendError f \<Rightarrow> Some (onSendError f s)
      | OnConnectError f \<Rightarrow> Some (onConnectError f s)
      | OnFaultyConnectionClosed f \<Rightarrow> Some (onFaultyConnectionClosed f s))"

text \<open>
  What the caller must respect: a creation function it installs returns a socket, not the null
  pointer, and, as the node deletes what it gets, a new one at every call.
\<close>

fun api_allowed :: "('s, 'w) api_call \<Rightarrow> bool" where
  "api_allowed (SetSocketCreateFunction (Some f)) = creates_sockets f"
| "api_allowed _ = True"

lemma startListen_ok:
  assumes inv: "node_inv s" and run: "m_owner s = O_Running"
  shows "ensures (startListenThreadIfNotRunning s) node_inv"
  using assms
  by (auto simp: startListenThreadIfNotRunning_def Let_def node_inv_def thread_inv_def
      connect_stopped_def send_stopped_def)

lemma doListen_ok:
  assumes inv: "node_inv s" and run: "m_owner s = O_Running"
  shows "ensures (doListen port ipv s) node_inv"
proof -
  have "node_inv (s\<lparr>m_portnumber := port, m_listening_enabled := True, m_changing_listener := b,
      m_ip_version := ipv, m_wakeup_listen_thread := True\<rparr>)"
    "node_inv (s\<lparr>m_portnumber := port, m_listening_enabled := True,
      m_ip_version := ipv, m_wakeup_listen_thread := True\<rparr>)" for b
    using inv by (simp_all add: node_inv_def core_inv_def own_inv_def owned_def heap_ok_def
        live_def thread_inv_def connect_stopped_def send_stopped_def listen_stopped_def)
  then show ?thesis
    unfolding doListen_def Let_def by (auto intro!: startListen_ok simp: run)
qed

lemma new_object_keeps:
  "core_inv s \<Longrightarrow> new_object so s = (a, s') \<Longrightarrow> keeps s s'"
  using new_object_core by (auto simp: keeps_def)

lemma swap_owned:
  assumes "distinct (Some l # R)" and "set (Some l # R) \<subseteq> Some ` L"
    and "a \<in> L" and "Some a \<notin> set (Some l # R)"
  shows "distinct (Some a # R) \<and> set (Some a # R) \<subseteq> Some ` (L - {l})"
  using assms by auto

text \<open>Replacing the listener: the old one dies, the new one takes its place.\<close>

lemma replace_listener_core:
  assumes core: "core_inv s" and own: "m_owner s \<noteq> O_Destroyed"
    and l: "m_listener s = Some l" and a: "a \<in> live s" "Some a \<notin> set (owned s)"
  shows "core_inv (s\<lparr>objects := (objects s)(l := None), world := w, m_listener := Some a\<rparr>)"
proof -
  let ?rest = "connecting (m_connectThread s) @ peer_sockets (m_peers s)"
  let ?s = "s\<lparr>objects := (objects s)(l := None), world := w, m_listener := Some a\<rparr>"
  have o: "owned s = Some l # ?rest" "owned ?s = Some a # ?rest"
    using own l by (simp_all add: owned_def listener_of_def)
  have "distinct (Some l # ?rest) \<and> set (Some l # ?rest) \<subseteq> Some ` live s"
    using core unfolding core_inv_def own_inv_def o(1) by blast
  then have "distinct (Some a # ?rest) \<and> set (Some a # ?rest) \<subseteq> Some ` (live s - {l})"
    using a(2) unfolding o(1) by (intro swap_owned a(1)) blast+
  moreover have "live ?s = live s - {l}" by (auto simp: live_def)
  moreover have "heap_ok ?s" using core by (auto simp: core_inv_def own_inv_def heap_ok_def live_def)
  ultimately have "own_inv ?s" unfolding own_inv_def o by simp
  then show ?thesis using core by (simp add: core_inv_def)
qed

text \<open>The members that \<open>node_inv\<close> depends on outside \<open>core_inv\<close> and the listener.\<close>

definition threads ::
  "('s, 'w) node \<Rightarrow>
     (connect_pc \<times> send_pc \<times> listen_pc \<times> owner_pc) \<times> (bool \<times> bool \<times> bool \<times> bool) \<times>
     IpAndPort list \<times> ('w \<Rightarrow> 's option \<times> 'w)" where
  "threads s =
     ((m_connectThread s, m_sendThread s, m_listenThread s, m_owner s),
      (m_connect_thread_running s, m_send_thread_running s, m_listen_thread_running s,
       m_destructor_called s),
      m_potential_peers s, m_createNewSocketFunction s)"

lemma node_inv_threads:
  "node_inv s \<Longrightarrow> threads s' = threads s \<Longrightarrow> core_inv s' \<Longrightarrow> node_inv s'"
  by (simp add: node_inv_def threads_def thread_inv_def connect_stopped_def send_stopped_def
      listen_stopped_def)

lemma threads_control: "control s' = control s \<Longrightarrow> threads s' = threads s"
  by (simp add: threads_def control_def)

lemma setListener_ok:
  assumes inv: "node_inv s" and own: "m_owner s \<noteq> O_Destroyed"
    and a: "a \<in> live s" "Some a \<notin> set (owned s)"
  shows "ensures (setListener V (Some a) s) node_inv"
proof -
  note core = node_invD(1) [OF inv]
  obtain l where l: "m_listener s = Some l" "l \<in> live s" using listener_live [OF core own] by blast
  have fin: "node_inv s2 \<and> node_inv (s2\<lparr>m_changing_listener := True\<rparr>)"
    if "s2 = store_object l so w s
          \<lparr>objects := (objects (store_object l so w s))(l := None), world := w', m_listener := Some a\<rparr>"
    for so w w' s2
  proof -
    have "core_inv s2"
      unfolding that using a l core own by (intro replace_listener_core) simp_all
    moreover have "threads s2 = threads s"
      unfolding that by (simp add: threads_def store_object_def)
    ultimately show ?thesis by (auto intro!: node_inv_threads [OF inv] simp: threads_def)
  qed
  have "ensures (delete_object V (Some l) (store_object l so w s))
      (\<lambda>s2. node_inv (s2\<lparr>m_listener := Some a, m_changing_listener := True\<rparr>) \<and>
            node_inv (s2\<lparr>m_listener := Some a\<rparr>))" for so w
    using l fin [OF refl] by (intro ensures_delete_object [OF refl]) simp_all
  then have "ensures (delete_object V (Some l) (store_object l so w s))
      (\<lambda>s2. node_inv (if m_listening_enabled s2
         then s2\<lparr>m_listener := Some a, m_changing_listener := True\<rparr>
         else s2\<lparr>m_listener := Some a\<rparr>))" for so w
    by (rule ensures_mono) simp
  then show ?thesis
    unfolding setListener_def using l
    by (auto intro!: ensures_call [OF refl l(2)] simp: Let_def)
qed

text \<open>
  Given the listener the node already has, it deletes the object and keeps the pointer: the next
  call through it is undefined.
\<close>

lemma setListener_again:
  assumes "m_listener s = Some l" and "setListener V (Some l) s = Some s'"
  shows "m_listener s' = Some l \<and> call (m_listener s') f s' = None"
proof -
  obtain so where so: "objects s l = Some so"
    using assms by (cases "objects s l") (auto simp: setListener_def call_def)
  obtain so' w where "vclose V so (world s) = (so', w)" by fastforce
  with assms so have "m_listener s' = Some l \<and> objects s' l = None"
    by (cases "m_listening_enabled s")
      (clarsimp simp: setListener_def call_def delete_object_def store_object_def Let_def)+
  then show ?thesis by (simp add: call_def)
qed

lemma connectTo_ok:
  assumes inv: "node_inv s" and run: "m_owner s = O_Running"
  shows "ensures (connectTo ip port s) node_inv"
proof -
  let ?q = "m_potential_peers s @ [(ip, port)]"
  have grow: "queue_inv cp q \<Longrightarrow> queue_inv cp (q @ [x])" for cp q x
    by (cases cp) auto
  have start: "node_inv (s\<lparr>m_connect_thread_running := True, m_connectThread := C_Loop,
      m_potential_peers := ?q\<rparr>)" if "m_connectThread s = C_NoThread"
  proof -
    have "core_inv (s\<lparr>m_connect_thread_running := True, m_connectThread := C_Loop,
      m_potential_peers := ?q\<rparr>)"
      by (rule core_cong [OF core_connect_pc [OF node_invD(1) [OF inv], of C_Loop]]) simp_all
    then show ?thesis
      using inv run by (simp add: node_inv_def thread_inv_def)
  qed
  have cont: "node_inv (s\<lparr>m_potential_peers := ?q\<rparr>)"
    using inv grow by (simp add: node_inv_def thread_inv_def connect_stopped_def
      send_stopped_def listen_stopped_def)
  have "m_connect_thread_running s \<longleftrightarrow> m_connectThread s \<noteq> C_NoThread"
    using node_invD(3) [OF inv] run by (simp add: thread_inv_def)
  then show ?thesis
    unfolding connectTo_def Let_def
    using startListen_ok [OF start] startListen_ok [OF cont] run by auto
qed

lemma sendData_ok:
  assumes inv: "node_inv s" and run: "m_owner s = O_Running"
  shows "ensures (sendData V pr dat s) node_inv"
proof (cases "peerExists (Peer_id pr) s")
  case True
  let ?d = "m_data_to_send s @ [(Peer_id pr, dat)]"
  have "m_send_thread_running s \<longleftrightarrow> m_sendThread s \<noteq> S_NoThread"
    using node_invD(3) [OF inv] run by (simp add: thread_inv_def)
  moreover have "node_inv (s\<lparr>m_data_to_send := ?d\<rparr>)"
    using inv by (auto intro!: node_inv_threads [OF inv] simp: threads_def node_invD(1))
  moreover have "core_inv (s\<lparr>m_send_thread_running := True, m_sendThread := S_Loop,
      m_data_to_send := ?d\<rparr>)"
    by (rule core_cong [OF node_invD(1) [OF inv]]) simp_all
  then have "node_inv (s\<lparr>m_send_thread_running := True, m_sendThread := S_Loop,
      m_data_to_send := ?d\<rparr>)"
    using inv run by (simp add: node_inv_def thread_inv_def)
  ultimately show ?thesis
    using True by (simp add: sendData_def Let_def)
next
  case False
  have "ensures (sendData V pr dat s) (keeps s)"
    unfolding sendData_def using False node_invD(1) [OF inv]
    by (auto split: option.split simp: same_keeps intro!: ensures_mono [OF report_ok [where s = s]])
  then show ?thesis by (rule ensures_mono) (rule node_inv_keeps [OF inv])
qed

lemma disconnectPeer_ok:
  assumes inv: "node_inv s"
  shows "ensures (disconnectPeer pr s) node_inv"
  using inv node_invD(1) [OF inv]
  by (auto simp: disconnectPeer_def peerExists_def keeps_def intro!: node_inv_keeps [OF inv]
      split: option.splits)

lemma core_cong_owned:
  assumes "core_inv s" and "objects s' = objects s" and "next_object s' = next_object s"
    and "owned s' = owned s" and "peers_inv (m_peers s')"
  shows "core_inv s'"
  using assms by (simp add: core_inv_def own_inv_def heap_ok_def live_def)

lemma disconnectAll_keeps:
  assumes core: "core_inv s"
  shows "keeps s (disconnectAll s)"
proof -
  have *: "peer_sockets (map (\<lambda>(k, pp). (k, scheduleDelete dt pp)) ps) = peer_sockets ps \<and>
    peers_inv (map (\<lambda>(k, pp). (k, scheduleDelete dt pp)) ps) = peers_inv ps" for dt ps
    by (auto simp: peers_inv_def comp_def split_beta)
  have "core_inv (disconnectAll s)"
    by (rule core_cong_owned [OF core])
      (use core * in \<open>simp_all only: disconnectAll_def owned_def core_inv_def, simp_all\<close>)
  then show ?thesis by (simp add: keeps_def) (simp add: disconnectAll_def)
qed

text \<open>A setting: nothing the invariant depends on changes.\<close>

lemma node_inv_settings:
  assumes "node_inv s"
  shows "node_inv (s\<lparr>m_connect_timeout := ms\<rparr>)" "node_inv (s\<lparr>m_node_sleep_time := ms\<rparr>)"
    "node_inv (s\<lparr>m_callbacks := cbs\<rparr>)"
    "node_inv (s\<lparr>m_listening_enabled := b\<rparr>)"
    "creates_sockets f \<Longrightarrow> node_inv (s\<lparr>m_createNewSocketFunction := f\<rparr>)"
  using assms by (simp_all add: node_inv_def thread_inv_def connect_stopped_def send_stopped_def
      listen_stopped_def)

lemma setReceiveBufferSize_ok:
  assumes inv: "node_inv s" and run: "m_owner s = O_Running"
  shows "ensures (setReceiveBufferSize V n s) node_inv"
proof -
  obtain l where l: "m_listener s = Some l" "l \<in> live s"
    using listener_live [OF node_invD(1) [OF inv]] run by auto
  have "ensures (setReceiveBufferSize V n s) (keeps s)"
    unfolding setReceiveBufferSize_def using l
    by (auto intro!: ensures_mono [OF call_local_same [OF node_invD(1) [OF inv]]] simp: same_keeps)
  then show ?thesis by (rule ensures_mono) (rule node_inv_keeps [OF inv])
qed

text \<open>The queries that go through a pointer or use \<open>at\<close> are defined.\<close>

lemma receiveBufferSize_defined:
  assumes "node_inv s" and "m_owner s = O_Running"
  shows "receiveBufferSize V s \<noteq> None"
proof -
  obtain l where l: "m_listener s = Some l" "l \<in> live s"
    using listener_live [OF node_invD(1) [OF assms(1)]] assms(2) by auto
  have "ensures (receiveBufferSize V s) (\<lambda>x. True)"
    unfolding receiveBufferSize_def using l by (auto intro!: ensures_call_read)
  then show ?thesis by (rule ensures_defined)
qed

text \<open>Every member function, called while the node is in use.\<close>

lemma api_ok:
  assumes inv: "node_inv s" and run: "m_owner s = O_Running" and c: "api_allowed c"
  shows "ensures (api V c s) node_inv"
proof (cases c)
  case (SetListener so)
  obtain a s1 where n: "new_object so s = (a, s1)" by fastforce
  note s1 = new_object_core [OF node_invD(1) [OF inv] n]
  have "node_inv s1" using s1 by (intro node_inv_keeps [OF inv]) (simp add: keeps_def)
  then show ?thesis
    using setListener_ok [of s1 a V] s1 controlD(1) [OF s1(4)] run
    by (simp add: api_def SetListener n)
next
  case (SetSocketCreateFunction f)
  with inv c show ?thesis
    by (cases f) (simp_all add: api_def setSocketInterfaceCreateFunction_def node_inv_settings)
qed (use inv run node_inv_keeps [OF inv disconnectAll_keeps [OF node_invD(1) [OF inv]]] in
   \<open>simp_all add: api_def doListen_ok connectTo_ok sendData_ok disconnectPeer_ok
      setReceiveBufferSize_ok node_inv_settings stopListening_def setConnectTimeout_def
      setSleepTime_def registrations\<close>)

section \<open>The destructor\<close>

lemma dtor_begin_ok: "node_inv s \<Longrightarrow> m_owner s = O_Running \<Longrightarrow> node_inv (dtor_begin s)"
  by (auto simp: dtor_begin_def node_inv_def thread_inv_def core_inv_def own_inv_def owned_def
      listener_of_def heap_ok_def live_def)

lemma dtor_send_ok:
  "node_inv s \<Longrightarrow> m_owner s = O_JoinConnect \<Longrightarrow> connect_stopped s \<Longrightarrow> node_inv (dtor_send s)"
  by (auto simp: dtor_send_def node_inv_def thread_inv_def core_inv_def own_inv_def owned_def
      listener_of_def heap_ok_def live_def connect_stopped_def)

lemma dtor_listen_ok:
  "node_inv s \<Longrightarrow> m_owner s = O_JoinSend \<Longrightarrow> send_stopped s \<Longrightarrow> node_inv (dtor_listen s)"
  by (auto simp: dtor_listen_def node_inv_def thread_inv_def core_inv_def own_inv_def owned_def
      listener_of_def heap_ok_def live_def connect_stopped_def send_stopped_def)

text \<open>The end of the destructor deletes the listener, and no socket of a peer.\<close>

lemma drop_listener:
  assumes core: "core_inv s" and own: "m_owner s \<noteq> O_Destroyed" and l: "m_listener s = Some l"
  shows "core_inv (s\<lparr>objects := (objects s)(l := None), world := w, m_owner := O_Destroyed\<rparr>)"
proof -
  let ?rest = "connecting (m_connectThread s) @ peer_sockets (m_peers s)"
  let ?s = "s\<lparr>objects := (objects s)(l := None), world := w, m_owner := O_Destroyed\<rparr>"
  have o: "owned s = [] @ Some l # ?rest" "owned ?s = [] @ ?rest"
    using own l by (simp_all add: owned_def listener_of_def)
  have "distinct (owned s) \<and> set (owned s) \<subseteq> Some ` live s"
    using core by (simp only: core_inv_def own_inv_def)
  then have "distinct ([] @ ?rest) \<and> set ([] @ ?rest) \<subseteq> Some ` (live s - {l})"
    unfolding o by (intro remove_owned) blast+
  moreover have "live ?s = live s - {l}" by (auto simp: live_def)
  moreover have "heap_ok ?s" using core by (auto simp: core_inv_def own_inv_def heap_ok_def live_def)
  ultimately have "own_inv ?s" unfolding own_inv_def o by simp
  then show ?thesis using core by (simp add: core_inv_def)
qed

text \<open>The last stage calls \<open>close\<close> and \<open>delete\<close> on the listener, and nothing on any other socket.\<close>

lemma dtor_end_calls:
  assumes "m_listener s = Some l" and "objects s l = Some lo" and "vclose V lo (world s) = (lo', w)"
  shows "dtor_end V s = Some ((disconnectAll s)
    \<lparr>objects := (objects s)(l := None), world := vdestroy V lo' w, m_owner := O_Destroyed\<rparr>)"
  using assms
  by (simp add: dtor_end_def disconnectAll_def call_def delete_object_def store_object_def Let_def
      fun_upd_upd)

lemma peer_sockets_live:
  assumes "node_inv s"
  shows "set (peer_sockets (m_peers s)) \<subseteq> Some ` live s"
  using node_invD(1) [OF assms] by (auto simp: core_inv_def own_inv_def owned_def)

lemma dtor_end_ok:
  assumes inv: "node_inv s" and own: "m_owner s = O_JoinListen" and stop: "listen_stopped s"
  shows "ensures (dtor_end V s) (\<lambda>s'. node_inv s' \<and> m_owner s' = O_Destroyed \<and>
    Some ` live s' = Some ` live s - {m_listener s} \<and>
    peer_sockets (m_peers s') = peer_sockets (m_peers s))"
proof -
  let ?s = "disconnectAll s"
  have core: "core_inv ?s" "control ?s = control s"
    using disconnectAll_keeps [OF node_invD(1) [OF inv]] by (simp_all add: keeps_def)
  note c = controlD [OF core(2)]
  have own': "m_owner ?s \<noteq> O_Destroyed" using own c(1) by simp
  obtain l where l: "m_listener ?s = Some l" "l \<in> live ?s"
    using listener_live [OF core(1) own'] by blast
  have peers: "peer_sockets (m_peers ?s) = peer_sockets (m_peers s)" "live ?s = live s"
    by (auto simp: disconnectAll_def comp_def split_beta live_def)
  have fin: "node_inv s2 \<and> live s2 = live s - {l} \<and>
      peer_sockets (m_peers s2) = peer_sockets (m_peers s)"
    if s2: "s2 = store_object l so w ?s
        \<lparr>objects := (objects (store_object l so w ?s))(l := None), world := w', m_owner := O_Destroyed\<rparr>"
    for so w w' s2
  proof (intro conjI)
    have "core_inv s2"
      unfolding s2 using core(1) l own' by (intro drop_listener) simp_all
    then show "node_inv s2"
      using node_invD(2-4) [OF inv] c own stop
      by (simp add: node_inv_def s2 thread_inv_def listen_stopped_def connect_stopped_def
          send_stopped_def store_object_def)
    show "live s2 = live s - {l}"
      using peers(2) by (auto simp: s2 live_def store_object_def)
    show "peer_sockets (m_peers s2) = peer_sockets (m_peers s)"
      using peers(1) by (simp add: s2)
  qed
  have "ensures (delete_object V (Some l) (store_object l so w ?s))
      (\<lambda>s1. node_inv (s1\<lparr>m_owner := O_Destroyed\<rparr>) \<and>
        Some ` live (s1\<lparr>m_owner := O_Destroyed\<rparr>) = Some ` live s - {m_listener s} \<and>
        peer_sockets (m_peers (s1\<lparr>m_owner := O_Destroyed\<rparr>)) = peer_sockets (m_peers s))" for so w
    using l fin [OF refl] c(2) by (intro ensures_delete_object [OF refl]) auto
  then show ?thesis
    unfolding dtor_end_def using l(1)
    by (auto intro!: ensures_call [OF refl l(2)] elim!: ensures_mono simp: Let_def)
qed

end
