(* ===== verification/NodeSystem.thy ===== *)
theory NodeSystem
  imports NodeSteps "HOL-Library.Multiset"
begin

text \<open>
  The node as a whole: a step relation that interleaves the three worker threads, the owner's
  calls, the stages of the destructor and the surroundings (the operating system, other nodes
  that share the static connection counter, and the rehashing of the peer table). Every pause
  of a thread is a wait for the condition the code names; the mutex makes each piece of a
  thread one step.
\<close>

section \<open>The step relation\<close>

text \<open>
  \<open>stopListening\<close> writes two atomic flags without a lock. \<open>api_step\<close> has it in one step;
  \<open>stop_request_step\<close> and \<open>stop_wakeup_step\<close> are its two writes with other steps in between.
\<close>

inductive node_step ::
  "('s, 'w) ISocket \<Rightarrow> (int \<Rightarrow> 'w \<Rightarrow> int \<times> 'w) \<Rightarrow> ('s, 'w) node \<Rightarrow> ('s, 'w) node \<Rightarrow> bool"
  for V :: "('s, 'w) ISocket" and T :: "int \<Rightarrow> 'w \<Rightarrow> int \<times> 'w" where
  listen_step:
    "listenThread_enabled s \<Longrightarrow> listenThread_step V s = Some s' \<Longrightarrow> node_step V T s s'"
| connect_step:
    "connectThread_enabled s \<Longrightarrow> connectThread_step V T s = Some s' \<Longrightarrow> node_step V T s s'"
| send_step:
    "sendThread_enabled s \<Longrightarrow> sendThread_step V s = Some s' \<Longrightarrow> node_step V T s s'"
| api_step:
    "m_owner s = O_Running \<Longrightarrow> api_allowed c \<Longrightarrow> api V c s = Some s' \<Longrightarrow> node_step V T s s'"
| dtor_begin_step:
    "m_owner s = O_Running \<Longrightarrow> node_step V T s (dtor_begin s)"
| dtor_send_step:
    "m_owner s = O_JoinConnect \<Longrightarrow> connect_stopped s \<Longrightarrow> node_step V T s (dtor_send s)"
| dtor_listen_step:
    "m_owner s = O_JoinSend \<Longrightarrow> send_stopped s \<Longrightarrow> node_step V T s (dtor_listen s)"
| dtor_end_step:
    "m_owner s = O_JoinListen \<Longrightarrow> listen_stopped s \<Longrightarrow> dtor_end V s = Some s' \<Longrightarrow>
     node_step V T s s'"
| stop_request_step:
    "m_owner s = O_Running \<Longrightarrow> m_listen_thread_running s \<Longrightarrow>
     node_step V T s (s\<lparr>m_listening_enabled := False\<rparr>)"
| stop_wakeup_step:
    "m_owner s = O_Running \<Longrightarrow> m_listen_thread_running s \<Longrightarrow>
     node_step V T s (s\<lparr>m_wakeup_listen_thread := True\<rparr>)"
| world_step:
    "node_step V T s (s\<lparr>world := w\<rparr>)"
| other_nodes_step:
    "m_connection_counter s \<le> c \<Longrightarrow> node_step V T s (s\<lparr>m_connection_counter := c\<rparr>)"
| rehash_step:
    "mset ps = mset (m_peers s) \<Longrightarrow> node_step V T s (s\<lparr>m_peers := ps\<rparr>)"

text \<open>A new node, in a heap that holds only allocated objects.\<close>

definition initial :: "('s, 'w) node \<Rightarrow> bool" where
  "initial s \<longleftrightarrow>
     (\<exists>f ipv heap next w c ord. creates_sockets f \<and> (\<forall>a\<in>dom heap. a < next) \<and>
        s = (TcpNodePrivate_new f ipv heap next w c)\<lparr>m_arg_order := ord\<rparr>)"

inductive reachable ::
  "('s, 'w) ISocket \<Rightarrow> (int \<Rightarrow> 'w \<Rightarrow> int \<times> 'w) \<Rightarrow> ('s, 'w) node \<Rightarrow> bool"
  for V :: "('s, 'w) ISocket" and T :: "int \<Rightarrow> 'w \<Rightarrow> int \<times> 'w" where
  init: "initial s \<Longrightarrow> reachable V T s"
| step: "reachable V T s \<Longrightarrow> node_step V T s s' \<Longrightarrow> reachable V T s'"

inductive_cases node_stepE: "node_step V T s s'"

section \<open>The invariant\<close>

lemma node_inv_new:
  assumes f: "creates_sockets f" and heap: "\<forall>a\<in>dom heap. a < next"
  shows "node_inv (TcpNodePrivate_new f ipv heap next w c)"
proof -
  obtain so w1 where fw: "f w = (Some so, w1)"
    using f unfolding creates_sockets_def by (metis option.exhaust prod.collapse)
  show ?thesis
    using heap f
    by (auto simp: TcpNodePrivate_new_def create_socket_def new_object_def fw Let_def
        node_inv_def core_inv_def own_inv_def owned_def listener_of_def heap_ok_def live_def
        peers_inv_def thread_inv_def less_Suc_eq)
qed

lemma node_inv_order [simp]: "node_inv (s\<lparr>m_arg_order := ord\<rparr>) = node_inv s"
  by (simp add: node_inv_def core_inv_def own_inv_def owned_def heap_ok_def live_def thread_inv_def
      connect_stopped_def send_stopped_def listen_stopped_def)

lemma initial_inv: "initial s \<Longrightarrow> node_inv s"
  by (auto simp: initial_def intro: node_inv_new)

lemma initialI:
  assumes "creates_sockets f" and "\<forall>a\<in>dom heap. a < nx"
  shows "initial (TcpNodePrivate_new f ipv heap nx w c)"
proof -
  let ?s = "TcpNodePrivate_new f ipv heap nx w c"
  show ?thesis
    unfolding initial_def using assms
    by (intro exI [of _ f] exI [of _ ipv] exI [of _ heap] exI [of _ nx] exI [of _ w] exI [of _ c]
        exI [of _ "m_arg_order ?s"]) simp
qed

lemma rehash_core:
  assumes core: "core_inv s" and ps: "mset ps = mset (m_peers s)"
  shows "core_inv (s\<lparr>m_peers := ps\<rparr>)"
proof -
  have m: "mset (peer_sockets ps) = mset (peer_sockets (m_peers s))"
    "mset (keys_of ps) = mset (keys_of (m_peers s))" using ps by simp_all
  then have o: "mset (owned (s\<lparr>m_peers := ps\<rparr>)) = mset (owned s)" by (simp add: owned_def)
  have "own_inv (s\<lparr>m_peers := ps\<rparr>)"
    using core mset_eq_imp_distinct_iff [OF o] mset_eq_setD [OF o]
    by (simp add: core_inv_def own_inv_def heap_ok_def live_def)
  moreover have "peers_inv ps"
    using core mset_eq_imp_distinct_iff [OF m(2)] mset_eq_setD [OF ps]
    by (simp add: core_inv_def peers_inv_def)
  ultimately show ?thesis by (simp add: core_inv_def)
qed

lemma node_step_inv:
  assumes "node_step V T s s'" and inv: "node_inv s" and V: "names_defined V"
  shows "node_inv s'"
  using assms(1)
proof cases
  case listen_step
  with listenThread_step_ok [OF inv _ V] show ?thesis by simp
next
  case connect_step
  with connectThread_step_ok [OF inv _ V, of T] show ?thesis by simp
next
  case send_step
  with sendThread_step_ok [OF inv, of V] show ?thesis by simp
next
  case (api_step c)
  with api_ok [OF inv] show ?thesis by (metis ensures_SomeD)
next
  case dtor_end_step
  with dtor_end_ok [OF inv] show ?thesis by (metis (mono_tags, lifting) ensures_SomeD)
next
  case (rehash_step ps)
  with rehash_core [OF node_invD(1) [OF inv]] show ?thesis
    by (auto intro!: node_inv_threads [OF inv] simp: threads_def)
qed (use inv in \<open>auto simp: dtor_begin_ok dtor_send_ok dtor_listen_ok threads_def node_invD(1)
       intro!: node_inv_threads [OF inv]\<close>)

lemma reachable_inv: "reachable V T s \<Longrightarrow> names_defined V \<Longrightarrow> node_inv s"
  by (induction rule: reachable.induct) (auto intro: initial_inv node_step_inv)

section \<open>Schedules\<close>

text \<open>
  A run as a sequence of actions: which thread moves, what the owner calls. \<open>perform\<close> computes
  the step an action names, or \<open>None\<close> when it is not possible.
\<close>

datatype ('s, 'w) action =
    Listen_thread
  | Connect_thread
  | Send_thread
  | Call "('s, 'w) api_call"
  | Destroy
  | World "'w \<Rightarrow> 'w"

definition perform ::
  "('s, 'w) ISocket \<Rightarrow> (int \<Rightarrow> 'w \<Rightarrow> int \<times> 'w) \<Rightarrow> ('s, 'w) action \<Rightarrow> ('s, 'w) node \<Rightarrow>
     ('s, 'w) node option" where
  "perform V T x s =
     (case x of
        Listen_thread \<Rightarrow> if listenThread_enabled s then listenThread_step V s else None
      | Connect_thread \<Rightarrow> if connectThread_enabled s then connectThread_step V T s else None
      | Send_thread \<Rightarrow> if sendThread_enabled s then sendThread_step V s else None
      | Call c \<Rightarrow> if m_owner s = O_Running then api V c s else None
      | Destroy \<Rightarrow>
          (case m_owner s of
             O_Running \<Rightarrow> Some (dtor_begin s)
           | O_JoinConnect \<Rightarrow> if connect_stopped s then Some (dtor_send s) else None
           | O_JoinSend \<Rightarrow> if send_stopped s then Some (dtor_listen s) else None
           | O_JoinListen \<Rightarrow> if listen_stopped s then dtor_end V s else None
           | O_Destroyed \<Rightarrow> None)
      | World f \<Rightarrow> Some (s\<lparr>world := f (world s)\<rparr>))"

fun run_schedule ::
  "('s, 'w) ISocket \<Rightarrow> (int \<Rightarrow> 'w \<Rightarrow> int \<times> 'w) \<Rightarrow> ('s, 'w) action list \<Rightarrow> ('s, 'w) node \<Rightarrow>
     ('s, 'w) node option" where
  "run_schedule V T [] s = Some s"
| "run_schedule V T (x # xs) s = do { s \<leftarrow> perform V T x s; run_schedule V T xs s }"

lemma run_schedule_append:
  "run_schedule V T (xs @ ys) s = run_schedule V T xs s \<bind> run_schedule V T ys"
proof (induction xs arbitrary: s)
  case (Cons x xs)
  then show ?case by (cases "perform V T x s") simp_all
qed simp

fun action_allowed :: "('s, 'w) action \<Rightarrow> bool" where
  "action_allowed (Call c) = api_allowed c"
| "action_allowed _ = True"

lemma perform_step:
  assumes "perform V T x s = Some s'" and "action_allowed x"
  shows "node_step V T s s'"
  using assms
  by (cases x) (auto simp: perform_def intro: node_step.intros split: if_splits owner_pc.splits)

lemma run_reachable:
  "reachable V T s \<Longrightarrow> list_all action_allowed xs \<Longrightarrow> run_schedule V T xs s = Some s' \<Longrightarrow>
     reachable V T s'"
proof (induction xs arbitrary: s)
  case (Cons x xs)
  then obtain s1 where "perform V T x s = Some s1" "run_schedule V T xs s1 = Some s'"
    by (auto simp: bind_eq_Some_conv)
  moreover have "reachable V T s1"
    using Cons.prems(1,2) calculation(1) by (auto intro: reachable.step [OF _ perform_step])
  ultimately show ?case using Cons by simp
qed simp

end
