(* ===== verification/NodeTrace.thy ===== *)
theory NodeTrace
  imports NodeSystem
begin

text \<open>
  The order of callback invocations. Every connection has an id of its own and is announced at
  most once. The announcement of an accepted connection is its first event. That of a connection
  the node has opened may come at any time, because the connect thread files the peer, unlocks,
  and invokes the callback later: the other threads may report data on the connection, and even
  its closing, before. Apart from such a late announcement nothing follows a closing event. This
  holds along every run in which the 64-bit connection counter does not wrap around.
\<close>

section \<open>The protocol of a connection\<close>

fun ev_peer :: "event \<Rightarrow> u64 option" where
  "ev_peer (NewPeerConnected c pp) = Some (m_connection_id pp)"
| "ev_peer (ConnectedToNewPeer c pp) = Some (m_connection_id pp)"
| "ev_peer (Received c pp d) = Some (m_connection_id pp)"
| "ev_peer (Sent c pp n) = Some (m_connection_id pp)"
| "ev_peer (PeerDisconnected c pp) = Some (m_connection_id pp)"
| "ev_peer (ClosedConnection c pp) = Some (m_connection_id pp)"
| "ev_peer (FaultyConnectionClosed c pp m) = Some (m_connection_id pp)"
| "ev_peer _ = None"

fun announces :: "event \<Rightarrow> bool" where
  "announces (NewPeerConnected c pp) = True"
| "announces (ConnectedToNewPeer c pp) = True"
| "announces _ = False"

text \<open>The announcement of a connection this node has opened.\<close>

fun opened :: "event \<Rightarrow> bool" where
  "opened (ConnectedToNewPeer c pp) = True"
| "opened _ = False"

fun closes :: "event \<Rightarrow> bool" where
  "closes (PeerDisconnected c pp) = True"
| "closes (ClosedConnection c pp) = True"
| "closes (FaultyConnectionClosed c pp m) = True"
| "closes _ = False"

text \<open>Two events of the same connection, in this order.\<close>

definition ev_order :: "event \<Rightarrow> event \<Rightarrow> bool" where
  "ev_order e e' \<longleftrightarrow>
     (ev_peer e = ev_peer e' \<and> ev_peer e \<noteq> None \<longrightarrow>
        (if opened e' then \<not> announces e else \<not> closes e \<and> \<not> announces e'))"

text \<open>The connection whose callback the connect thread is about to invoke.\<close>

fun pending :: "connect_pc \<Rightarrow> u64 option" where
  "pending (C_Notify i n pp) = Some (m_connection_id pp)"
| "pending _ = None"

definition trace_ok :: "PeerList \<Rightarrow> event list \<Rightarrow> u64 \<Rightarrow> u64 option \<Rightarrow> bool" where
  "trace_ok ps es c p \<longleftrightarrow>
     peers_inv ps \<and> (\<forall>k \<in> set (keys_of ps). k \<le> c) \<and>
     (\<forall>e \<in> set es. \<forall>k. ev_peer e = Some k \<longrightarrow> k \<le> c) \<and>
     (\<forall>e \<in> set es. closes e \<longrightarrow> (\<forall>k \<in> set (keys_of ps). ev_peer e \<noteq> Some k)) \<and>
     sorted_wrt ev_order es \<and>
     (\<forall>k. p = Some k \<longrightarrow> k \<le> c \<and> (\<forall>e \<in> set es. announces e \<longrightarrow> ev_peer e \<noteq> Some k))"

definition trace_inv :: "('s, 'w) node \<Rightarrow> bool" where
  "trace_inv s \<longleftrightarrow>
     trace_ok (m_peers s) (events s) (m_connection_counter s) (pending (m_connectThread s))"

lemma opened_announces: "opened e \<Longrightarrow> announces e"
  by (cases e) auto

lemma announces_peer: "announces e \<Longrightarrow> ev_peer e \<noteq> None"
  by (cases e) auto

lemma closes_peer: "closes e \<Longrightarrow> ev_peer e \<noteq> None"
  by (cases e) auto

lemma trace_okD:
  assumes "trace_ok ps es c p"
  shows "peers_inv ps" and "k \<in> set (keys_of ps) \<Longrightarrow> k \<le> c"
    and "e \<in> set es \<Longrightarrow> ev_peer e = Some k \<Longrightarrow> k \<le> c"
    and "e \<in> set es \<Longrightarrow> closes e \<Longrightarrow> k \<in> set (keys_of ps) \<Longrightarrow> ev_peer e \<noteq> Some k"
    and "sorted_wrt ev_order es"
    and "p = Some k \<Longrightarrow> k \<le> c"
    and "p = Some k \<Longrightarrow> e \<in> set es \<Longrightarrow> announces e \<Longrightarrow> ev_peer e \<noteq> Some k"
  using assms unfolding trace_ok_def by blast+

lemma trace_snoc:
  "trace_ok ps (es @ [e]) c p \<longleftrightarrow>
     trace_ok ps es c p \<and> (\<forall>k. ev_peer e = Some k \<longrightarrow> k \<le> c) \<and>
     (closes e \<longrightarrow> (\<forall>k \<in> set (keys_of ps). ev_peer e \<noteq> Some k)) \<and>
     (\<forall>e' \<in> set es. ev_order e' e) \<and>
     (announces e \<and> p \<noteq> None \<longrightarrow> ev_peer e \<noteq> p)"
  unfolding trace_ok_def sorted_wrt_append by auto

text \<open>The connect thread moves on, with no announcement pending, or announces what is pending.\<close>

lemma trace_drop: "trace_ok ps es c p \<Longrightarrow> trace_ok ps es c None"
  by (simp add: trace_ok_def)

lemma trace_late:
  assumes t: "trace_ok ps es c (Some k)" and e: "ev_peer e = Some k" "opened e"
  shows "trace_ok ps (es @ [e]) c None"
proof -
  have "\<not> closes e" using e(2) by (cases e) auto
  moreover have "ev_order e' e" if "e' \<in> set es" for e'
    using trace_okD(7) [OF t refl that] e by (auto simp: ev_order_def)
  ultimately show ?thesis
    unfolding trace_snoc using trace_drop [OF t] trace_okD(6) [OF t refl] e(1) by simp
qed

text \<open>The entry of a key carries that key as its id.\<close>

lemma peers_inv_id: "peers_inv ps \<Longrightarrow> (k, pp) \<in> set ps \<Longrightarrow> m_connection_id pp = k"
  by (auto simp: peers_inv_def)

lemma counter_next: "c \<noteq> - 1 \<Longrightarrow> c < c + (1 :: u64)"
  using unatSuc [of c] by (auto simp: word_less_nat_alt add.commute eq_neg_iff_add_eq_0)

text \<open>The ways a piece of a thread can extend the table and the trace.\<close>

lemma trace_no_peer:
  assumes "trace_ok ps es c p" and "ev_peer e = None"
  shows "trace_ok ps (es @ [e]) c p"
proof -
  have "\<not> announces e" "\<not> closes e"
    using assms(2) announces_peer closes_peer by blast+
  moreover have "ev_order e' e" if "e' \<in> set es" for e'
    using assms(2) by (auto simp: ev_order_def)
  ultimately show ?thesis using assms by (simp add: trace_snoc)
qed

lemma trace_active:
  assumes t: "trace_ok ps es c p" and pp: "map_of ps k = Some pp"
    and e: "ev_peer e = Some (m_connection_id pp)" "\<not> closes e" "\<not> announces e"
  shows "trace_ok ps (es @ [e]) c p"
proof -
  have mem: "(k, pp) \<in> set ps" using pp by (rule map_of_SomeD)
  then have id: "m_connection_id pp = k" using peers_inv_id [OF trace_okD(1) [OF t]] by blast
  have k: "k \<in> set (keys_of ps)" using mem by force
  have "ev_order e' e" if "e' \<in> set es" for e'
    using trace_okD(4) [OF t that _ k] e id opened_announces by (auto simp: ev_order_def)
  then show ?thesis
    unfolding trace_snoc using t e id trace_okD(2) [OF t k] by simp
qed

lemma trace_register:
  assumes t: "trace_ok ps es c p" and c: "c \<noteq> - 1" and pp: "m_connection_id pp = c + 1" "m_valid pp"
  shows "trace_ok (umap_insert (c + 1) pp ps) es (c + 1) p"
    and "e \<in> set es \<Longrightarrow> ev_peer e \<noteq> Some (c + 1)" and "p \<noteq> Some (c + 1)"
proof -
  note lt = counter_next [OF c]
  have new: "c + 1 \<notin> set (keys_of ps)" using trace_okD(2) [OF t] lt by (metis not_le)
  have le: "k \<le> c + 1" if "k \<le> c" for k using that lt by simp
  show ne: "ev_peer e \<noteq> Some (c + 1)" if "e \<in> set es" for e
    using trace_okD(3) [OF t that] lt by (metis not_le)
  show "p \<noteq> Some (c + 1)" using trace_okD(6) [OF t] lt by (metis not_le)
  have "peers_inv ((c + 1, pp) # ps)"
    using trace_okD(1) [OF t] new pp by (auto simp: peers_inv_def)
  moreover have "\<forall>k \<in> set (keys_of ((c + 1, pp) # ps)). k \<le> c + 1"
    using trace_okD(2) [OF t] le by auto
  moreover have "\<forall>e \<in> set es. \<forall>k. ev_peer e = Some k \<longrightarrow> k \<le> c + 1"
    using trace_okD(3) [OF t] le by blast
  moreover have "\<forall>e \<in> set es. closes e \<longrightarrow>
      (\<forall>k \<in> set (keys_of ((c + 1, pp) # ps)). ev_peer e \<noteq> Some k)"
    using trace_okD(4) [OF t] ne by simp
  moreover have "\<forall>k. p = Some k \<longrightarrow>
      k \<le> c + 1 \<and> (\<forall>e \<in> set es. announces e \<longrightarrow> ev_peer e \<noteq> Some k)"
    using trace_okD(6,7) [OF t] le by blast
  ultimately show "trace_ok (umap_insert (c + 1) pp ps) es (c + 1) p"
    using new trace_okD(5) [OF t] by (simp add: trace_ok_def)
qed

lemma trace_announce:
  assumes t: "trace_ok ps es c p" and c: "c \<noteq> - 1" and pp: "m_connection_id pp = c + 1" "m_valid pp"
    and e: "ev_peer e = Some (c + 1)" "announces e"
  shows "trace_ok (umap_insert (c + 1) pp ps) (es @ [e]) (c + 1) p"
proof -
  note reg = trace_register [OF t c pp]
  have "\<not> closes e" using e(2) by (cases e) auto
  moreover have "ev_order e' e" if "e' \<in> set es" for e'
    using reg(2) [OF that] e(1) by (simp add: ev_order_def)
  ultimately show ?thesis
    unfolding trace_snoc using reg(1,3) e(1) by auto
qed

text \<open>The connection the connect thread has filed: its announcement is pending.\<close>

lemma trace_file:
  assumes t: "trace_ok ps es c None" and c: "c \<noteq> - 1"
    and pp: "m_connection_id pp = c + 1" "m_valid pp"
  shows "trace_ok (umap_insert (c + 1) pp ps) es (c + 1) (Some (c + 1))"
  using trace_register [OF t c pp] by (simp add: trace_ok_def)

lemma keys_delete: "set (keys_of (AList.delete k ps)) = set (keys_of ps) - {k}"
  by (auto simp: delete_keys)

lemma trace_delete:
  assumes t: "trace_ok ps es c p"
  shows "trace_ok (AList.delete k ps) es c p"
proof -
  have "peers_inv (AList.delete k ps)"
    using trace_okD(1) [OF t] by (auto simp: peers_inv_def set_umap_delete distinct_delete)
  then show ?thesis
    unfolding trace_ok_def keys_delete using trace_okD [OF t] by blast
qed

lemma trace_close:
  assumes t: "trace_ok ps es c p" and pp: "(k, pp) \<in> set ps"
    and e: "ev_peer e = Some (m_connection_id pp)" "closes e"
  shows "trace_ok (AList.delete k ps) (es @ [e]) c p"
proof -
  have id: "m_connection_id pp = k" using peers_inv_id [OF trace_okD(1) [OF t] pp] .
  have k: "k \<in> set (keys_of ps)" using pp by force
  have "\<not> announces e" using e(2) by (cases e) auto
  then have "\<not> announces e" and "ev_order e' e" if "e' \<in> set es" for e'
    using trace_okD(4) [OF t that _ k] e id opened_announces by (auto simp: ev_order_def)
  then show ?thesis
    unfolding trace_snoc keys_delete using \<open>\<not> announces e\<close> trace_delete [OF t] e(1) id trace_okD(2) [OF t k] by auto
qed

lemma peers_inv_map_entry:
  assumes "\<And>pp. m_connection_id (f pp) = m_connection_id pp" and "\<And>pp. m_valid (f pp) = m_valid pp"
  shows "peers_inv (AList.map_entry k f ps) = peers_inv ps"
proof (induction ps)
  case (Cons p xs)
  then show ?case by (cases p) (auto simp: peers_inv_def assms)
qed (simp add: peers_inv_def)

lemma trace_map_entry:
  "(\<And>pp. m_connection_id (f pp) = m_connection_id pp) \<Longrightarrow> (\<And>pp. m_valid (f pp) = m_valid pp) \<Longrightarrow>
     trace_ok (AList.map_entry k f ps) es c p = trace_ok ps es c p"
  by (simp add: trace_ok_def peers_inv_map_entry)

section \<open>The pieces of the threads\<close>

text \<open>What calls on sockets, and their error reports, leave alone.\<close>

definition unlogged :: "('s, 'w) node \<Rightarrow> ('s, 'w) node \<Rightarrow> bool" where
  "unlogged s s' \<longleftrightarrow> m_peers s' = m_peers s \<and> events s' = events s \<and>
     m_connection_counter s' = m_connection_counter s \<and>
     pending (m_connectThread s') = pending (m_connectThread s) \<and>
     m_data_to_send s' = m_data_to_send s \<and> m_callbacks s' = m_callbacks s"

lemma unloggedD:
  assumes "unlogged s s'"
  shows "m_peers s' = m_peers s" "events s' = events s"
    "m_connection_counter s' = m_connection_counter s" "trace_inv s' = trace_inv s"
    "m_data_to_send s' = m_data_to_send s" "m_callbacks s' = m_callbacks s"
    "pending (m_connectThread s') = pending (m_connectThread s)"
  using assms by (simp_all add: unlogged_def trace_inv_def)

lemma call_unlogged: "call p f s = Some (x, s') \<Longrightarrow> unlogged s s'"
  by (auto simp: call_def unlogged_def bind_eq_Some_conv split_beta)

lemma call_local_unlogged: "call_local p f s = Some (x, s') \<Longrightarrow> unlogged s s'"
  unfolding call_local_def by (rule call_unlogged)

lemma delete_unlogged: "delete_object V p s = Some s' \<Longrightarrow> unlogged s s'"
  by (auto simp: delete_object_def unlogged_def bind_eq_Some_conv split: option.splits)

lemma unlogged_refl [simp]: "unlogged s s"
  by (simp add: unlogged_def)

lemma unlogged_trans: "unlogged s s' \<Longrightarrow> unlogged s' s'' \<Longrightarrow> unlogged s s''"
  by (simp add: unlogged_def)

lemma createErrorMessage_unlogged:
  "createErrorMessage V h b sock s = Some (m, s') \<Longrightarrow> unlogged s s'"
  by (auto simp: createErrorMessage_def Let_def bind_eq_Some_conv unlogged_def
      dest!: call_local_unlogged split: if_splits)

lemma destroySocket_unlogged:
  "destroySocket V pp s = Some (pp', s') \<Longrightarrow> unlogged s s'"
  by (auto simp: destroySocket_def bind_eq_Some_conv unlogged_def
      dest!: call_unlogged delete_unlogged split: if_splits)

lemma make_peer_unlogged:
  assumes "make_peer V a c s = Some (pp, s')"
  shows "unlogged s s'" "m_connection_id pp = c" "m_valid pp" "\<not> m_to_be_deleted pp"
    "m_socket pp = Some a"
  using assms
  by (auto simp: make_peer_def call_query_def bind_eq_Some_conv unlogged_def Let_def
      PeerPrivate_set_def setSocket_def setValid_def PeerPrivate_new_def)

lemma trace_inv_updates [simp]:
  "trace_inv (s\<lparr>m_listening_enabled := b\<rparr>) = trace_inv s"
  "trace_inv (s\<lparr>m_listener_available := b\<rparr>) = trace_inv s"
  "trace_inv (s\<lparr>m_changing_listener := b\<rparr>) = trace_inv s"
  "trace_inv (s\<lparr>m_wakeup_listen_thread := b\<rparr>) = trace_inv s"
  "trace_inv (s\<lparr>m_listenThread := lp\<rparr>) = trace_inv s"
  "trace_inv (s\<lparr>m_sendThread := sp\<rparr>) = trace_inv s"
  "trace_inv (s\<lparr>m_potential_peers := q\<rparr>) = trace_inv s"
  "trace_inv (s\<lparr>m_data_to_send := d\<rparr>) = trace_inv s"
  "trace_inv (s\<lparr>world := w\<rparr>) = trace_inv s"
  "trace_inv (s\<lparr>m_send_thread_running := b\<rparr>) = trace_inv s"
  by (simp_all add: trace_inv_def)

text \<open>The connect thread at a point where nothing is pending, and at the one where something is.\<close>

lemma trace_inv_connect:
  "trace_inv s \<Longrightarrow> pending cp = None \<Longrightarrow> trace_inv (s\<lparr>m_connectThread := cp\<rparr>)"
  by (auto simp: trace_inv_def dest: trace_drop)

lemma connect_notify_trace:
  assumes t: "trace_inv s" and pc: "m_connectThread s = C_Notify i n pr"
    and cp: "pending cp = None"
  shows "trace_inv ((connect_notify pr s)\<lparr>m_connectThread := cp\<rparr>)"
proof -
  have ok: "trace_ok (m_peers s) (events s) (m_connection_counter s) (Some (m_connection_id pr))"
    using t pc by (simp add: trace_inv_def)
  show ?thesis
    using trace_drop [OF ok] trace_late [OF ok, of "ConnectedToNewPeer _ pr"] cp
    by (simp add: connect_notify_def fire_def emit_def trace_inv_def split: option.split)
qed

lemma trace_inv_emit [simp]: "ev_peer e = None \<Longrightarrow> trace_inv s \<Longrightarrow> trace_inv (emit e s)"
  by (simp add: trace_inv_def emit_def trace_no_peer)

lemma trace_inv_update_peer [simp]:
  "trace_inv (update_peer k (scheduleDelete dt) s) = trace_inv s"
  "trace_inv (update_peer k (setErrorMessage m) s) = trace_inv s"
  by (simp_all add: trace_inv_def update_peer_def trace_map_entry)

lemma start_listening_trace:
  "start_listening V s = Some s' \<Longrightarrow> trace_inv s \<Longrightarrow> trace_inv s'"
  by (auto simp: start_listening_def bind_eq_Some_conv Let_def unloggedD(4)
      dest!: call_unlogged createErrorMessage_unlogged split: if_splits option.splits)

lemma stop_listening_trace: "stop_listening V s = Some (c, s') \<Longrightarrow> trace_inv s \<Longrightarrow> trace_inv s'"
  by (auto simp: stop_listening_def bind_eq_Some_conv Let_def unloggedD(4) dest!: call_unlogged)

lemma fail_peer_trace: "fail_peer V k b sock s = Some s' \<Longrightarrow> trace_inv s \<Longrightarrow> trace_inv s'"
  by (auto simp: fail_peer_def bind_eq_Some_conv Let_def unloggedD(4)
      dest!: createErrorMessage_unlogged)

lemma receive_peer_trace:
  assumes r: "receive_peer V k s = Some s'" and t: "trace_inv s"
  shows "trace_inv s'"
proof -
  obtain pp where pp: "map_of (m_peers s) k = Some pp"
    using r by (auto simp: receive_peer_def bind_eq_Some_conv)
  have ok: "trace_inv (fire c (\<lambda>c. Received c pp d) s1)" if "unlogged s s1" for c d s1
    using t trace_active [OF _ pp, of _ _ _ "Received (the c) pp d"] unloggedD [OF that]
    by (cases c) (auto simp: trace_inv_def fire_def emit_def)
  have rest: "trace_inv s'"
    if "(case res of
       RR_OK \<Rightarrow> Some (fire (m_callbackReceived (m_callbacks s1)) (\<lambda>c. Received c pp d) s1)
     | ERROR_NO_CONNECTION \<Rightarrow> fail_peer V k ''Socket is not connected.'' None s1
     | ERROR_IS_LISTENER \<Rightarrow> fail_peer V k ''Socket is a listener.'' None s1
     | ERROR_PEER_DISCONNECTED \<Rightarrow> Some (update_peer k (scheduleDelete PEER_DISCONNECTED_THEMSELF) s1)
     | ERROR_SYSTEM \<Rightarrow> fail_peer V k ''Failed to receive.'' (getSocket pp) s1
     | ERROR_NOTHING_RECEIVED \<Rightarrow> Some s1) = Some s'" "unlogged s s1" for res d s1
    using that(1) t ok [OF that(2)] unloggedD(4) [OF that(2)] fail_peer_trace
    by (cases res) auto
  show ?thesis
    using r t pp
    by (auto simp: receive_peer_def bind_eq_Some_conv Let_def
        dest!: call_unlogged rest dest: fail_peer_trace split: if_splits)
qed

lemma receive_loop_trace: "receive_loop V ks s = Some s' \<Longrightarrow> trace_inv s \<Longrightarrow> trace_inv s'"
  by (induction ks arbitrary: s) (auto simp: bind_eq_Some_conv dest: receive_peer_trace)

lemma delete_next_trace:
  assumes d: "delete_next V s = Some s'" and t: "trace_inv s"
  shows "trace_inv s'"
proof (cases "next_scheduled (m_peers s)")
  case None
  with d t show ?thesis by (simp add: delete_next_def)
next
  case (Some p)
  obtain k pp where p: "p = (k, pp)" by (cases p)
  have mem: "(k, pp) \<in> set (m_peers s)" using next_scheduled_mem Some p by blast
  obtain x s1 where s1: "destroySocket V pp s = Some (x, s1)"
    and s': "s' = notify_closed pp (s1\<lparr>m_peers := AList.delete k (m_peers s1)\<rparr>)"
    using d by (auto simp: delete_next_def Some p bind_eq_Some_conv Let_def)
  note u = unloggedD [OF destroySocket_unlogged [OF s1]]
  have t': "trace_ok (m_peers s) (events s) (m_connection_counter s) (pending (m_connectThread s))"
    using t by (simp add: trace_inv_def)
  note close = trace_close [OF t' mem]
  show ?thesis
    unfolding s' notify_closed_def Let_def
    using trace_delete [OF t'] close [of "PeerDisconnected _ pp"] close [of "ClosedConnection _ pp"]
      close [of "FaultyConnectionClosed _ pp (m_errmsg pp)"]
    by (auto simp: fire_def emit_def trace_inv_def u)
qed

text \<open>Registration by the listen thread, with its announcement.\<close>

lemma accepted_new_trace:
  assumes a: "accepted_new V so s = Some s'" and t: "trace_inv s"
    and c: "m_connection_counter s \<noteq> - 1"
  shows "trace_inv s'"
proof -
  obtain p s0 where n: "new_object so s = (p, s0)" by fastforce
  then have s0: "m_peers s0 = m_peers s" "events s0 = events s"
    "m_connection_counter s0 = m_connection_counter s" "m_connectThread s0 = m_connectThread s"
    by (auto simp: new_object_def)
  obtain pp s1 where m: "make_peer V p (m_connection_counter s + 1)
      (s0\<lparr>m_connection_counter := m_connection_counter s + 1\<rparr>) = Some (pp, s1)"
    and s': "s' = fire (m_callbackNewPeerConnected (m_callbacks s1)) (\<lambda>c. NewPeerConnected c pp)
      (s1\<lparr>m_peers := umap_insert (m_connection_counter s + 1) pp (m_peers s1)\<rparr>)"
    using a by (auto simp: accepted_new_def n Let_def bind_eq_Some_conv s0)
  note pp = make_peer_unlogged(2,3) [OF m]
  note u = unloggedD [OF make_peer_unlogged(1) [OF m]]
  have "trace_ok (m_peers s) (events s) (m_connection_counter s) (pending (m_connectThread s))"
    using t by (simp add: trace_inv_def)
  note trace_register(1) [OF this c pp] trace_announce [OF this c pp, of "NewPeerConnected _ pp"]
  then show ?thesis
    unfolding s' using pp
    by (auto simp: trace_inv_def fire_def emit_def u s0 split: option.split)
qed

lemma accept_peer_trace:
  assumes a: "accept_peer V s = Some s'" and t: "trace_inv s" and c: "m_connection_counter s \<noteq> - 1"
  shows "trace_inv s'"
proof -
  have none: "accepted_none V s1 = Some s' \<Longrightarrow> trace_inv s1 \<Longrightarrow> trace_inv s'" for s1
    by (auto simp: accepted_none_def bind_eq_Some_conv unloggedD(4) split: if_splits option.splits
        dest!: call_local_unlogged createErrorMessage_unlogged)
  have new: "trace_inv s'" if "accepted_new V so s1 = Some s'" "unlogged s s1" for so s1
    using accepted_new_trace [OF that(1)] unloggedD [OF that(2)] t c by simp
  show ?thesis
    using a t
    by (auto simp: accept_peer_def bind_eq_Some_conv unloggedD(4) dest!: call_unlogged none
        split: if_splits option.splits intro: new)
qed

lemma poll_trace:
  "poll V s = Some s' \<Longrightarrow> trace_inv s \<Longrightarrow> m_connection_counter s \<noteq> - 1 \<Longrightarrow> trace_inv s'"
  by (auto simp: poll_def bind_eq_Some_conv
      dest!: accept_peer_trace receive_loop_trace delete_next_trace)

lemma listenThread_trace:
  "listenThread_step V s = Some s' \<Longrightarrow> trace_inv s \<Longrightarrow> m_connection_counter s \<noteq> - 1 \<Longrightarrow>
     trace_inv s'"
  by (auto simp: listenThread_step_def bind_eq_Some_conv fire_def split: listen_pc.splits option.splits
      dest: start_listening_trace stop_listening_trace poll_trace)

text \<open>Filing by the connect thread, which is then about to announce the connection.\<close>

lemma connect_done_trace:
  assumes d: "connect_done V a s = Some (pr, s')" and t: "trace_inv s"
    and c: "m_connection_counter s \<noteq> - 1"
  shows "trace_inv (s'\<lparr>m_connectThread := C_Notify i n pr\<rparr>)"
proof -
  obtain s1 where m: "make_peer V a (m_connection_counter s + 1)
      (s\<lparr>m_connection_counter := m_connection_counter s + 1\<rparr>) = Some (pr, s1)"
    and s': "s' = s1\<lparr>m_peers := umap_insert (m_connection_counter s + 1) pr (m_peers s1)\<rparr>"
    using d by (auto simp: connect_done_def Let_def bind_eq_Some_conv)
  note pp = make_peer_unlogged(2,3) [OF m]
  note u = unloggedD [OF make_peer_unlogged(1) [OF m]]
  have "trace_ok (m_peers s) (events s) (m_connection_counter s) None"
    using t by (auto simp: trace_inv_def intro: trace_drop)
  from trace_file [OF this c pp] show ?thesis by (simp add: trace_inv_def s' u pp)
qed

lemma connect_failed_trace: "connect_failed V a ip port s = Some s' \<Longrightarrow> trace_inv s \<Longrightarrow> trace_inv s'"
  by (auto simp: connect_failed_def bind_eq_Some_conv unloggedD(4) split: option.splits
      dest!: createErrorMessage_unlogged delete_unlogged)

lemma try_connect_trace:
  "try_connect V T a ip port e s = Some (x, s') \<Longrightarrow> trace_inv s \<Longrightarrow> trace_inv s'"
  by (auto simp: try_connect_def bind_eq_Some_conv Let_def unloggedD(4) split_beta
      dest!: call_unlogged call_local_unlogged)

lemma begin_connect_trace: "begin_connect i n s = Some s' \<Longrightarrow> trace_inv s \<Longrightarrow> trace_inv s'"
  by (auto simp: begin_connect_def create_socket_def new_object_def Let_def bind_eq_Some_conv
      trace_inv_def split_beta split: option.splits list.splits intro: trace_drop)

lemma connectThread_trace:
  assumes st: "connectThread_step V T s = Some s'" and t: "trace_inv s"
    and c: "m_connection_counter s \<noteq> - 1"
  shows "trace_inv s'"
proof (cases "m_connectThread s")
  case (C_For i n)
  with st t show ?thesis
    by (auto simp: connectThread_step_def trace_inv_connect split: if_splits
        dest!: begin_connect_trace)
next
  case (C_Try i n a ip port e)
  with st t show ?thesis
    by (auto simp: connectThread_step_def bind_eq_Some_conv trace_inv_connect
        simp del: split_paired_Ex dest!: try_connect_trace)
next
  case (C_Failed i n a ip port)
  with st t show ?thesis
    by (auto simp: connectThread_step_def bind_eq_Some_conv trace_inv_connect
        dest!: connect_failed_trace)
next
  case (C_Connected i n a)
  with st t c show ?thesis
    by (auto simp: connectThread_step_def bind_eq_Some_conv dest!: connect_done_trace)
next
  case (C_Notify i n pr)
  with st connect_notify_trace [OF t C_Notify] show ?thesis by (auto simp: connectThread_step_def)
next
  case C_Pop
  with st t show ?thesis
    by (auto simp: connectThread_step_def bind_eq_Some_conv pop_potential_peer_def trace_inv_connect
        split: list.splits)
qed (use st t in \<open>auto simp: connectThread_step_def Let_def trace_inv_connect split: if_splits\<close>)

lemma send_front_trace:
  assumes f: "send_front V s = Some s'" and t: "trace_inv s"
  shows "trace_inv s'"
proof -
  have ok: "trace_inv (fire c (\<lambda>c. Sent c pp n) s1)"
    if "unlogged s s1" "map_of (m_peers s) k = Some pp" for c k n s1 pp
  proof -
    have "trace_ok (m_peers s) (events s @ [Sent k' pp n]) (m_connection_counter s)
        (pending (m_connectThread s))" for k'
      using t by (intro trace_active [OF _ that(2)]) (simp_all add: trace_inv_def)
    then show ?thesis
      using t unloggedD [OF that(1)] by (simp add: trace_inv_def fire_def emit_def split: option.split)
  qed
  show ?thesis
  proof (cases "m_data_to_send s")
    case Nil
    with f t show ?thesis by (simp add: send_front_def)
  next
    case (Cons d rest)
    obtain k dat where d: "d = (k, dat)" by (cases d)
    show ?thesis
    proof (cases "map_of (m_peers s) k")
      case None
      with f t show ?thesis
        by (auto simp: send_front_def Cons d bind_eq_Some_conv unloggedD(4) split: option.splits
            dest!: createErrorMessage_unlogged)
    next
      case (Some pp)
      show ?thesis
      proof (cases "m_to_be_deleted pp")
        case True
        with f t Some show ?thesis by (auto simp: send_front_def Cons d)
      next
        case False
        obtain n s1 where s1: "call (m_socket pp) (vsend V dat) s = Some (n, s1)"
          using f Some False by (auto simp: send_front_def Cons d bind_eq_Some_conv)
        note u = call_unlogged [OF s1]
        show ?thesis
          using f Some False s1 ok [OF u Some] t unloggedD(4) [OF u]
          by (auto simp: send_front_def Cons d bind_eq_Some_conv Let_def split: if_splits
              dest!: createErrorMessage_unlogged dest: unloggedD(4))
      qed
    qed
  qed
qed

lemma sendThread_trace: "sendThread_step V s = Some s' \<Longrightarrow> trace_inv s \<Longrightarrow> trace_inv s'"
  by (auto simp: sendThread_step_def bind_eq_Some_conv split: send_pc.splits if_splits
      dest: send_front_trace)

section \<open>The whole node\<close>

lemma trace_inv_view:
  "trace_inv s \<Longrightarrow> m_peers s' = m_peers s \<Longrightarrow> events s' = events s \<Longrightarrow>
     m_connection_counter s' = m_connection_counter s \<Longrightarrow>
     pending (m_connectThread s') = pending (m_connectThread s) \<Longrightarrow> trace_inv s'"
  by (simp add: trace_inv_def)

lemma disconnectAll_trace: "trace_inv s \<Longrightarrow> trace_inv (disconnectAll s)"
proof -
  have "peers_inv (map (\<lambda>(k, pp). (k, scheduleDelete dt pp)) ps) = peers_inv ps"
    "keys_of (map (\<lambda>(k, pp). (k, scheduleDelete dt pp)) ps) = keys_of ps" for dt ps
    by (auto simp: peers_inv_def comp_def split_beta)
  then show "trace_inv s \<Longrightarrow> trace_inv (disconnectAll s)"
    by (simp add: trace_inv_def trace_ok_def disconnectAll_def del: map_map)
qed

lemma setListener_unlogged:
  assumes "setListener V p s = Some s'"
  shows "unlogged s s'"
proof (cases p)
  case None
  with assms show ?thesis by (simp add: setListener_def)
next
  case (Some a)
  obtain x s1 s2 where 1: "call (m_listener s) (\<lambda>so w. ((), vclose V so w)) s = Some (x, s1)"
    "delete_object V (m_listener s1) s1 = Some s2"
    and s': "s' = (let s = s2\<lparr>m_listener := p\<rparr>
      in if m_listening_enabled s then s\<lparr>m_changing_listener := True\<rparr> else s)"
    using assms by (auto simp: setListener_def Some bind_eq_Some_conv Let_def)
  have "unlogged s s2" using 1 by (blast intro: unlogged_trans call_unlogged delete_unlogged)
  then show ?thesis by (simp add: s' unlogged_def Let_def)
qed

lemma startListen_unlogged: "startListenThreadIfNotRunning s = Some s' \<Longrightarrow> unlogged s s'"
  by (auto simp: startListenThreadIfNotRunning_def Let_def unlogged_def split: if_splits)

lemma doListen_unlogged: "doListen port ipv s = Some s' \<Longrightarrow> unlogged s s'"
  by (auto simp: doListen_def Let_def unlogged_def dest!: startListen_unlogged split: if_splits)

lemma connectTo_unlogged: "connectTo ip port s = Some s' \<Longrightarrow> unlogged s s'"
  by (auto simp: connectTo_def Let_def unlogged_def bind_eq_Some_conv
      dest!: startListen_unlogged split: if_splits)

lemma sendData_trace: "sendData V pr d s = Some s' \<Longrightarrow> trace_inv s \<Longrightarrow> trace_inv s'"
  by (auto simp: sendData_def Let_def bind_eq_Some_conv unloggedD(4)
      dest!: createErrorMessage_unlogged split: if_splits option.splits)

lemma api_trace:
  assumes a: "api V c s = Some s'" and t: "trace_inv s"
  shows "trace_inv s'"
proof (cases c)
  case (SetListener so)
  obtain p s0 where n: "new_object so s = (p, s0)" by fastforce
  then have "unlogged s s0" by (auto simp: new_object_def unlogged_def)
  then show ?thesis
    using a t setListener_unlogged unloggedD(4) unlogged_trans
    by (simp add: api_def SetListener n) blast
next
  case (SetReceiveBufferSize n)
  with a t show ?thesis
    by (auto simp: api_def setReceiveBufferSize_def bind_eq_Some_conv unloggedD(4)
        dest!: call_local_unlogged split: if_splits)
next
  case (DoListen port ipv)
  with a t show ?thesis by (auto simp: api_def unloggedD(4) dest!: doListen_unlogged)
next
  case (ConnectTo ip port)
  with a t show ?thesis by (auto simp: api_def unloggedD(4) dest!: connectTo_unlogged)
next
  case (SendData pr d)
  with a t show ?thesis by (auto simp: api_def dest: sendData_trace)
next
  case (DisconnectPeer pr)
  with a t show ?thesis
    by (auto simp: api_def disconnectPeer_def bind_eq_Some_conv split: if_splits)
next
  case DisconnectAll
  with a t show ?thesis by (auto simp: api_def disconnectAll_trace)
next
  case (SetSocketCreateFunction f)
  with a t show ?thesis
    by (cases f) (auto simp: api_def setSocketInterfaceCreateFunction_def intro: trace_inv_view)
qed (use a t in \<open>auto simp: api_def stopListening_def setConnectTimeout_def
      setSleepTime_def registrations trace_inv_def\<close>)

lemma dtor_end_trace: "dtor_end V s = Some s' \<Longrightarrow> trace_inv s \<Longrightarrow> trace_inv s'"
  using disconnectAll_trace [of s]
  by (auto simp: dtor_end_def Let_def bind_eq_Some_conv trace_inv_def unlogged_def
      dest!: call_unlogged delete_unlogged)

lemma rehash_trace:
  assumes ps: "mset ps = mset (m_peers s)" and t: "trace_inv s"
  shows "trace_inv (s\<lparr>m_peers := ps\<rparr>)"
proof -
  have "distinct (keys_of ps) = distinct (keys_of (m_peers s))"
    by (rule mset_eq_imp_distinct_iff) (simp add: ps)
  then show ?thesis
    using t mset_eq_setD [OF ps] by (simp add: trace_inv_def trace_ok_def peers_inv_def)
qed

lemma other_nodes_trace:
  assumes c: "m_connection_counter s \<le> c" and t: "trace_inv s"
  shows "trace_inv (s\<lparr>m_connection_counter := c\<rparr>)"
  using t order_trans [OF _ c] unfolding trace_inv_def trace_ok_def by simp

lemma node_step_trace:
  assumes "node_step V T s s'" and t: "trace_inv s" and c: "m_connection_counter s \<noteq> - 1"
  shows "trace_inv s'"
  using assms(1)
proof cases
  case listen_step
  then show ?thesis using listenThread_trace [OF _ t c] by blast
next
  case connect_step
  then show ?thesis using connectThread_trace [OF _ t c] by blast
next
  case send_step
  then show ?thesis using sendThread_trace [OF _ t] by blast
next
  case (api_step c)
  then show ?thesis using api_trace [OF _ t] by blast
next
  case dtor_end_step
  then show ?thesis using dtor_end_trace [OF _ t] by blast
next
  case (rehash_step ps)
  then show ?thesis using rehash_trace [OF _ t] by blast
next
  case (other_nodes_step c)
  then show ?thesis using other_nodes_trace [OF _ t] by blast
qed (use t in \<open>auto simp: dtor_begin_def dtor_send_def dtor_listen_def trace_inv_def\<close>)

text \<open>The states reached without a registration that wraps the counter around.\<close>

inductive unwrapped ::
  "('s, 'w) ISocket \<Rightarrow> (int \<Rightarrow> 'w \<Rightarrow> int \<times> 'w) \<Rightarrow> ('s, 'w) node \<Rightarrow> bool"
  for V :: "('s, 'w) ISocket" and T :: "int \<Rightarrow> 'w \<Rightarrow> int \<times> 'w" where
  unwrapped_init: "initial s \<Longrightarrow> unwrapped V T s"
| unwrapped_step:
    "unwrapped V T s \<Longrightarrow> m_connection_counter s \<noteq> - 1 \<Longrightarrow> node_step V T s s' \<Longrightarrow>
     unwrapped V T s'"

lemma create_socket_unlogged: "create_socket s = (p, s') \<Longrightarrow> unlogged s s'"
  by (auto simp: create_socket_def new_object_def Let_def unlogged_def split: prod.splits option.splits)

lemma trace_inv_initial:
  assumes "initial s"
  shows "trace_inv s"
proof -
  obtain f ipv heap nx w c ord where "s = (TcpNodePrivate_new f ipv heap nx w c)\<lparr>m_arg_order := ord\<rparr>"
    using assms by (auto simp: initial_def)
  then show ?thesis
    unfolding TcpNodePrivate_new_def Let_def
    by (auto simp: trace_inv_def trace_ok_def peers_inv_def unlogged_def
        dest!: create_socket_unlogged split: prod.splits)
qed

lemma unwrapped_trace: "unwrapped V T s \<Longrightarrow> trace_inv s"
  by (induction rule: unwrapped.induct) (auto intro: trace_inv_initial node_step_trace)

lemma unwrapped_reachable: "unwrapped V T s \<Longrightarrow> reachable V T s"
  by (induction rule: unwrapped.induct) (auto intro: reachable.intros)

text \<open>A schedule of fewer actions than the counter has values left does not wrap it.\<close>

lemma run_unwrapped:
  "unwrapped V T s \<Longrightarrow> list_all action_allowed xs \<Longrightarrow>
     (\<forall>n < length xs. \<forall>s1. run_schedule V T (take n xs) s = Some s1 \<longrightarrow>
        m_connection_counter s1 \<noteq> - 1) \<Longrightarrow>
     run_schedule V T xs s = Some s' \<Longrightarrow> unwrapped V T s'"
proof (induction xs arbitrary: s)
  case (Cons x xs)
  from Cons.prems(4) obtain s1 where s1: "perform V T x s = Some s1"
    and s': "run_schedule V T xs s1 = Some s'"
    by (auto simp: bind_eq_Some_conv)
  have c: "m_connection_counter s \<noteq> - 1" using Cons.prems(3) by force
  have "unwrapped V T s1"
    using Cons.prems(1,2) c s1 by (auto intro: unwrapped_step perform_step)
  then show ?case
  proof (rule Cons.IH)
    show "\<forall>n < length xs. \<forall>s2. run_schedule V T (take n xs) s1 = Some s2 \<longrightarrow>
        m_connection_counter s2 \<noteq> - 1"
    proof (intro allI impI)
      fix n s2 assume "n < length xs" "run_schedule V T (take n xs) s1 = Some s2"
      then show "m_connection_counter s2 \<noteq> - 1"
        using Cons.prems(3) [rule_format, of "Suc n" s2] s1 by simp
    qed
  qed (use Cons.prems(2) s' in auto)
qed simp

end
