(* ===== verification/NodeRefine.thy ===== *)
theory NodeRefine
  imports NodeTrace
begin

text \<open>
  The peer table as a set of connections with a life cycle, and the proof that the node refines
  it: a connection starts active, under the next id of the counter; it fails or is closed, which
  schedules it with a reason; and it leaves only after that. Every step of the node is one step
  of this machine, except the listen thread's round, which accepts, receives and deletes while
  it holds the mutex: there each of the three parts is.
\<close>

section \<open>The abstract connections\<close>

datatype conn = Active | Closing DisconnectType

type_synonym conns = "u64 \<Rightarrow> conn option"

text \<open>The table and the counter the last id was taken from, which the nodes of a process share.\<close>

type_synonym table = "conns \<times> u64"

datatype conn_act =
    Stays | Advances | Opens | Fails u64 DisconnectType | Closes u64 | ClosesAll | Removes u64

inductive conn_step :: "conn_act \<Rightarrow> table \<Rightarrow> table \<Rightarrow> bool" where
  conn_stays: "conn_step Stays t t"
| conn_advances: "c \<le> c' \<Longrightarrow> conn_step Advances (t, c) (t, c')"
| conn_opens: "c < c + 1 \<Longrightarrow> t (c + 1) = None \<Longrightarrow> conn_step Opens (t, c) (t(c + 1 \<mapsto> Active), c + 1)"
| conn_fails:
    "t k = Some Active \<Longrightarrow> dt \<noteq> PEER_WAS_DISCONNECTED \<Longrightarrow>
     conn_step (Fails k dt) (t, c) (t(k \<mapsto> Closing dt), c)"
| conn_closes:
    "t k \<noteq> None \<Longrightarrow> conn_step (Closes k) (t, c) (t(k \<mapsto> Closing PEER_WAS_DISCONNECTED), c)"
| conn_closes_all:
    "conn_step ClosesAll (t, c) (\<lambda>k. map_option (\<lambda>_. Closing PEER_WAS_DISCONNECTED) (t k), c)"
| conn_removes: "t k = Some (Closing dt) \<Longrightarrow> conn_step (Removes k) (t, c) (t(k := None), c)"

text \<open>Several failures, of different connections.\<close>

definition conn_failures :: "table \<Rightarrow> table \<Rightarrow> bool" where
  "conn_failures t t' \<longleftrightarrow> snd t' = snd t \<and>
     (\<forall>k. fst t' k = fst t k \<or>
        fst t k = Some Active \<and> (\<exists>dt. dt \<noteq> PEER_WAS_DISCONNECTED \<and> fst t' k = Some (Closing dt)))"

lemma conn_failures_refl [simp]: "conn_failures t t"
  by (simp add: conn_failures_def)

lemma conn_failures_trans: "conn_failures t t' \<Longrightarrow> conn_failures t' t'' \<Longrightarrow> conn_failures t t''"
  unfolding conn_failures_def by (metis conn.distinct(1) option.inject)

lemma conn_step_failures: "conn_step (Fails k dt) t t' \<Longrightarrow> conn_failures t t'"
  by (cases rule: conn_step.cases) (auto simp: conn_failures_def split: if_splits)

text \<open>An id that has been given out and is not in use is never used again.\<close>

definition no_reuse :: "table \<Rightarrow> table \<Rightarrow> bool" where
  "no_reuse t t' \<longleftrightarrow> snd t \<le> snd t' \<and> (\<forall>k \<le> snd t. fst t k = None \<longrightarrow> fst t' k = None)"

lemma no_reuse_trans: "no_reuse t t' \<Longrightarrow> no_reuse t' t'' \<Longrightarrow> no_reuse t t''"
  by (auto simp: no_reuse_def)

lemma conn_step_no_reuse: "conn_step l t t' \<Longrightarrow> no_reuse t t'"
  by (induction rule: conn_step.induct) (auto simp: no_reuse_def)

lemma conn_failures_no_reuse: "conn_failures t t' \<Longrightarrow> no_reuse t t'"
  unfolding conn_failures_def no_reuse_def by (metis option.distinct(1) order_refl)

section \<open>The table of a node\<close>

definition status :: "PeerPrivate \<Rightarrow> conn" where
  "status pp = (if m_to_be_deleted pp then Closing (m_disconn pp) else Active)"

definition conns_of :: "PeerList \<Rightarrow> conns" where
  "conns_of ps k = map_option status (map_of ps k)"

abbreviation conns :: "('s, 'w) node \<Rightarrow> conns" where
  "conns s \<equiv> conns_of (m_peers s)"

definition table :: "('s, 'w) node \<Rightarrow> table" where
  "table s = (conns s, m_connection_counter s)"

text \<open>A piece of the node that does at most one of the acts \<open>L\<close>.\<close>

definition acts_as :: "conn_act set \<Rightarrow> ('s, 'w) node \<Rightarrow> ('s, 'w) node \<Rightarrow> bool" where
  "acts_as L s s' \<longleftrightarrow> (\<exists>l \<in> insert Stays L. conn_step l (table s) (table s'))"

lemma acts_as_same: "table s' = table s \<Longrightarrow> acts_as L s s'"
  by (auto simp: acts_as_def intro: conn_stays)

lemma acts_asI: "conn_step l (table s) (table s') \<Longrightarrow> l \<in> L \<Longrightarrow> acts_as L s s'"
  by (auto simp: acts_as_def)

section \<open>The pieces\<close>

lemma status_updates [simp]:
  "status (scheduleDelete dt pp) = Closing dt"
  "status (setErrorMessage m pp) = status pp"
  by (simp_all add: status_def)

lemma conns_setErrorMessage [simp]:
  "conns_of (AList.map_entry k (setErrorMessage m) ps) = conns_of ps"
  by (rule ext) (simp add: conns_of_def map_of_map_entry split: option.split)

lemma conns_schedule:
  "map_of ps k = Some pp \<Longrightarrow>
     conns_of (AList.map_entry k (scheduleDelete dt) ps) = (conns_of ps)(k \<mapsto> Closing dt)"
  by (rule ext) (simp add: conns_of_def map_of_map_entry)

lemma conns_delete: "conns_of (AList.delete k ps) = (conns_of ps)(k := None)"
  by (rule ext) (simp add: conns_of_def delete_conv')

lemma table_unlogged: "unlogged s s' \<Longrightarrow> table s' = table s"
  by (simp add: table_def unlogged_def)

lemma table_threads [simp]:
  "table (s\<lparr>m_connectThread := cp\<rparr>) = table s" "table (s\<lparr>m_listenThread := lp\<rparr>) = table s"
  "table (s\<lparr>m_sendThread := sp\<rparr>) = table s" "table (s\<lparr>m_potential_peers := q\<rparr>) = table s"
  "table (s\<lparr>m_data_to_send := d\<rparr>) = table s" "table (s\<lparr>m_wakeup_listen_thread := b\<rparr>) = table s"
  "table (s\<lparr>m_listening_enabled := b\<rparr>) = table s" "table (s\<lparr>world := w\<rparr>) = table s"
  "table (s\<lparr>m_owner := op\<rparr>) = table s" "table (s\<lparr>m_listener_available := b\<rparr>) = table s"
  "table (s\<lparr>m_changing_listener := b\<rparr>) = table s"
  by (simp_all add: table_def)

lemma table_updates [simp]:
  "table (emit e s) = table s" "table (fire c f s) = table s"
  "table (update_peer k (setErrorMessage m) s) = table s"
  "table (notify_closed temp s) = table s"
  by (simp_all add: table_def emit_def fire_def update_peer_def notify_closed_def Let_def
      split: option.split)

lemma conns_emit [simp]: "m_peers (emit e s) = m_peers s" "m_peers (fire c f s) = m_peers s"
  by (simp_all add: emit_def fire_def split: option.split)

lemma notify_closed_peers [simp]: "m_peers (notify_closed temp s) = m_peers s"
  by (simp add: notify_closed_def Let_def)

lemma notify_closed_counter [simp]:
  "m_connection_counter (notify_closed temp s) = m_connection_counter s"
  by (simp add: notify_closed_def Let_def fire_def emit_def split: option.split)

lemma conns_update_error [simp]: "conns (update_peer k (setErrorMessage m) s) = conns s"
  by (simp add: update_peer_def)

lemma unlogged_conns: "unlogged s s' \<Longrightarrow> conns s' = conns s"
  by (simp add: unlogged_def)

lemma schedule_fails:
  assumes "map_of (m_peers s) k = Some pp" and "\<not> m_to_be_deleted pp" and "dt \<noteq> PEER_WAS_DISCONNECTED"
  shows "acts_as (range (Fails k)) s (update_peer k (scheduleDelete dt) s)"
proof (rule acts_asI)
  have "conns s k = Some Active" using assms(1,2) by (simp add: conns_of_def status_def)
  from conn_fails [of "conns s" k dt, OF this assms(3)]
  show "conn_step (Fails k dt) (table s) (table (update_peer k (scheduleDelete dt) s))"
    by (simp add: table_def update_peer_def conns_schedule [OF assms(1)])
qed simp

lemma schedule_closes:
  assumes "map_of (m_peers s) k = Some pp"
  shows "acts_as (range Closes) s (update_peer k (scheduleDelete PEER_WAS_DISCONNECTED) s)"
proof (rule acts_asI)
  have "conns s k \<noteq> None" using assms by (simp add: conns_of_def)
  from conn_closes [of "conns s" k, OF this]
  show "conn_step (Closes k) (table s) (table (update_peer k (scheduleDelete PEER_WAS_DISCONNECTED) s))"
    by (simp add: table_def update_peer_def conns_schedule [OF assms])
qed simp

text \<open>Receiving.\<close>

lemma fail_peer_acts:
  assumes f: "fail_peer V k b sock s = Some s'" and pp: "map_of (m_peers s) k = Some pp"
    and a: "\<not> m_to_be_deleted pp"
  shows "acts_as (range (Fails k)) s s'"
proof -
  obtain m s1 where s1: "createErrorMessage V ''Receive Error'' b sock
      (update_peer k (scheduleDelete PEER_WAS_DISCONNECTED_DUE_TO_ERROR) s) = Some (m, s1)"
    and s': "s' = update_peer k (setErrorMessage m) s1"
    using f by (auto simp: fail_peer_def bind_eq_Some_conv Let_def)
  have "table s' = table (update_peer k (scheduleDelete PEER_WAS_DISCONNECTED_DUE_TO_ERROR) s)"
    using table_unlogged [OF createErrorMessage_unlogged [OF s1]] by (simp add: s')
  then show ?thesis using schedule_fails [OF pp a] by (simp add: acts_as_def)
qed

lemma receive_peer_acts:
  assumes r: "receive_peer V k s = Some s'"
  shows "acts_as (range (Fails k)) s s'"
proof -
  obtain pp where pp: "map_of (m_peers s) k = Some pp"
    using r by (auto simp: receive_peer_def bind_eq_Some_conv)
  show ?thesis
  proof (cases "m_to_be_deleted pp")
    case True
    with r pp show ?thesis by (auto simp: receive_peer_def intro: acts_as_same)
  next
    case False
    have rest: "acts_as (range (Fails k)) s s'"
      if "(case res of
         RR_OK \<Rightarrow> Some (fire (m_callbackReceived (m_callbacks s1)) (\<lambda>c. Received c pp d) s1)
       | ERROR_NO_CONNECTION \<Rightarrow> fail_peer V k ''Socket is not connected.'' None s1
       | ERROR_IS_LISTENER \<Rightarrow> fail_peer V k ''Socket is a listener.'' None s1
       | ERROR_PEER_DISCONNECTED \<Rightarrow> Some (update_peer k (scheduleDelete PEER_DISCONNECTED_THEMSELF) s1)
       | ERROR_SYSTEM \<Rightarrow> fail_peer V k ''Failed to receive.'' (getSocket pp) s1
       | ERROR_NOTHING_RECEIVED \<Rightarrow> Some s1) = Some s'" "unlogged s s1" for res d s1
    proof -
      have pp1: "map_of (m_peers s1) k = Some pp" "table s1 = table s"
        using pp unloggedD(1) [OF that(2)] table_unlogged [OF that(2)] by simp_all
      have "acts_as (range (Fails k)) s1 s'"
        using that(1) fail_peer_acts [of V k _ _ s1 s', OF _ pp1(1) False]
          schedule_fails [OF pp1(1) False]
        by (cases res) (auto intro: acts_as_same)
      then show ?thesis by (simp add: acts_as_def pp1(2))
    qed
    show ?thesis
      using r pp False
      by (auto simp: receive_peer_def bind_eq_Some_conv Let_def
          dest!: call_unlogged rest dest: fail_peer_acts split: if_splits)
  qed
qed

lemma receive_loop_failures: "receive_loop V ks s = Some s' \<Longrightarrow> conn_failures (table s) (table s')"
proof (induction ks arbitrary: s)
  case (Cons k ks)
  then obtain s1 where s1: "receive_peer V k s = Some s1" "receive_loop V ks s1 = Some s'"
    by (auto simp: bind_eq_Some_conv)
  have "conn_failures (table s) (table s1)"
    using receive_peer_acts [OF s1(1)]
    by (auto simp: acts_as_def elim: conn_step_failures conn_step.cases)
  with Cons.IH [OF s1(2)] show ?case by (rule conn_failures_trans [rotated])
qed simp

text \<open>Deleting.\<close>

lemma delete_next_acts:
  assumes d: "delete_next V s = Some s'" and inv: "peers_inv (m_peers s)"
  shows "acts_as (range Removes) s s'"
proof (cases "next_scheduled (m_peers s)")
  case None
  with d show ?thesis by (auto simp: delete_next_def intro: acts_as_same)
next
  case (Some p)
  obtain k pp where p: "p = (k, pp)" by (cases p)
  have mem: "(k, pp) \<in> set (m_peers s)" "m_to_be_deleted pp"
    using next_scheduled_mem Some p by blast+
  then have "conns s k = Some (Closing (m_disconn pp))"
    using inv by (simp add: conns_of_def peers_inv_def status_def)
  moreover have "m_peers s' = AList.delete k (m_peers s) \<and>
      m_connection_counter s' = m_connection_counter s"
    using d by (auto simp: delete_next_def Some p bind_eq_Some_conv Let_def unlogged_def
        dest!: destroySocket_unlogged)
  ultimately have "conn_step (Removes k) (table s) (table s')"
    using conn_removes [of "conns s" k] by (simp add: table_def conns_delete)
  then show ?thesis by (rule acts_asI) simp
qed

text \<open>Opening: the next id is free as long as the counter does not wrap around.\<close>

lemma next_id_free:
  assumes "trace_inv s" and "m_connection_counter s \<noteq> - 1"
  shows "map_of (m_peers s) (m_connection_counter s + 1) = None"
  using assms(1) counter_next [OF assms(2)]
  by (force simp: map_of_eq_None_iff trace_inv_def trace_ok_def)

lemma insert_opens:
  assumes m: "make_peer V a (m_connection_counter s + 1) s0 = Some (pp, s1)"
    and s0: "m_peers s0 = m_peers s" "m_connection_counter s0 = m_connection_counter s + 1"
    and t: "trace_inv s" and c: "m_connection_counter s \<noteq> - 1"
    and s': "m_peers s' = umap_insert (m_connection_counter s + 1) pp (m_peers s1)"
      "m_connection_counter s' = m_connection_counter s1"
  shows "acts_as {Opens} s s'"
proof (rule acts_asI)
  let ?c = "m_connection_counter s + 1"
  note u = unloggedD [OF make_peer_unlogged(1) [OF m]]
  note free = next_id_free [OF t c]
  have "conns s' = (conns s)(?c \<mapsto> Active)"
    using free make_peer_unlogged(4) [OF m] u(1) s0(1)
    by (intro ext) (simp add: s' conns_of_def umap_insert_def status_def)
  moreover have "m_connection_counter s' = ?c" using u(3) s0(2) by (simp add: s')
  moreover have "conns s ?c = None" using free by (simp add: conns_of_def)
  ultimately show "conn_step Opens (table s) (table s')"
    using conn_opens [OF counter_next [OF c], of "conns s"] by (simp add: table_def)
qed simp

lemma accepted_new_acts:
  assumes a: "accepted_new V so s = Some s'" and t: "trace_inv s"
    and c: "m_connection_counter s \<noteq> - 1"
  shows "acts_as {Opens} s s'"
proof -
  obtain p s0 where n: "new_object so s = (p, s0)" by fastforce
  then have s0: "m_peers s0 = m_peers s" "m_connection_counter s0 = m_connection_counter s"
    by (auto simp: new_object_def)
  let ?c = "m_connection_counter s + 1"
  obtain pp s1 where m: "make_peer V p ?c (s0\<lparr>m_connection_counter := ?c\<rparr>) = Some (pp, s1)"
    and s': "s' = fire (m_callbackNewPeerConnected (m_callbacks s1)) (\<lambda>c. NewPeerConnected c pp)
      (s1\<lparr>m_peers := umap_insert ?c pp (m_peers s1)\<rparr>)"
    using a by (auto simp: accepted_new_def n Let_def bind_eq_Some_conv s0)
  show ?thesis
    by (rule insert_opens [OF m _ _ t c])
      (simp_all add: s' s0 fire_def emit_def split: option.split)
qed

lemma accepted_none_table: "accepted_none V s = Some s' \<Longrightarrow> table s' = table s"
  by (auto simp: accepted_none_def bind_eq_Some_conv split: if_splits option.splits
      dest!: call_local_unlogged createErrorMessage_unlogged) (auto simp: table_def unlogged_def)

lemma start_listening_table: "start_listening V s = Some s' \<Longrightarrow> table s' = table s"
  by (auto simp: start_listening_def bind_eq_Some_conv Let_def table_unlogged
      dest!: call_unlogged createErrorMessage_unlogged split: if_splits option.splits)

lemma stop_listening_table: "stop_listening V s = Some (c, s') \<Longrightarrow> table s' = table s"
  by (auto simp: stop_listening_def bind_eq_Some_conv Let_def table_unlogged
      dest!: call_unlogged)

lemma accept_peer_acts:
  assumes a: "accept_peer V s = Some s'" and t: "trace_inv s" and c: "m_connection_counter s \<noteq> - 1"
  shows "acts_as {Opens} s s'"
proof -
  have new: "acts_as {Opens} s s'" if "accepted_new V so s1 = Some s'" "unlogged s s1" for so s1
    using accepted_new_acts [OF that(1)] unloggedD [OF that(2)] table_unlogged [OF that(2)] t c
    by (simp add: acts_as_def)
  show ?thesis
    using a
    by (auto simp: accept_peer_def bind_eq_Some_conv table_unlogged split: if_splits option.splits
        dest!: call_unlogged accepted_none_table intro: new acts_as_same)
qed

text \<open>The round of the listen thread, part by part.\<close>

definition round_refines ::
  "('s, 'w) ISocket \<Rightarrow> ('s, 'w) node \<Rightarrow> ('s, 'w) node \<Rightarrow> bool" where
  "round_refines V s s' \<longleftrightarrow>
     (\<exists>s1 s2 s3.
        accept_peer V s = Some s1 \<and> acts_as {Opens} s s1 \<and>
        receive_loop V (keys_of (m_peers s1)) s1 = Some s2 \<and> conn_failures (table s1) (table s2) \<and>
        delete_next V s2 = Some s3 \<and> acts_as (range Removes) s2 s3 \<and>
        s' = s3\<lparr>m_listenThread := L_Loop\<rparr>)"

lemma acts_as_no_reuse: "acts_as L s s' \<Longrightarrow> no_reuse (table s) (table s')"
  by (auto simp: acts_as_def intro: conn_step_no_reuse)

lemma round_no_reuse:
  assumes "round_refines V s s'"
  shows "no_reuse (table s) (table s')"
proof -
  obtain s1 s2 s3 where "acts_as {Opens} s s1" "conn_failures (table s1) (table s2)"
    "acts_as (range Removes) s2 s3" and s': "s' = s3\<lparr>m_listenThread := L_Loop\<rparr>"
    using assms by (auto simp: round_refines_def)
  then have "no_reuse (table s) (table s3)"
    by (blast intro: no_reuse_trans acts_as_no_reuse conn_failures_no_reuse)
  then show ?thesis by (simp add: s')
qed

lemma poll_refines:
  assumes p: "poll V s = Some s3" and core: "core_inv s" and own: "m_owner s \<noteq> O_Destroyed"
    and V: "names_defined V" and t: "trace_inv s" and c: "m_connection_counter s \<noteq> - 1"
  shows "round_refines V s (s3\<lparr>m_listenThread := L_Loop\<rparr>)"
proof -
  obtain s1 s2 where s1: "accept_peer V s = Some s1"
    and s2: "receive_loop V (keys_of (m_peers s1)) s1 = Some s2" and s3: "delete_next V s2 = Some s3"
    using p by (auto simp: poll_def bind_eq_Some_conv)
  have "core_inv s1"
    using accept_peer_ok [OF core own V] s1 by (simp add: keeps_def)
  from receive_loop_ok [OF this subset_refl, of V] s2 have "peers_inv (m_peers s2)"
    by (simp add: keeps_keys_def keeps_def core_inv_def)
  from s1 s2 s3 accept_peer_acts [OF s1 t c] receive_loop_failures [OF s2] delete_next_acts [OF s3 this]
  show ?thesis unfolding round_refines_def by blast
qed

text \<open>The connect thread.\<close>

lemma begin_connect_table: "begin_connect i n s = Some s' \<Longrightarrow> table s' = table s"
  by (auto simp: begin_connect_def bind_eq_Some_conv split: list.splits prod.splits
      dest!: create_socket_unlogged) (simp_all add: table_def unlogged_def)

lemma try_connect_table: "try_connect V T a ip port e s = Some (x, s') \<Longrightarrow> table s' = table s"
  by (auto simp: try_connect_def bind_eq_Some_conv Let_def split_beta
      dest!: call_unlogged call_local_unlogged) (simp add: table_def unlogged_def)

lemma connect_failed_table: "connect_failed V a ip port s = Some s' \<Longrightarrow> table s' = table s"
  by (auto simp: connect_failed_def bind_eq_Some_conv table_unlogged split: option.splits
      dest!: createErrorMessage_unlogged delete_unlogged)

lemma connect_done_acts:
  assumes d: "connect_done V a s = Some (pr, s')" and t: "trace_inv s"
    and c: "m_connection_counter s \<noteq> - 1"
  shows "acts_as {Opens} s s'"
proof -
  let ?c = "m_connection_counter s + 1"
  obtain s1 where m: "make_peer V a ?c (s\<lparr>m_connection_counter := ?c\<rparr>) = Some (pr, s1)"
    and s': "s' = s1\<lparr>m_peers := umap_insert ?c pr (m_peers s1)\<rparr>"
    using d by (auto simp: connect_done_def Let_def bind_eq_Some_conv)
  show ?thesis by (rule insert_opens [OF m _ _ t c]) (simp_all add: s')
qed

lemma acts_as_threads [simp]:
  "acts_as L s (s'\<lparr>m_connectThread := cp\<rparr>) = acts_as L s s'"
  "acts_as L s (s'\<lparr>m_sendThread := sp\<rparr>) = acts_as L s s'"
  "acts_as L s (s'\<lparr>m_data_to_send := d\<rparr>) = acts_as L s s'"
  by (simp_all add: acts_as_def)

lemma connectThread_acts:
  assumes st: "connectThread_step V T s = Some s'" and t: "trace_inv s"
    and c: "m_connection_counter s \<noteq> - 1"
  shows "acts_as {Opens} s s'"
proof (cases "m_connectThread s")
  case (C_For i n)
  with st show ?thesis
    by (auto simp: connectThread_step_def intro!: acts_as_same split: if_splits
        dest!: begin_connect_table)
next
  case (C_Try i n a ip port e)
  with st show ?thesis
    by (auto simp: connectThread_step_def bind_eq_Some_conv intro!: acts_as_same
        simp del: split_paired_Ex dest!: try_connect_table)
next
  case (C_Failed i n a ip port)
  with st show ?thesis
    by (auto simp: connectThread_step_def bind_eq_Some_conv intro!: acts_as_same
        dest!: connect_failed_table)
next
  case (C_Connected i n a)
  with st show ?thesis
    by (auto simp: connectThread_step_def bind_eq_Some_conv intro: connect_done_acts [OF _ t c])
next
  case (C_Notify i n pr)
  with st show ?thesis
    by (auto simp: connectThread_step_def connect_notify_def intro!: acts_as_same)
next
  case C_Pop
  with st show ?thesis
    by (auto simp: connectThread_step_def bind_eq_Some_conv pop_potential_peer_def
        intro!: acts_as_same split: list.splits)
qed (use st in \<open>auto simp: connectThread_step_def Let_def intro!: acts_as_same split: if_splits\<close>)

text \<open>The send thread.\<close>

lemma send_front_acts:
  assumes f: "send_front V s = Some s'"
  shows "acts_as (range (case_prod Fails)) s s'"
proof (cases "m_data_to_send s")
  case Nil
  with f show ?thesis by (simp add: send_front_def acts_as_same)
next
  case (Cons d rest)
  obtain k dat where d: "d = (k, dat)" by (cases d)
  show ?thesis
  proof (cases "map_of (m_peers s) k")
    case None
    with f show ?thesis
      by (auto simp: send_front_def Cons d bind_eq_Some_conv table_unlogged intro!: acts_as_same
          split: option.splits dest!: createErrorMessage_unlogged)
  next
    case (Some pp)
    have err: "acts_as (range (case_prod Fails)) s
        (update_peer k (scheduleDelete PEER_WAS_DISCONNECTED_DUE_TO_ERROR)
          (update_peer k (setErrorMessage m) s1))"
      if "unlogged s s0" "unlogged s0 s1" "\<not> m_to_be_deleted pp" for m s0 s1
    proof -
      note u = unlogged_trans [OF that(1,2)]
      have "map_of (m_peers (update_peer k (setErrorMessage m) s1)) k = Some (setErrorMessage m pp)"
        using u Some by (simp add: unlogged_def update_peer_def map_of_map_entry)
      from schedule_fails [OF this, of PEER_WAS_DISCONNECTED_DUE_TO_ERROR] that(3)
      show ?thesis using table_unlogged [OF u] by (auto simp: acts_as_def)
    qed
    show ?thesis
      using f Some
      by (auto simp: send_front_def Cons d bind_eq_Some_conv Let_def table_unlogged
          split: if_splits dest!: call_unlogged createErrorMessage_unlogged
          intro!: err intro: acts_as_same)
  qed
qed

section \<open>Every step of the node\<close>

lemma rehash_conns:
  assumes ps: "mset ps = mset (m_peers s)" and inv: "peers_inv (m_peers s)"
  shows "conns_of ps = conns s"
proof -
  have "distinct (keys_of ps) = distinct (keys_of (m_peers s))"
    by (rule mset_eq_imp_distinct_iff) (simp add: ps)
  then have d: "distinct (keys_of ps)" using inv by (simp add: peers_inv_def)
  have "map_of ps = map_of (m_peers s)"
    using d inv mset_eq_setD [OF ps] by (intro map_of_inject_set [THEN iffD2]) (auto simp: peers_inv_def)
  then show ?thesis by (simp add: conns_of_def fun_eq_iff)
qed

lemma disconnectAll_acts: "acts_as {ClosesAll} s (disconnectAll s)"
proof (rule acts_asI)
  have "conns_of (map (\<lambda>(k, pp). (k, scheduleDelete PEER_WAS_DISCONNECTED pp)) ps) =
      (\<lambda>k. map_option (\<lambda>_. Closing PEER_WAS_DISCONNECTED) (conns_of ps k))" for ps
    by (induction ps) (auto simp: conns_of_def fun_eq_iff)
  then show "conn_step ClosesAll (table s) (table (disconnectAll s))"
    using conn_closes_all [of "conns s" "m_connection_counter s"]
    by (simp add: table_def disconnectAll_def)
qed simp

text \<open>What the owner may do to the table.\<close>

abbreviation owner_acts :: "conn_act set" where
  "owner_acts \<equiv> insert ClosesAll (range Closes)"

lemma acts_as_mono: "acts_as L s s' \<Longrightarrow> L \<subseteq> L' \<Longrightarrow> acts_as L' s s'"
  by (auto simp: acts_as_def)

lemma api_acts:
  assumes a: "api V c s = Some s'"
  shows "acts_as owner_acts s s'"
proof (cases c)
  case (SetListener so)
  obtain p s0 where n: "new_object so s = (p, s0)" by fastforce
  then have "unlogged s s0" by (auto simp: new_object_def unlogged_def)
  then have "unlogged s s'"
    using a setListener_unlogged unlogged_trans by (simp add: api_def SetListener n) blast
  then show ?thesis by (simp add: acts_as_same table_unlogged)
next
  case (SetReceiveBufferSize n)
  with a show ?thesis
    by (auto simp: api_def setReceiveBufferSize_def bind_eq_Some_conv table_unlogged
        intro!: acts_as_same dest!: call_local_unlogged split: if_splits)
next
  case (DoListen port ipv)
  with a show ?thesis by (auto simp: api_def intro!: acts_as_same table_unlogged dest!: doListen_unlogged)
next
  case (ConnectTo ip port)
  with a show ?thesis
    by (auto simp: api_def unlogged_def table_def intro!: acts_as_same dest!: connectTo_unlogged)
next
  case (SendData pr d)
  with a show ?thesis
    by (auto simp: api_def sendData_def Let_def bind_eq_Some_conv table_unlogged intro!: acts_as_same
        dest!: createErrorMessage_unlogged split: if_splits option.splits) (simp_all add: table_def)
next
  case (DisconnectPeer pr)
  with a show ?thesis
    by (auto simp: api_def disconnectPeer_def bind_eq_Some_conv split: if_splits
        intro: acts_as_mono [OF schedule_closes] acts_as_same)
next
  case DisconnectAll
  with a show ?thesis by (auto simp: api_def intro: acts_as_mono [OF disconnectAll_acts])
next
  case (SetSocketCreateFunction f)
  with a show ?thesis
    by (cases f) (auto simp: api_def setSocketInterfaceCreateFunction_def table_def intro!: acts_as_same)
qed (use a in \<open>auto simp: api_def stopListening_def setConnectTimeout_def table_def
      setSleepTime_def registrations intro!: acts_as_same\<close>)

lemma dtor_end_acts:
  assumes "dtor_end V s = Some s'"
  shows "acts_as {ClosesAll} s s'"
proof -
  have "table s' = table (disconnectAll s)"
    using assms by (auto simp: dtor_end_def Let_def bind_eq_Some_conv table_unlogged
        dest!: call_unlogged delete_unlogged)
  then show ?thesis using disconnectAll_acts [of s] by (simp add: acts_as_def)
qed

lemma listenThread_refines:
  assumes st: "listenThread_step V s = Some s'" and en: "listenThread_enabled s"
    and inv: "node_inv s" and V: "names_defined V" and t: "trace_inv s"
    and c: "m_connection_counter s \<noteq> - 1"
  shows "if m_listenThread s = L_Poll then round_refines V s s' else table s' = table s"
proof -
  have "\<not> listen_stopped s"
    using en by (auto simp: listenThread_enabled_def listen_stopped_def)
  note own = not_destroyed(1) [OF inv this]
  show ?thesis
    using st poll_refines [OF _ node_invD(1) [OF inv] own V t c]
    by (auto simp: listenThread_step_def bind_eq_Some_conv split: listen_pc.splits
        dest!: start_listening_table stop_listening_table)
qed

text \<open>
  Every step: the round of the listen thread part by part, any other step as one step of the
  abstract machine, and none of these a removal.
\<close>

definition refines_connections ::
  "('s, 'w) ISocket \<Rightarrow> ('s, 'w) node \<Rightarrow> ('s, 'w) node \<Rightarrow> bool" where
  "refines_connections V s s' \<longleftrightarrow>
     (if m_listenThread s = L_Poll \<and> listenThread_step V s = Some s' then round_refines V s s'
      else \<exists>l. l \<notin> range Removes \<and> conn_step l (table s) (table s'))"

lemma acts_as_other:
  "acts_as L s s' \<Longrightarrow> L \<inter> range Removes = {} \<Longrightarrow>
     \<exists>l. l \<notin> range Removes \<and> conn_step l (table s) (table s')"
  by (auto simp: acts_as_def)

lemma node_step_refines:
  assumes "node_step V T s s'" and inv: "node_inv s" and V: "names_defined V" and t: "trace_inv s"
    and c: "m_connection_counter s \<noteq> - 1"
  shows "refines_connections V s s'"
proof (cases "m_listenThread s = L_Poll \<and> listenThread_step V s = Some s'")
  case True
  then have "listenThread_enabled s" by (simp add: listenThread_enabled_def)
  with True listenThread_refines [OF _ this inv V t c, of s'] show ?thesis
    by (simp add: refines_connections_def)
next
  case False
  have "acts_as L s s' \<Longrightarrow> L \<inter> range Removes = {} \<Longrightarrow> refines_connections V s s'" for L
    using False acts_as_other by (auto simp: refines_connections_def)
  note goal = this
  have same: "table s' = table s \<Longrightarrow> refines_connections V s s'"
    using goal [OF acts_as_same, of "{}"] by simp
  from assms(1) show ?thesis
  proof cases
    case listen_step
    with listenThread_refines [OF _ _ inv V t c, of s'] False show ?thesis by (auto intro: same)
  next
    case connect_step
    then show ?thesis using goal [OF connectThread_acts [OF _ t c]] by auto
  next
    case send_step
    then have "acts_as (range (case_prod Fails)) s s'"
      by (auto simp: sendThread_step_def bind_eq_Some_conv split: send_pc.splits if_splits
          dest: send_front_acts intro: acts_as_same)
    then show ?thesis by (rule goal) auto
  next
    case (api_step c)
    then show ?thesis using goal [OF api_acts] by auto
  next
    case dtor_end_step
    then show ?thesis using goal [OF dtor_end_acts] by auto
  next
    case (other_nodes_step c')
    then have "conn_step Advances (table s) (table s')" by (simp add: table_def conn_advances)
    then have "acts_as {Advances} s s'" by (rule acts_asI) simp
    then show ?thesis by (rule goal) auto
  next
    case (rehash_step ps)
    then show ?thesis
      using rehash_conns [OF rehash_step(2)] node_invD(1) [OF inv]
      by (intro same) (simp add: core_inv_def table_def)
  qed (rule same; simp add: dtor_begin_def dtor_send_def dtor_listen_def table_def)+
qed

lemma refines_no_reuse: "refines_connections V s s' \<Longrightarrow> no_reuse (table s) (table s')"
  by (auto simp: refines_connections_def intro: round_no_reuse conn_step_no_reuse split: if_splits)

end
