(* ===== verification/NodeSpec.thy ===== *)
theory NodeSpec
  imports NodeRefine
begin

text \<open>
  What the pieces of the threads achieve: exact effects on the peer table, the queues, the
  flags and the callback trace, and the passes the threads need to get their work done.
\<close>

section \<open>Closing connections\<close>

text \<open>The one callback that fits the reason a connection is closed for, if it is set.\<close>

definition closing_events :: "callbacks \<Rightarrow> PeerPrivate \<Rightarrow> event list" where
  "closing_events cbs pp =
     (case m_disconn pp of
        PEER_DISCONNECTED_THEMSELF \<Rightarrow>
          (case m_callbackPeerDisconnected cbs of None \<Rightarrow> [] | Some c \<Rightarrow> [PeerDisconnected c pp])
      | PEER_WAS_DISCONNECTED \<Rightarrow>
          (case m_callbackClosedConnection cbs of None \<Rightarrow> [] | Some c \<Rightarrow> [ClosedConnection c pp])
      | PEER_WAS_DISCONNECTED_DUE_TO_ERROR \<Rightarrow>
          (case m_callbackFaultyConnectionClosed cbs of
             None \<Rightarrow> [] | Some c \<Rightarrow> [FaultyConnectionClosed c pp (m_errmsg pp)]))"

lemma notify_closed_events:
  "events (notify_closed pp s) = events s @ closing_events (m_callbacks s) pp"
  by (cases "m_disconn pp")
    (auto simp: notify_closed_def closing_events_def fire_def emit_def Let_def split: option.split)

lemma notify_closed_callbacks [simp]: "m_callbacks (notify_closed pp s) = m_callbacks s"
  by (auto simp: notify_closed_def fire_def emit_def Let_def split: option.split)

lemma delete_next_spec:
  assumes core: "core_inv s" and n: "next_scheduled (m_peers s) = Some (k, pp)"
  shows "ensures (delete_next V s) (\<lambda>s'. core_inv s' \<and> m_callbacks s' = m_callbacks s \<and>
    m_peers s' = AList.delete k (m_peers s) \<and>
    events s' = events s @ closing_events (m_callbacks s) pp \<and>
    Some ` live s' = Some ` live s - {m_socket pp})"
proof -
  have mem: "(k, pp) \<in> set (m_peers s)" using next_scheduled_mem n by blast
  have "map_of (m_peers s) k = Some pp"
    using core mem by (simp add: core_inv_def peers_inv_def)
  then obtain a where a: "m_socket pp = Some a" "a \<in> live s" using peer_live [OF core] by blast
  have live: "live (s\<lparr>objects := (objects s)(a := None), world := w, m_peers := ps\<rparr>) = live s - {a}"
    for w ps by (auto simp: live_def)
  show ?thesis
    unfolding delete_next_def using delete_peer_core [OF core mem a(1)] n a live
    by (auto intro!: ensures_mono [OF destroySocket_spec [OF a]] simp: Let_def notify_closed_events)
qed

text \<open>Several passes of the deletion alone.\<close>

fun delete_passes :: "('s, 'w) ISocket \<Rightarrow> nat \<Rightarrow> ('s, 'w) node \<Rightarrow> ('s, 'w) node option" where
  "delete_passes V 0 s = Some s"
| "delete_passes V (Suc n) s = do { s \<leftarrow> delete_next V s; delete_passes V n s }"

abbreviation scheduled :: "PeerList \<Rightarrow> PeerList" where
  "scheduled ps \<equiv> filter (\<lambda>(k, pp). m_to_be_deleted pp) ps"

lemma next_scheduled_split:
  assumes "scheduled ps = (k, pp) # rest" and "distinct (keys_of ps)"
  shows "next_scheduled ps = Some (k, pp)" "scheduled (AList.delete k ps) = rest"
    "filter (\<lambda>(k, pp). \<not> m_to_be_deleted pp) (AList.delete k ps) =
     filter (\<lambda>(k, pp). \<not> m_to_be_deleted pp) ps"
proof -
  from assms(1) obtain xs ys where ps: "ps = xs @ (k, pp) # ys"
    and xs: "\<forall>x \<in> set xs. \<not> (case x of (k, pp) \<Rightarrow> m_to_be_deleted pp)"
    and pp: "m_to_be_deleted pp" and rest: "rest = scheduled ys"
    by (auto simp: filter_eq_Cons_iff)
  have del: "AList.delete k ps = xs @ ys"
    using assms(2) unfolding ps by (rule delete_split)
  have none: "scheduled xs = []" using xs by (simp add: filter_empty_conv)
  show "next_scheduled ps = Some (k, pp)"
    unfolding ps using xs pp by (induction xs) (auto simp: next_scheduled_def)
  show "scheduled (AList.delete k ps) = rest" by (simp add: del none rest)
  show "filter (\<lambda>(k, pp). \<not> m_to_be_deleted pp) (AList.delete k ps) =
     filter (\<lambda>(k, pp). \<not> m_to_be_deleted pp) ps"
    unfolding del by (simp add: ps pp)
qed

lemma delete_passes_spec:
  fixes s :: "('s, 'w) node"
  assumes "core_inv s" and "length (scheduled (m_peers s)) = n"
  shows "ensures (delete_passes V n s) (\<lambda>s'.
    m_peers s' = filter (\<lambda>(k, pp). \<not> m_to_be_deleted pp) (m_peers s) \<and>
    events s' = events s @
      concat (map (\<lambda>(k, pp). closing_events (m_callbacks s) pp) (scheduled (m_peers s))))"
  using assms
proof (induction n arbitrary: s)
  case 0
  then have "scheduled (m_peers s) = []" by simp
  moreover from this have "filter (\<lambda>(k, pp). \<not> m_to_be_deleted pp) (m_peers s) = m_peers s"
    by (auto simp: filter_empty_conv filter_id_conv)
  ultimately show ?case by simp
next
  case (Suc n)
  obtain k pp rest where sch: "scheduled (m_peers s) = (k, pp) # rest"
    using Suc.prems(2) by (cases "scheduled (m_peers s)") auto
  have "distinct (keys_of (m_peers s))" using Suc.prems(1) by (simp add: core_inv_def peers_inv_def)
  note split = next_scheduled_split [OF sch this]
  show ?case
    unfolding delete_passes.simps
  proof (rule ensures_bindI [OF delete_next_spec [OF Suc.prems(1) split(1)]])
    fix s1 :: "('s, 'w) node"
    assume s1: "core_inv s1 \<and> m_callbacks s1 = m_callbacks s \<and>
      m_peers s1 = AList.delete k (m_peers s) \<and>
      events s1 = events s @ closing_events (m_callbacks s) pp \<and>
      Some ` live s1 = Some ` live s - {m_socket pp}"
    have "length (scheduled (m_peers s1)) = n" using s1 split(2) sch Suc.prems(2) by simp
    from Suc.IH [OF _ this] s1 split show "ensures (delete_passes V n s1) (\<lambda>s'.
      m_peers s' = filter (\<lambda>(k, pp). \<not> m_to_be_deleted pp) (m_peers s) \<and>
      events s' = events s @
        concat (map (\<lambda>(k, pp). closing_events (m_callbacks s) pp) (scheduled (m_peers s))))"
      by (simp add: sch)
  qed
qed

section \<open>Receiving\<close>

text \<open>What a result of \<open>receive\<close> means for the connection and for the callback.\<close>

definition after_receive :: "ReceiveResult \<Rightarrow> u64 \<Rightarrow> conns \<Rightarrow> conns" where
  "after_receive res k t =
     (case res of
        RR_OK \<Rightarrow> t
      | ERROR_NOTHING_RECEIVED \<Rightarrow> t
      | ERROR_PEER_DISCONNECTED \<Rightarrow> t(k \<mapsto> Closing PEER_DISCONNECTED_THEMSELF)
      | _ \<Rightarrow> t(k \<mapsto> Closing PEER_WAS_DISCONNECTED_DUE_TO_ERROR))"

lemma receive_peer_scheduled:
  "map_of (m_peers s) k = Some pp \<Longrightarrow> m_to_be_deleted pp \<Longrightarrow> receive_peer V k s = Some s"
  by (simp add: receive_peer_def)

lemma fail_peer_spec:
  assumes core: "core_inv s" and pp: "map_of (m_peers s) k = Some pp"
    and sock: "\<And>a. sock = Some a \<Longrightarrow> a \<in> live s"
  shows "ensures (fail_peer V k b sock s) (\<lambda>s'.
    conns s' = (conns s)(k \<mapsto> Closing PEER_WAS_DISCONNECTED_DUE_TO_ERROR) \<and>
    events s' = events s)"
proof -
  let ?s = "update_peer k (scheduleDelete PEER_WAS_DISCONNECTED_DUE_TO_ERROR) s"
  have "ensures (createErrorMessage V ''Receive Error'' b sock ?s) (\<lambda>(m, s'). same ?s s')"
    by (rule createErrorMessage_ok) (use core sock in \<open>simp_all add: peer_update_live\<close>)
  then obtain m s1 where s1: "createErrorMessage V ''Receive Error'' b sock ?s = Some (m, s1)"
    by (auto elim!: ensuresE)
  note u = unloggedD [OF createErrorMessage_unlogged [OF s1]]
  show ?thesis
    using s1 u conns_schedule [OF pp]
    by (simp add: fail_peer_def Let_def) (simp add: update_peer_def)
qed

lemma receive_peer_spec:
  assumes core: "core_inv s" and pp: "map_of (m_peers s) k = Some pp" "\<not> m_to_be_deleted pp"
    and so: "m_socket pp = Some a" "objects s a = Some so" "visConnected V so"
    and r: "vreceive V [] so (world s) = ((res, d), so', w')"
  shows "ensures (receive_peer V k s) (\<lambda>s'. conns s' = after_receive res k (conns s) \<and>
    events s' = events s @
      (case m_callbackReceived (m_callbacks s) of
         None \<Rightarrow> [] | Some c \<Rightarrow> if res = RR_OK then [Received c pp d] else []))"
proof -
  let ?s = "store_object a so' w' s"
  have live: "a \<in> live s" using so(2) by (auto simp: live_def)
  then have c: "core_inv ?s" "live ?s = live s" using core by simp_all
  have pp': "map_of (m_peers ?s) k = Some pp" using pp(1) by simp
  note fail = fail_peer_spec [OF c(1) pp']
  have call: "call (Some a) (vreceive V []) s = Some ((res, d), ?s)"
    using so(2) r by (simp add: call_def)
  have read: "call_read (Some a) (visConnected V) s = Some True"
    using so(2,3) by (simp add: call_read_def)
  show ?thesis
    unfolding receive_peer_def toBeDeleted_def getSocket_def Let_def
    using pp so(1) call read live fail [of None] fail [of "Some a"] conns_schedule [OF pp(1)]
    by (cases res) (auto simp: after_receive_def fire_def emit_def update_peer_def c(2)
        split: option.split elim!: ensures_mono)
qed

text \<open>A connection whose socket is not connected: \<open>receive\<close> is not called.\<close>

lemma receive_peer_unconnected:
  assumes "map_of (m_peers s) k = Some pp" and "\<not> m_to_be_deleted pp"
    and "m_socket pp = Some a" and "objects s a = Some so" and "\<not> visConnected V so"
  shows "receive_peer V k s = Some (update_peer k
      (setErrorMessage \<lparr>msg_head = ''Receive Error'', msg_body = ''Socket is not connected.''\<rparr>)
      (update_peer k (scheduleDelete PEER_WAS_DISCONNECTED_DUE_TO_ERROR) s))"
  using assms
  by (simp add: receive_peer_def call_read_def fail_peer_def createErrorMessage_def Let_def)

section \<open>Sending\<close>

lemma data_updates [simp]:
  "m_data_to_send (update_peer k f s) = m_data_to_send s"
  "m_data_to_send (emit e s) = m_data_to_send s"
  "m_data_to_send (fire c g s) = m_data_to_send s"
  by (simp_all add: update_peer_def emit_def fire_def split: option.split)

lemma send_front_pops:
  assumes f: "send_front V s = Some s'"
  shows "m_data_to_send s' = tl (m_data_to_send s)"
proof (cases "m_data_to_send s")
  case (Cons d rest)
  then show ?thesis
    using f
    by (cases d) (auto simp: send_front_def bind_eq_Some_conv Let_def split: option.splits if_splits
        dest!: call_unlogged createErrorMessage_unlogged unloggedD(5))
qed (use f in \<open>simp add: send_front_def\<close>)

text \<open>A front for a connection that is not scheduled: one \<open>send\<close> on its socket, all the data.\<close>

lemma send_front_spec:
  assumes core: "core_inv s" and q: "m_data_to_send s = (k, dat) # rest"
    and pp: "map_of (m_peers s) k = Some pp" "\<not> m_to_be_deleted pp"
    and so: "m_socket pp = Some a" "objects s a = Some so"
    and r: "vsend V dat so (world s) = (n, so', w')"
  shows "ensures (send_front V s) (\<lambda>s'. m_data_to_send s' = rest \<and>
    (if 0 < n then conns s' = conns s \<and> objects s' a = Some so' \<and> world s' = w' \<and>
        events s' = events s @
          (case m_callbackSent (m_callbacks s) of None \<Rightarrow> [] | Some c \<Rightarrow> [Sent c pp n])
     else events s' = events s \<and>
       conns s' = (if m_callbackSendError (m_callbacks s) = None then conns s
                   else (conns s)(k \<mapsto> Closing PEER_WAS_DISCONNECTED_DUE_TO_ERROR))))"
proof -
  let ?s = "store_object a so' w' s"
  have live: "a \<in> live s" using so(2) by (auto simp: live_def)
  then have c: "core_inv ?s" "live ?s = live s" using core by simp_all
  have call: "call (Some a) (vsend V dat) s = Some (n, ?s)"
    using so(2) r by (simp add: call_def)
  show ?thesis
  proof (cases "0 < n \<or> m_callbackSendError (m_callbacks s) = None")
    case True
    then show ?thesis
      using call so(1) pp
      by (auto simp: send_front_def q fire_def emit_def store_object_def split: option.split)
  next
    case False
    have "ensures (createErrorMessage V ''Send Error'' ''Sending Failed'' (Some a) ?s)
        (\<lambda>(m, s'). same ?s s')"
      by (rule createErrorMessage_ok) (use c live in simp_all)
    then obtain m s1 where s1: "createErrorMessage V ''Send Error'' ''Sending Failed'' (Some a) ?s =
        Some (m, s1)" by (auto elim!: ensuresE)
    note u = unloggedD [OF createErrorMessage_unlogged [OF s1]]
    have "conns_of (AList.map_entry k (scheduleDelete dt)
        (AList.map_entry k (setErrorMessage m) (m_peers s))) = (conns s)(k \<mapsto> Closing dt)" for dt
      using pp(1) by (subst conns_schedule [where pp = "setErrorMessage m pp"])
        (simp_all add: map_of_map_entry)
    then show ?thesis
      using False call so(1) pp s1 u by (auto simp: send_front_def q Let_def update_peer_def)
  qed
qed

text \<open>A front for an unknown connection is dropped with an error, for a scheduled one silently.\<close>

lemma send_front_unknown:
  assumes q: "m_data_to_send s = (k, dat) # rest" and k: "map_of (m_peers s) k = None"
  shows "send_front V s = Some (s\<lparr>events := events s @
      (case m_callbackSendError (m_callbacks s) of None \<Rightarrow> []
       | Some c \<Rightarrow> [SendError c \<lparr>msg_head = ''Send Error'',
                     msg_body = ''Specified peer does not exist.''\<rparr>]),
    m_data_to_send := rest\<rparr>)"
  by (simp add: send_front_def q k createErrorMessage_def emit_def Let_def split: option.split)

lemma send_front_scheduled:
  assumes q: "m_data_to_send s = (k, dat) # rest" and k: "map_of (m_peers s) k = Some pp"
    and "m_to_be_deleted pp"
  shows "send_front V s = Some (s\<lparr>m_data_to_send := rest\<rparr>)"
  using assms by (simp add: send_front_def)

text \<open>
  The thread gets a waiting front out in one or three steps, also when the length of the list
  is a multiple of 256 and its \<open>uint8_t\<close> copy is zero.
\<close>

lemma keeps_updates_send [simp]:
  "keeps s s1 \<Longrightarrow> core_inv (s1\<lparr>m_sendThread := sp\<rparr>)"
  by (simp add: keeps_def)

lemma send_front_core: "core_inv s \<Longrightarrow> send_front V s = Some s' \<Longrightarrow> core_inv s'"
  using send_front_ok [of s V] by (simp add: keeps_def)

lemma send_progress:
  assumes core: "core_inv s" and at: "m_sendThread s = S_Loop" "m_send_thread_running s"
    and q: "m_data_to_send s \<noteq> []"
  shows "\<exists>n \<le> 3. ensures (run_schedule V T (replicate n Send_thread) s)
    (\<lambda>s'. m_sendThread s' = S_Loop \<and> m_data_to_send s' = tl (m_data_to_send s))"
proof (cases "to_send_count s \<le> 0")
  case False
  obtain s1 where s1: "send_front V s = Some s1"
    using send_front_ok [OF core, of V] by (auto elim: ensuresE)
  have "ensures (run_schedule V T (replicate 1 Send_thread) s)
    (\<lambda>s'. m_sendThread s' = S_Loop \<and> m_data_to_send s' = tl (m_data_to_send s))"
    using at False s1 send_front_pops [OF s1]
    by (simp add: perform_def sendThread_enabled_def sendThread_step_def)
  then show ?thesis by (intro exI [of _ 1]) simp
next
  case True
  let ?s = "s\<lparr>m_sendThread := S_Work\<rparr>"
  obtain s1 where s1: "send_front V ?s = Some s1"
    using send_front_ok [of ?s V] core by (auto elim: ensuresE)
  have "ensures (run_schedule V T (replicate 3 Send_thread) s)
    (\<lambda>s'. m_sendThread s' = S_Loop \<and> m_data_to_send s' = tl (m_data_to_send s))"
    using at True s1 send_front_pops [OF s1] q
    by (simp add: perform_def sendThread_enabled_def sendThread_step_def data_available_def
        numeral_3_eq_3)
  then show ?thesis by (intro exI [of _ 3]) simp
qed

end
