(* ===== verification/Posix.thy ===== *)
theory Posix
  imports Prelude
begin

text \<open>
  The operating system as the code sees it. It is not part of the repository, so it is a
  parameter: a record of the system calls that \<^verbatim>\<open>src/Socket.cpp\<close> makes on Linux, over an
  abstract world type \<open>'w\<close>. What a theorem relies on is one of the named hypotheses below,
  each a documented POSIX/Linux fact. The numeric constants are those of the Linux headers.
\<close>

section \<open>Constants and types of the system headers\<close>

abbreviation (input) AF_UNSPEC :: int where "AF_UNSPEC \<equiv> 0"
abbreviation (input) AF_INET :: int where "AF_INET \<equiv> 2"
abbreviation (input) AF_INET6 :: int where "AF_INET6 \<equiv> 10"
abbreviation (input) SOCK_STREAM :: int where "SOCK_STREAM \<equiv> 1"
abbreviation (input) AI_PASSIVE :: int where "AI_PASSIVE \<equiv> 1"
abbreviation (input) O_NONBLOCK :: int where "O_NONBLOCK \<equiv> 2048"
abbreviation (input) EBADF :: int where "EBADF \<equiv> 9"
abbreviation (input) EAGAIN :: int where "EAGAIN \<equiv> 11"
abbreviation (input) EWOULDBLOCK :: int where "EWOULDBLOCK \<equiv> 11"
abbreviation (input) EINPROGRESS :: int where "EINPROGRESS \<equiv> 115"
abbreviation (input) SIZEOF_SOCKADDR :: nat where "SIZEOF_SOCKADDR \<equiv> 16"

text \<open>The hints given to \<open>getaddrinfo\<close> and the entries of the list it returns.\<close>

record AddrHints =
  hint_family :: int
  hint_socktype :: int
  hint_flags :: int

record AddrInfo =
  ai_family :: int
  ai_socktype :: int
  ai_protocol :: int
  ai_addr :: bytes

section \<open>The system calls\<close>

text \<open>
  Every call takes the world and returns the new one; \<open>sys_errno\<close> reads \<open>errno\<close>.
  \<open>sys_getpeername fd n\<close> returns its result, the bytes it stored in a buffer of \<open>n\<close> bytes
  and the address length it reports (which can exceed \<open>n\<close>); \<open>sys_recv fd n\<close> returns
  its result and the bytes stored; \<open>sys_getsockopt_error\<close> its result and \<open>SO_ERROR\<close>.
\<close>

record 'w Sys =
  sys_errno :: "'w \<Rightarrow> int"
  sys_close :: "int \<Rightarrow> 'w \<Rightarrow> 'w"
  sys_fcntl_getfl :: "int \<Rightarrow> 'w \<Rightarrow> int \<times> 'w"
  sys_fcntl_setfl :: "int \<Rightarrow> int \<Rightarrow> 'w \<Rightarrow> int \<times> 'w"
  sys_getaddrinfo :: "string option \<Rightarrow> string \<Rightarrow> AddrHints \<Rightarrow> 'w \<Rightarrow> (int \<times> AddrInfo list) \<times> 'w"
  sys_freeaddrinfo :: "AddrInfo list \<Rightarrow> 'w \<Rightarrow> 'w"
  sys_socket :: "int \<Rightarrow> int \<Rightarrow> int \<Rightarrow> 'w \<Rightarrow> int \<times> 'w"
  sys_setsockopt_reuseaddr :: "int \<Rightarrow> int \<Rightarrow> 'w \<Rightarrow> int \<times> 'w"
  sys_bind :: "int \<Rightarrow> bytes \<Rightarrow> 'w \<Rightarrow> int \<times> 'w"
  sys_listen :: "int \<Rightarrow> int \<Rightarrow> 'w \<Rightarrow> int \<times> 'w"
  sys_connect :: "int \<Rightarrow> bytes \<Rightarrow> 'w \<Rightarrow> int \<times> 'w"
  sys_getsockopt_error :: "int \<Rightarrow> 'w \<Rightarrow> (int \<times> int) \<times> 'w"
  sys_accept :: "int \<Rightarrow> 'w \<Rightarrow> int \<times> 'w"
  sys_recv :: "int \<Rightarrow> nat \<Rightarrow> 'w \<Rightarrow> (int \<times> bytes) \<times> 'w"
  sys_send :: "int \<Rightarrow> bytes \<Rightarrow> 'w \<Rightarrow> int \<times> 'w"
  sys_getpeername :: "int \<Rightarrow> nat \<Rightarrow> 'w \<Rightarrow> (int \<times> bytes \<times> nat) \<times> 'w"
  sys_inet_ntop :: "int \<Rightarrow> bytes \<Rightarrow> string"
  sys_getnameinfo :: "bytes \<Rightarrow> 'w \<Rightarrow> (int \<times> string) \<times> 'w"
  sys_gethostname :: "nat \<Rightarrow> 'w \<Rightarrow> (int \<times> string) \<times> 'w"
  sys_strerror :: "int \<Rightarrow> string"
  sys_sleep :: "int \<Rightarrow> 'w \<Rightarrow> 'w"

section \<open>Documented behaviour, as hypotheses\<close>

text \<open>
  \<open>posix_keeps S P\<close>: no call falsifies the world predicate \<open>P\<close>. The calls of the two
  predicates below are all instances of it.
\<close>

definition posix_keeps :: "'w Sys \<Rightarrow> ('w \<Rightarrow> bool) \<Rightarrow> bool" where
  "posix_keeps S P \<longleftrightarrow>
     (\<forall>fd w. P w \<longrightarrow> P (sys_close S fd w)) \<and>
     (\<forall>fd w. P w \<longrightarrow> P (snd (sys_fcntl_getfl S fd w))) \<and>
     (\<forall>fd fl w. P w \<longrightarrow> P (snd (sys_fcntl_setfl S fd fl w))) \<and>
     (\<forall>h s hints w. P w \<longrightarrow> P (snd (sys_getaddrinfo S h s hints w))) \<and>
     (\<forall>ais w. P w \<longrightarrow> P (sys_freeaddrinfo S ais w)) \<and>
     (\<forall>f t p w. P w \<longrightarrow> P (snd (sys_socket S f t p w))) \<and>
     (\<forall>fd y w. P w \<longrightarrow> P (snd (sys_setsockopt_reuseaddr S fd y w))) \<and>
     (\<forall>fd a w. P w \<longrightarrow> P (snd (sys_bind S fd a w))) \<and>
     (\<forall>fd b w. P w \<longrightarrow> P (snd (sys_listen S fd b w))) \<and>
     (\<forall>fd a w. P w \<longrightarrow> P (snd (sys_connect S fd a w))) \<and>
     (\<forall>fd w. P w \<longrightarrow> P (snd (sys_getsockopt_error S fd w))) \<and>
     (\<forall>ms w. P w \<longrightarrow> P (sys_sleep S ms w))"

text \<open>
  \<open>errno(3)\<close>: no call sets \<open>errno\<close> to zero, and \<open>close(2)\<close> on the descriptor \<open>-1\<close> fails
  with \<open>EBADF\<close>.
\<close>

definition posix_errno :: "'w Sys \<Rightarrow> bool" where
  "posix_errno S \<longleftrightarrow>
     posix_keeps S (\<lambda>w. sys_errno S w \<noteq> 0) \<and> (\<forall>w. sys_errno S (sys_close S (-1) w) = EBADF)"

text \<open>
  Descriptor accounting: \<open>fds w\<close> is the set of open descriptors. \<open>socket\<close> returns \<open>-1\<close>
  or opens a descriptor that was not open, \<open>close\<close> closes its argument, and the calls that
  \<open>connect\<close> and \<open>listen\<close> make on an open descriptor open and close nothing.
\<close>

definition opens_fd :: "('w \<Rightarrow> int set) \<Rightarrow> 'w \<Rightarrow> int \<times> 'w \<Rightarrow> bool" where
  "opens_fd fds w r \<longleftrightarrow>
     (fst r = -1 \<and> fds (snd r) = fds w) \<or>
     (0 \<le> fst r \<and> fst r \<notin> fds w \<and> fds (snd r) = insert (fst r) (fds w))"

definition posix_fds :: "'w Sys \<Rightarrow> ('w \<Rightarrow> int set) \<Rightarrow> bool" where
  "posix_fds S fds \<longleftrightarrow>
     (\<forall>fd w. fds (sys_close S fd w) = fds w - {fd}) \<and>
     (\<forall>f t p w. opens_fd fds w (sys_socket S f t p w)) \<and>
     (\<forall>fd w. opens_fd fds w (sys_accept S fd w)) \<and>
     (\<forall>fd w. fds (snd (sys_fcntl_getfl S fd w)) = fds w) \<and>
     (\<forall>fd fl w. fds (snd (sys_fcntl_setfl S fd fl w)) = fds w) \<and>
     (\<forall>h s hints w. fds (snd (sys_getaddrinfo S h s hints w)) = fds w) \<and>
     (\<forall>ais w. fds (sys_freeaddrinfo S ais w) = fds w) \<and>
     (\<forall>fd y w. fds (snd (sys_setsockopt_reuseaddr S fd y w)) = fds w) \<and>
     (\<forall>fd a w. fds (snd (sys_bind S fd a w)) = fds w) \<and>
     (\<forall>fd b w. fds (snd (sys_listen S fd b w)) = fds w) \<and>
     (\<forall>fd a w. fds (snd (sys_connect S fd a w)) = fds w) \<and>
     (\<forall>fd w. fds (snd (sys_getsockopt_error S fd w)) = fds w) \<and>
     (\<forall>fd n w. fds (snd (sys_recv S fd n w)) = fds w) \<and>
     (\<forall>fd d w. fds (snd (sys_send S fd d w)) = fds w) \<and>
     (\<forall>ms w. fds (sys_sleep S ms w) = fds w)"

text \<open>
  \<open>recv(2)\<close> stores as many bytes as it returns and at most the size of the buffer;
  \<open>send(2)\<close> returns \<open>-1\<close> or a count of at most the length of the data.
\<close>

definition posix_transfer :: "'w Sys \<Rightarrow> bool" where
  "posix_transfer S \<longleftrightarrow>
     (\<forall>fd n w r d w'. sys_recv S fd n w = ((r, d), w') \<longrightarrow>
        -1 \<le> r \<and> r \<le> int n \<and> (0 \<le> r \<longrightarrow> int (length d) = r)) \<and>
     (\<forall>fd d w r w'. sys_send S fd d w = (r, w') \<longrightarrow> -1 \<le> r \<and> r \<le> int (length d))"

text \<open>Both \<open>fcntl\<close> calls of \<open>setNonBlocking\<close> succeed on an open descriptor.\<close>

definition posix_fcntl_ok :: "'w Sys \<Rightarrow> bool" where
  "posix_fcntl_ok S \<longleftrightarrow>
     (\<forall>fd w. 0 \<le> fd \<longrightarrow> fst (sys_fcntl_getfl S fd w) \<noteq> -1) \<and>
     (\<forall>fd fl w. 0 \<le> fd \<longrightarrow> fst (sys_fcntl_setfl S fd fl w) \<noteq> -1)"

text \<open>Every peer address \<open>getpeername\<close> reports is an IPv4 \<open>sockaddr_in\<close>.\<close>

definition ipv4_peers :: "'w Sys \<Rightarrow> bool" where
  "ipv4_peers S \<longleftrightarrow>
     (\<forall>fd n w r st len w'. sys_getpeername S fd n w = ((r, st, len), w') \<longrightarrow> r = 0 \<longrightarrow>
        length st = 16 \<and> len = 16 \<and> st ! 0 = 2 \<and> st ! 1 = 0)"

text \<open>
  The two ends of a connection: while \<open>linked w\<close> holds, \<open>pipe w\<close> are the bytes on their way from
  the descriptor \<open>a\<close> to the descriptor \<open>b\<close>. \<open>send\<close> appends as many of the bytes as it returns,
  \<open>recv\<close> takes as many as it returns from the front.
\<close>

definition posix_stream ::
  "'w Sys \<Rightarrow> ('w \<Rightarrow> bool) \<Rightarrow> int \<Rightarrow> int \<Rightarrow> ('w \<Rightarrow> bytes) \<Rightarrow> bool" where
  "posix_stream S linked a b pipe \<longleftrightarrow>
     (\<forall>d w r w'. linked w \<longrightarrow> sys_send S a d w = (r, w') \<longrightarrow>
        linked w' \<and> pipe w' = pipe w @ take (nat r) d) \<and>
     (\<forall>n w r d w'. linked w \<longrightarrow> sys_recv S b n w = ((r, d), w') \<longrightarrow>
        linked w' \<and> pipe w = take (nat r) d @ pipe w')"

end
