(* ===== verification/Socket.thy ===== *)
theory Socket
  imports ISocket Posix
begin

unbundle bit_operations_syntax

text \<open>
  The class \<open>spw::Socket\<close> of \<^verbatim>\<open>src/Socket.hpp\<close> and \<^verbatim>\<open>src/Socket.cpp\<close>, in its Linux build
  (for the Windows build see \<open>SocketWin\<close>): the object as a record, one definition per
  member function, over an arbitrary operating system \<open>S\<close>.
\<close>

section \<open>State\<close>

definition SPW_DEF_SLEEPTIME_MS :: u32 where
  "SPW_DEF_SLEEPTIME_MS = 10"

definition SPW_DEF_RECBUF_SIZE :: u64 where
  "SPW_DEF_RECBUF_SIZE = 1024"

record socket =
  m_socket_fd :: int
  m_is_listener :: bool
  m_is_connected :: bool
  m_is_listening :: bool
  m_listen_port :: u16
  m_receive_buffer_size :: u64
  m_sleep_time :: u32
  m_last_errno :: int

definition Socket_new :: socket where
  "Socket_new =
     \<lparr>m_socket_fd = -1, m_is_listener = False, m_is_connected = False, m_is_listening = False,
      m_listen_port = 0, m_receive_buffer_size = SPW_DEF_RECBUF_SIZE,
      m_sleep_time = SPW_DEF_SLEEPTIME_MS, m_last_errno = 0\<rparr>"

section \<open>Operations\<close>

text \<open>The accessors; the simplifier replaces each by the member it reads.\<close>

definition Socket_socketNumber :: "socket \<Rightarrow> int" where
  [simp]: "Socket_socketNumber so = m_socket_fd so"

definition Socket_isListener :: "socket \<Rightarrow> bool" where
  [simp]: "Socket_isListener so = m_is_listener so"

definition Socket_listenPort :: "socket \<Rightarrow> u16" where
  [simp]: "Socket_listenPort so = m_listen_port so"

definition Socket_isConnected :: "socket \<Rightarrow> bool" where
  [simp]: "Socket_isConnected so = m_is_connected so"

definition Socket_isListening :: "socket \<Rightarrow> bool" where
  [simp]: "Socket_isListening so = m_is_listening so"

definition Socket_receiveBufferSize :: "socket \<Rightarrow> u64" where
  [simp]: "Socket_receiveBufferSize so = m_receive_buffer_size so"

definition Socket_sleepTime :: "socket \<Rightarrow> u32" where
  [simp]: "Socket_sleepTime so = m_sleep_time so"

definition closeSocket :: "'w Sys \<Rightarrow> int \<Rightarrow> 'w \<Rightarrow> 'w" where
  "closeSocket S sockfd w = sys_close S sockfd w"

definition setNonBlocking :: "'w Sys \<Rightarrow> int \<Rightarrow> 'w \<Rightarrow> bool \<times> 'w" where
  "setNonBlocking S sockfd w =
     (if sockfd \<noteq> -1
      then let (socket_settings, w) = sys_fcntl_getfl S sockfd w
           in if socket_settings \<noteq> -1
              then let (r, w) = sys_fcntl_setfl S sockfd (socket_settings OR O_NONBLOCK) w
                   in (r \<noteq> -1, w)
              else (False, w)
      else (False, w))"

definition Socket_setErrno :: "'w Sys \<Rightarrow> 'w \<Rightarrow> socket \<Rightarrow> socket" where
  "Socket_setErrno S w so = so\<lparr>m_last_errno := sys_errno S w\<rparr>"

definition Socket_clearErrno :: "socket \<Rightarrow> socket" where
  "Socket_clearErrno so = so\<lparr>m_last_errno := 0\<rparr>"

definition Socket_getLastErrno :: "socket \<Rightarrow> int \<times> socket" where
  "Socket_getLastErrno so = (m_last_errno so, so\<lparr>m_last_errno := 0\<rparr>)"

definition Socket_getLastErrnoString :: "'w Sys \<Rightarrow> socket \<Rightarrow> string \<times> socket" where
  "Socket_getLastErrnoString S so =
     (let (lasterrno, so) = Socket_getLastErrno so
      in if lasterrno \<noteq> 0 then (sys_strerror S lasterrno, so) else ([], so))"

definition Socket_close :: "'w Sys \<Rightarrow> socket \<Rightarrow> 'w \<Rightarrow> socket \<times> 'w" where
  "Socket_close S so w =
     (let so = so\<lparr>m_is_connected := False, m_is_listening := False, m_is_listener := False\<rparr>;
          w = closeSocket S (m_socket_fd so) w
      in (so\<lparr>m_socket_fd := -1\<rparr>, w))"

definition Socket_destroy :: "'w Sys \<Rightarrow> socket \<Rightarrow> 'w \<Rightarrow> 'w" where
  "Socket_destroy S so w = snd (Socket_close S so w)"

text \<open>The condition of \<open>listen\<close>'s inner \<open>if\<close>: three calls, stopping at the first failure.\<close>

definition listen_prepare :: "'w Sys \<Rightarrow> int \<Rightarrow> AddrInfo \<Rightarrow> 'w \<Rightarrow> bool \<times> 'w" where
  "listen_prepare S fd ai w =
     (let (r1, w) = sys_setsockopt_reuseaddr S fd 1 w
      in if r1 \<noteq> 0 then (False, w)
         else let (r2, w) = sys_bind S fd (ai_addr ai) w
              in if r2 \<noteq> 0 then (False, w)
                 else let (r3, w) = sys_listen S fd 20 w in (r3 = 0, w))"

text \<open>The loop over the address list in \<open>listen\<close>.\<close>

fun listen_loop :: "'w Sys \<Rightarrow> u16 \<Rightarrow> AddrInfo list \<Rightarrow> socket \<Rightarrow> 'w \<Rightarrow> bool \<times> socket \<times> 'w" where
  "listen_loop S port [] so w = (False, so, w)"
| "listen_loop S port (ai # ais) so w =
     (let (fd, w) = sys_socket S (ai_family ai) (ai_socktype ai) (ai_protocol ai) w;
          so = so\<lparr>m_socket_fd := fd\<rparr>
      in if fd \<noteq> -1
         then let (prepared, w) = listen_prepare S fd ai w
              in if prepared
                 then let (nonblocking, w) = setNonBlocking S fd w
                      in if nonblocking
                         then (True, so\<lparr>m_is_listener := True, m_listen_port := port\<rparr>, w)
                         else listen_loop S port ais so w
                 else let w = closeSocket S fd w
                      in listen_loop S port ais (so\<lparr>m_socket_fd := -1\<rparr>) w
         else listen_loop S port ais so w)"

definition listen_hints :: "IpVersion \<Rightarrow> AddrHints" where
  "listen_hints ver =
     \<lparr>hint_family =
        (case ver of IPV_ANY \<Rightarrow> AF_UNSPEC | IPV4 \<Rightarrow> AF_INET | IPV6 \<Rightarrow> AF_INET6),
      hint_socktype = SOCK_STREAM, hint_flags = AI_PASSIVE\<rparr>"

definition Socket_listen :: "'w Sys \<Rightarrow> u16 \<Rightarrow> IpVersion \<Rightarrow> socket \<Rightarrow> 'w \<Rightarrow> bool \<times> socket \<times> 'w" where
  "Socket_listen S port ver so w =
     (let (so, w) = Socket_close S so w
      in if port = 0 then (False, so, w)
         else let ((rc, ais), w) =
                    sys_getaddrinfo S None (to_string_u16 port) (listen_hints ver) w;
                  (success, so, w) =
                    (if rc = 0
                     then let (success, so, w) = listen_loop S port ais so w
                          in (success, so, sys_freeaddrinfo S ais w)
                     else (False, so, w))
              in if \<not> success then (False, Socket_setErrno S w so, w)
                 else (True,
                       Socket_clearErrno (so\<lparr>m_is_listener := True, m_is_listening := True\<rparr>), w))"

definition connect_hints :: AddrHints where
  "connect_hints = \<lparr>hint_family = AF_UNSPEC, hint_socktype = SOCK_STREAM, hint_flags = 0\<rparr>"

text \<open>The part of \<open>connect\<close> that works on the first address: open, connect, look at the error.\<close>

definition connect_first :: "'w Sys \<Rightarrow> AddrInfo \<Rightarrow> socket \<Rightarrow> 'w \<Rightarrow> bool \<times> socket \<times> 'w" where
  "connect_first S ai so w =
     (let (fd, w) = sys_socket S (ai_family ai) (ai_socktype ai) (ai_protocol ai) w;
          so = so\<lparr>m_socket_fd := fd\<rparr>;
          (nonblocking, w) = setNonBlocking S fd w
      in if nonblocking
         then let (conn, w) = sys_connect S fd (ai_addr ai) w
              in if conn = 0 then (True, so, w)
                 else if sys_errno S w = EINPROGRESS
                 then let w = sys_sleep S (uint (Socket_sleepTime so)) w;
                          ((r, sock_error), w) = sys_getsockopt_error S fd w
                      in (r = 0 \<and> sock_error = 0, so, w)
                 else (False, so, w)
         else (False, so, w))"

definition Socket_connect :: "'w Sys \<Rightarrow> string \<Rightarrow> u16 \<Rightarrow> socket \<Rightarrow> 'w \<Rightarrow> bool \<times> socket \<times> 'w" where
  "Socket_connect S ip port so w =
     (let (so, w) = Socket_close S so w;
          ((rc, ais), w) = sys_getaddrinfo S (Some ip) (to_string_u16 port) connect_hints w;
          (success, so, w) =
            (if rc = 0
             then (case ais of
                     [] \<Rightarrow> (False, so, w)
                   | ai # _ \<Rightarrow>
                       let (success, so, w) = connect_first S ai so w
                       in (success, so, sys_freeaddrinfo S ais w))
             else (False, so, w))
      in if \<not> success
         then let (so, w) = Socket_close S so w in (False, Socket_setErrno S w so, w)
         else (True, Socket_clearErrno (so\<lparr>m_is_connected := True\<rparr>), w))"

definition Socket_accept :: "'w Sys \<Rightarrow> socket \<Rightarrow> 'w \<Rightarrow> socket option \<times> socket \<times> 'w" where
  "Socket_accept S so w =
     (if Socket_isListener so
      then let (peer_socket_fd, w) = sys_accept S (m_socket_fd so) w
           in if peer_socket_fd \<noteq> -1
              then let newSocket = Socket_new;
                       (_, w) = setNonBlocking S peer_socket_fd w
                   in (Some (newSocket\<lparr>m_socket_fd := peer_socket_fd, m_is_connected := True\<rparr>),
                       so, w)
              else let so = Socket_setErrno S w so;
                       (errornum, so) = Socket_getLastErrno so
                   in (None,
                       if errornum = EAGAIN \<or> errornum = EWOULDBLOCK
                       then Socket_clearErrno so else so,
                       w)
      else (None, so, w))"

text \<open>The conversion of \<open>recv\<close>'s \<open>ssize_t\<close> to the \<open>int\<close> it is stored in.\<close>

definition to_int32 :: "int \<Rightarrow> int" where
  "to_int32 i = signed_take_bit 31 i"

text \<open>The body of \<open>receive\<close> up to the label \<open>receive_end\<close>, and the code after it.\<close>

definition receive_body ::
  "'w Sys \<Rightarrow> bytes \<Rightarrow> socket \<Rightarrow> 'w \<Rightarrow> (ReceiveResult \<times> bytes) \<times> 'w" where
  "receive_body S receiveData so w =
     (if Socket_isListener so then ((ERROR_IS_LISTENER, receiveData), w)
      else if \<not> Socket_isConnected so then ((ERROR_NO_CONNECTION, receiveData), w)
      else let ((r, rec_data), w) =
                 sys_recv S (m_socket_fd so) (unat (Socket_receiveBufferSize so)) w;
               recv_res = to_int32 r
           in if recv_res < 0
              then if sys_errno S w = EAGAIN \<or> sys_errno S w = EWOULDBLOCK
                   then ((ERROR_NOTHING_RECEIVED, receiveData), w)
                   else ((ERROR_SYSTEM, receiveData), w)
              else if recv_res = 0 then ((ERROR_PEER_DISCONNECTED, receiveData), w)
              else ((RR_OK, take (nat recv_res) rec_data), w))"

definition Socket_receive ::
  "'w Sys \<Rightarrow> bytes \<Rightarrow> socket \<Rightarrow> 'w \<Rightarrow> (ReceiveResult \<times> bytes) \<times> socket \<times> 'w" where
  "Socket_receive S receiveData so w =
     (let ((result, receiveData), w) = receive_body S receiveData so w
      in if result = ERROR_SYSTEM
         then let (so, w) = Socket_close S so w
              in ((result, receiveData), Socket_setErrno S w so, w)
         else ((result, receiveData), Socket_clearErrno so, w))"

definition Socket_send :: "'w Sys \<Rightarrow> bytes \<Rightarrow> socket \<Rightarrow> 'w \<Rightarrow> u64 \<times> socket \<times> 'w" where
  "Socket_send S dataToSend so w =
     (if Socket_isConnected so \<and> \<not> Socket_isListener so
      then let (bytes_sent, w) = sys_send S (m_socket_fd so) dataToSend w
           in if 0 \<le> bytes_sent then (word_of_int bytes_sent, Socket_clearErrno so, w)
              else (0, Socket_setErrno S w so, w)
      else (0, so, w))"

section \<open>Peer addresses\<close>

text \<open>
  The queries read the peer's address from a stack object of type \<open>sockaddr\<close> (16 bytes) that
  \<open>getpeername\<close> filled. \<open>read_object\<close> reads a field of the object at an offset; a read that
  leaves the object, or that reaches bytes never written, has no defined value.
\<close>

definition read_object :: "nat \<Rightarrow> nat \<Rightarrow> bytes \<Rightarrow> bytes option" where
  "read_object off n storage =
     (if off + n \<le> SIZEOF_SOCKADDR \<and> off + n \<le> length storage
      then Some (take n (drop off storage)) else None)"

definition sa_family :: "bytes \<Rightarrow> int option" where
  "sa_family storage =
     do { bs \<leftarrow> read_object 0 2 storage;
          Some (uint (bs ! 0) + 256 * uint (bs ! 1)) }"

definition sin_addr :: "bytes \<Rightarrow> bytes option" where
  "sin_addr storage = read_object 4 4 storage"

definition sin6_addr :: "bytes \<Rightarrow> bytes option" where
  "sin6_addr storage = read_object 8 16 storage"

text \<open>\<open>ntohs\<close> of the port field, which lies at the same offset in both address types.\<close>

definition ntohs_port :: "bytes \<Rightarrow> u16 option" where
  "ntohs_port storage =
     do { bs \<leftarrow> read_object 2 2 storage;
          Some (word_of_int (256 * uint (bs ! 0) + uint (bs ! 1))) }"

definition Socket_peerIpAddress :: "'w Sys \<Rightarrow> socket \<Rightarrow> 'w \<Rightarrow> (string \<times> 'w) option" where
  "Socket_peerIpAddress S so w =
     (if \<not> Socket_isListener so \<and> Socket_isConnected so
      then let ((r, storage, len), w) = sys_getpeername S (m_socket_fd so) SIZEOF_SOCKADDR w
           in if r = 0
              then do { family \<leftarrow> sa_family storage;
                        if family = AF_INET
                        then do { a \<leftarrow> sin_addr storage; Some (sys_inet_ntop S AF_INET a, w) }
                        else do { a \<leftarrow> sin6_addr storage; Some (sys_inet_ntop S AF_INET6 a, w) } }
              else Some ([], w)
      else Some ([], w))"

definition Socket_peerPort :: "'w Sys \<Rightarrow> socket \<Rightarrow> 'w \<Rightarrow> (u16 \<times> 'w) option" where
  "Socket_peerPort S so w =
     (if \<not> Socket_isListener so \<and> Socket_isConnected so
      then let ((r, storage, len), w) = sys_getpeername S (m_socket_fd so) SIZEOF_SOCKADDR w
           in if r = 0
              then do { family \<leftarrow> sa_family storage;
                        if family = AF_INET
                        then do { p \<leftarrow> ntohs_port storage; Some (p, w) }
                        else if family = AF_INET6
                        then do { p \<leftarrow> ntohs_port storage; Some (p, w) }
                        else Some (0, w) }
              else Some (0, w)
      else Some (0, w))"

definition Socket_ownIpAddress :: "'w Sys \<Rightarrow> socket \<Rightarrow> 'w \<Rightarrow> string \<times> 'w" where
  "Socket_ownIpAddress S so w =
     (let ((r, c_string), w) = sys_gethostname S 100 w
      in if r \<noteq> -1 then (c_string, w) else ([], w))"

definition Socket_peerName :: "'w Sys \<Rightarrow> socket \<Rightarrow> 'w \<Rightarrow> (string \<times> 'w) option" where
  "Socket_peerName S so w =
     (if \<not> Socket_isListener so \<and> Socket_isConnected so
      then let ((r, storage, len), w) = sys_getpeername S (m_socket_fd so) SIZEOF_SOCKADDR w
           in if r = 0
              then do { address \<leftarrow> read_object 0 len storage;
                        let ((name_info_result, host_name), w) = sys_getnameinfo S address w;
                        Some (if name_info_result = 0 then host_name else [], w) }
              else Some ([], w)
      else Some ([], w))"

section \<open>Setters and the vtable\<close>

definition Socket_setReceiveBufferSize :: "u64 \<Rightarrow> socket \<Rightarrow> socket" where
  "Socket_setReceiveBufferSize newSize so = so\<lparr>m_receive_buffer_size := newSize\<rparr>"

definition Socket_setSleepTime :: "u32 \<Rightarrow> socket \<Rightarrow> socket" where
  "Socket_setSleepTime milliseconds so = so\<lparr>m_sleep_time := milliseconds\<rparr>"

definition Socket_vt :: "'w Sys \<Rightarrow> (socket, 'w) ISocket" where
  "Socket_vt S =
     \<lparr>vlisten = Socket_listen S,
      vconnect = Socket_connect S,
      vclose = Socket_close S,
      vaccept = Socket_accept S,
      vreceive = Socket_receive S,
      vsend = Socket_send S,
      vsocketNumber = Socket_socketNumber,
      visListener = Socket_isListener,
      vlistenPort = Socket_listenPort,
      visConnected = Socket_isConnected,
      visListening = Socket_isListening,
      vpeerIpAddress = Socket_peerIpAddress S,
      vpeerPort = Socket_peerPort S,
      vownIpAddress = Socket_ownIpAddress S,
      vpeerName = Socket_peerName S,
      vsetReceiveBufferSize = Socket_setReceiveBufferSize,
      vreceiveBufferSize = Socket_receiveBufferSize,
      vsetSleepTime = Socket_setSleepTime,
      vsleepTime = Socket_sleepTime,
      vgetLastErrno = Socket_getLastErrno,
      vgetLastErrnoString = Socket_getLastErrnoString S,
      vdestroy = Socket_destroy S\<rparr>"

text \<open>
  What \<^verbatim>\<open>TcpNodePrivate\<close> creates sockets with unless it is told otherwise. The simplifier
  replaces it by the constructor.
\<close>

definition defaultNewSocket :: "'w \<Rightarrow> socket option \<times> 'w" where
  [simp]: "defaultNewSocket = (\<lambda>w. (Some Socket_new, w))"

end
