(* ===== verification/SocketProps.thy ===== *)
theory SocketProps
  imports Socket
begin

text \<open>
  Correctness of \<open>spw::Socket\<close>: the flag invariant and its preservation, the contract of
  \<^verbatim>\<open>ISocket\<close> (the interpretation of the locales of theory \<open>ISocket\<close>), the branches of
  \<open>receive\<close> and \<open>send\<close>, error numbers, and descriptor accounting.
\<close>

section \<open>The flag invariant\<close>

text \<open>
  A socket listens exactly when it is a listener, is never connected and listening at once,
  and holds an open descriptor whenever it is either.
\<close>

definition socket_ok :: "socket \<Rightarrow> bool" where
  "socket_ok so \<longleftrightarrow>
     m_is_listening so = m_is_listener so \<and>
     \<not> (m_is_connected so \<and> m_is_listener so) \<and>
     (m_is_connected so \<or> m_is_listener so \<longrightarrow> m_socket_fd so \<noteq> -1)"

lemmas errno_defs = Socket_setErrno_def Socket_clearErrno_def Socket_getLastErrno_def

lemma socket_ok_new: "socket_ok Socket_new"
  by (simp add: socket_ok_def Socket_new_def)

lemma Socket_close_eq:
  "Socket_close S so w =
     (so\<lparr>m_is_connected := False, m_is_listening := False, m_is_listener := False,
         m_socket_fd := -1\<rparr>, sys_close S (m_socket_fd so) w)"
  by (simp add: Socket_close_def closeSocket_def Let_def)

lemma setNonBlocking_fd: "setNonBlocking S fd w = (True, w') \<Longrightarrow> fd \<noteq> -1"
  by (auto simp: setNonBlocking_def split: if_splits)

text \<open>What the loop of \<open>listen\<close> may change, and when it succeeds.\<close>

lemma listen_loop_frame:
  "listen_loop S port ais so w = (b, so', w') \<Longrightarrow>
     m_is_connected so' = m_is_connected so \<and> m_is_listening so' = m_is_listening so \<and>
     m_receive_buffer_size so' = m_receive_buffer_size so \<and>
     m_last_errno so' = m_last_errno so \<and>
     (if b then m_is_listener so' \<and> m_socket_fd so' \<noteq> -1 \<and> m_listen_port so' = port
      else m_is_listener so' = m_is_listener so \<and> m_listen_port so' = m_listen_port so)"
proof (induction ais arbitrary: so w)
  case Nil
  then show ?case by simp
next
  case (Cons ai ais)
  from Cons.prems show ?case
    by (auto simp: Let_def split: prod.splits if_splits dest!: Cons.IH setNonBlocking_fd)
qed

lemma Socket_listen_flags:
  assumes "Socket_listen S port ver so w = (b, so', w')"
  shows "m_is_listener so' = b" and "m_is_listening so' = b" and "\<not> m_is_connected so'"
    and "b \<Longrightarrow> m_listen_port so' = port \<and> m_socket_fd so' \<noteq> -1 \<and> m_last_errno so' = 0"
    and "m_receive_buffer_size so' = m_receive_buffer_size so"
  using assms
  by (auto simp: Socket_listen_def Socket_close_eq Let_def errno_defs
      split: prod.splits if_splits dest!: listen_loop_frame)

lemma connect_first_frame:
  "connect_first S ai so w = (b, so', w') \<Longrightarrow>
     m_is_connected so' = m_is_connected so \<and> m_is_listening so' = m_is_listening so \<and>
     m_is_listener so' = m_is_listener so \<and>
     m_receive_buffer_size so' = m_receive_buffer_size so \<and> m_last_errno so' = m_last_errno so \<and>
     (b \<longrightarrow> m_socket_fd so' \<noteq> -1)"
  by (auto simp: connect_first_def Let_def split: prod.splits if_splits dest: setNonBlocking_fd)

lemma Socket_connect_flags:
  assumes "Socket_connect S ip port so w = (b, so', w')"
  shows "m_is_connected so' = b" and "\<not> m_is_listener so'" and "\<not> m_is_listening so'"
    and "m_receive_buffer_size so' = m_receive_buffer_size so"
    and "if b then m_socket_fd so' \<noteq> -1 \<and> m_last_errno so' = 0
         else m_socket_fd so' = -1 \<and> m_last_errno so' = sys_errno S w'"
  using assms
  by (auto simp: Socket_connect_def Socket_close_eq Let_def errno_defs
      split: prod.splits if_splits list.splits dest!: connect_first_frame)

section \<open>The contract of ISocket\<close>

lemma Socket_accept_cases:
  assumes "Socket_accept S so w = (r, so', w')"
  shows "so' = so \<and> (\<forall>n. r = Some n \<longrightarrow> m_is_listener so \<and>
           (\<exists>fd. fd \<noteq> -1 \<and> n = Socket_new\<lparr>m_socket_fd := fd, m_is_connected := True\<rparr>)) \<and>
           (r = None \<longrightarrow> \<not> m_is_listener so) \<or>
         r = None \<and> m_is_listener so \<and> so' = so\<lparr>m_last_errno := 0\<rparr>"
  using assms
  by (auto simp: Socket_accept_def Let_def errno_defs split: prod.splits if_splits)

lemma vt_simps [simp]:
  "vlisten (Socket_vt S) = Socket_listen S" "vconnect (Socket_vt S) = Socket_connect S"
  "vclose (Socket_vt S) = Socket_close S" "vaccept (Socket_vt S) = Socket_accept S"
  "vreceive (Socket_vt S) = Socket_receive S" "vsend (Socket_vt S) = Socket_send S"
  "visListener (Socket_vt S) = m_is_listener" "vlistenPort (Socket_vt S) = m_listen_port"
  "visConnected (Socket_vt S) = m_is_connected" "visListening (Socket_vt S) = m_is_listening"
  "vpeerIpAddress (Socket_vt S) = Socket_peerIpAddress S"
  "vpeerPort (Socket_vt S) = Socket_peerPort S" "vpeerName (Socket_vt S) = Socket_peerName S"
  "vsetReceiveBufferSize (Socket_vt S) = Socket_setReceiveBufferSize"
  "vreceiveBufferSize (Socket_vt S) = m_receive_buffer_size"
  "vgetLastErrno (Socket_vt S) = Socket_getLastErrno"
  "vgetLastErrnoString (Socket_vt S) = Socket_getLastErrnoString S"
  "vdestroy (Socket_vt S) = Socket_destroy S"
  by (simp_all add: Socket_vt_def fun_eq_iff)

interpretation posix_errno_source: errno_source "Socket_vt S" m_last_errno "sys_strerror S"
  for S :: "'w Sys"
  by unfold_locales
    (auto simp: Socket_getLastErrno_def Socket_getLastErrnoString_def Let_def)

interpretation posix_socket:
  stream_socket "Socket_vt S" m_last_errno "sys_strerror S" socket_ok SPW_DEF_RECBUF_SIZE
  for S :: "'w Sys"
proof unfold_locales
  fix ver p ip and so so' n :: socket and w w' :: 'w and b :: bool and d r
  show "socket_ok so' \<and> \<not> visConnected (Socket_vt S) so' \<and> \<not> visListener (Socket_vt S) so' \<and>
      \<not> visListening (Socket_vt S) so'"
    if "vclose (Socket_vt S) so w = (so', w')"
    using that by (auto simp: Socket_close_eq socket_ok_def)
  show "socket_ok so' \<and> visListener (Socket_vt S) so' \<and> visListening (Socket_vt S) so' \<and>
      vlistenPort (Socket_vt S) so' = p \<and> \<not> visConnected (Socket_vt S) so'"
    if "vlisten (Socket_vt S) p ver so w = (True, so', w')"
    using Socket_listen_flags [of S p ver so w True so' w'] that by (simp add: socket_ok_def)
  show "socket_ok so' \<and> \<not> visListener (Socket_vt S) so' \<and> \<not> visListening (Socket_vt S) so' \<and>
      \<not> visConnected (Socket_vt S) so'"
    if "vlisten (Socket_vt S) p ver so w = (False, so', w')"
    using Socket_listen_flags [of S p ver so w False so' w'] that by (simp add: socket_ok_def)
  show "socket_ok so' \<and> visConnected (Socket_vt S) so' = b \<and> \<not> visListener (Socket_vt S) so' \<and>
      \<not> visListening (Socket_vt S) so' \<and>
      vreceiveBufferSize (Socket_vt S) so' = vreceiveBufferSize (Socket_vt S) so"
    if "vconnect (Socket_vt S) ip p so w = (b, so', w')"
    using Socket_connect_flags [of S ip p so w b so' w'] that
    by (auto simp: socket_ok_def split: if_splits)
  show "socket_ok n \<and> visConnected (Socket_vt S) n \<and> \<not> visListener (Socket_vt S) n \<and>
      vreceiveBufferSize (Socket_vt S) n = SPW_DEF_RECBUF_SIZE"
    if "vaccept (Socket_vt S) so w = (Some n, so', w')"
    using Socket_accept_cases [of S so w "Some n" so' w'] that
    by (auto simp: socket_ok_def Socket_new_def socket.defs)
  show "visListener (Socket_vt S) so' = visListener (Socket_vt S) so \<and>
      visListening (Socket_vt S) so' = visListening (Socket_vt S) so \<and>
      (socket_ok so \<longrightarrow> socket_ok so')"
    if "vaccept (Socket_vt S) so w = (r, so', w')"
    using Socket_accept_cases [of S so w r so' w'] that by (auto simp: socket_ok_def)
  show "m_last_errno so' = 0"
    if "vaccept (Socket_vt S) so w = (None, so', w')" "visListener (Socket_vt S) so"
    using Socket_accept_cases [of S so w None so' w'] that by auto
  show "fst (fst (vreceive (Socket_vt S) d so w)) = ERROR_IS_LISTENER"
    if "visListener (Socket_vt S) so"
    using that by (simp add: Socket_receive_def receive_body_def Let_def)
  show "fst (fst (vreceive (Socket_vt S) d so w)) = ERROR_NO_CONNECTION"
    if "\<not> visListener (Socket_vt S) so" "\<not> visConnected (Socket_vt S) so"
    using that by (simp add: Socket_receive_def receive_body_def Let_def)
  show "\<not> (visConnected (Socket_vt S) so \<and> visListener (Socket_vt S) so)" if "socket_ok so"
    using that by (auto simp: socket_ok_def)
qed

section \<open>Error numbers\<close>

lemma posix_keepsD:
  assumes "posix_keeps S P"
  shows "P w \<Longrightarrow> P (sys_close S fd w)"
    and "P w \<Longrightarrow> P (sys_freeaddrinfo S ais w)"
    and "P w \<Longrightarrow> P (sys_sleep S ms w)"
    and "sys_fcntl_getfl S fd w = (r, w') \<Longrightarrow> P w \<longrightarrow> P w'"
    and "sys_fcntl_setfl S fd fl w = (r, w') \<Longrightarrow> P w \<longrightarrow> P w'"
    and "sys_getaddrinfo S h s hints w = (ra, w') \<Longrightarrow> P w \<longrightarrow> P w'"
    and "sys_socket S f t p w = (r, w') \<Longrightarrow> P w \<longrightarrow> P w'"
    and "sys_connect S fd a w = (r, w') \<Longrightarrow> P w \<longrightarrow> P w'"
    and "sys_getsockopt_error S fd w = (rs, w') \<Longrightarrow> P w \<longrightarrow> P w'"
  using assms unfolding posix_keeps_def by (metis snd_conv)+

lemma setNonBlocking_keeps:
  assumes k: "posix_keeps S P" and "setNonBlocking S fd w = (b, w')"
  shows "P w \<longrightarrow> P w'"
  using assms(2)
  by (auto simp: setNonBlocking_def Let_def split: prod.splits if_splits
      dest!: posix_keepsD(4-9) [OF k])

lemma connect_first_keeps:
  assumes k: "posix_keeps S P" and "connect_first S ai so w = (b, so', w')"
  shows "P w \<longrightarrow> P w'"
  using assms(2)
  by (auto simp: connect_first_def Let_def posix_keepsD(1-3) [OF k] split: prod.splits if_splits
      dest!: posix_keepsD(4-9) [OF k] setNonBlocking_keeps [OF k])

lemma Socket_connect_keeps:
  assumes k: "posix_keeps S P" and "P (sys_close S (m_socket_fd so) w)"
    and "Socket_connect S ip port so w = (b, so', w')"
  shows "P w'"
  using assms(2,3)
  by (auto simp: Socket_connect_def Socket_close_eq Let_def posix_keepsD(1-3) [OF k]
      split: prod.splits if_splits list.splits
      dest!: posix_keepsD(4-9) [OF k] connect_first_keeps [OF k])

text \<open>
  A failed \<open>connect\<close> of a fresh socket always leaves a nonzero error number: the initial
  \<open>close\<close> of descriptor \<open>-1\<close> sets \<open>errno\<close>, and nothing clears it.
\<close>

lemma Socket_connect_errno:
  assumes S: "posix_errno S" and fd: "m_socket_fd so = -1"
    and c: "Socket_connect S ip port so w = (False, so', w')"
  shows "m_last_errno so' \<noteq> 0"
proof -
  from S have k: "posix_keeps S (\<lambda>w. sys_errno S w \<noteq> 0)"
    and "sys_errno S (sys_close S (m_socket_fd so) w) \<noteq> 0"
    by (auto simp: posix_errno_def fd)
  then have "sys_errno S w' \<noteq> 0" using Socket_connect_keeps [OF k _ c] by simp
  with Socket_connect_flags(5) [OF c] show ?thesis by simp
qed

section \<open>Descriptor accounting\<close>

lemma posix_fdsD:
  assumes "posix_fds S fds"
  shows "fds (sys_close S fd w) = fds w - {fd}"
    and "sys_fcntl_getfl S fd w = (r, w') \<Longrightarrow> fds w' = fds w"
    and "sys_fcntl_setfl S fd fl w = (r, w') \<Longrightarrow> fds w' = fds w"
    and "sys_getaddrinfo S h s hints w = (ra, w') \<Longrightarrow> fds w' = fds w"
    and "fds (sys_freeaddrinfo S ais w) = fds w"
    and "sys_setsockopt_reuseaddr S fd y w = (r, w') \<Longrightarrow> fds w' = fds w"
    and "sys_bind S fd a w = (r, w') \<Longrightarrow> fds w' = fds w"
    and "sys_listen S fd bl w = (r, w') \<Longrightarrow> fds w' = fds w"
    and "sys_connect S fd a w = (r, w') \<Longrightarrow> fds w' = fds w"
    and "sys_getsockopt_error S fd w = (rs, w') \<Longrightarrow> fds w' = fds w"
    and "fds (sys_sleep S ms w) = fds w"
    and "sys_socket S f t p w = (r, w') \<Longrightarrow> opens_fd fds w (r, w')"
    and "sys_accept S fd w = (r, w') \<Longrightarrow> opens_fd fds w (r, w')"
    and "sys_recv S fd n w = (rb, w') \<Longrightarrow> fds w' = fds w"
    and "sys_send S fd d w = (r, w') \<Longrightarrow> fds w' = fds w"
  using assms unfolding posix_fds_def by (metis snd_conv)+

lemma setNonBlocking_fds:
  assumes "posix_fds S fds" and "setNonBlocking S fd w = (b, w')"
  shows "fds w' = fds w"
  using assms(2)
  by (auto simp: setNonBlocking_def Let_def split: prod.splits if_splits
      dest!: posix_fdsD(2,3) [OF assms(1)])

lemma listen_prepare_fds:
  assumes "posix_fds S fds" and "listen_prepare S fd ai w = (b, w')"
  shows "fds w' = fds w"
  using assms(2)
  by (auto simp: listen_prepare_def Let_def split: prod.splits if_splits
      dest!: posix_fdsD(6-8) [OF assms(1)])

lemma connect_first_fds:
  assumes S: "posix_fds S fds" and c: "connect_first S ai so w = (b, so', w')"
  shows "opens_fd fds w (m_socket_fd so', w')"
proof -
  obtain fd w1 where s: "sys_socket S (ai_family ai) (ai_socktype ai) (ai_protocol ai) w = (fd, w1)"
    by (cases "sys_socket S (ai_family ai) (ai_socktype ai) (ai_protocol ai) w")
  with c have "m_socket_fd so' = fd \<and> fds w' = fds w1"
    by (auto simp: connect_first_def Let_def posix_fdsD(11) [OF S] split: prod.splits if_splits
        dest!: setNonBlocking_fds [OF S] posix_fdsD(9,10) [OF S])
  with posix_fdsD(12) [OF S s] show ?thesis by (simp add: opens_fd_def)
qed

lemma opens_fd_closed: "opens_fd fds w (fd, w') \<Longrightarrow> -1 \<notin> fds w \<Longrightarrow> fds w' - {fd} = fds w"
  by (auto simp: opens_fd_def)

lemma opens_fd_opened:
  "opens_fd fds w (fd, w') \<Longrightarrow> fd \<noteq> -1 \<Longrightarrow> fd \<notin> fds w \<and> fds w' = insert fd (fds w)"
  by (auto simp: opens_fd_def)

text \<open>
  \<open>connect\<close> releases the descriptor it held; on success it owns exactly one new one, on
  failure none: no descriptor leaks on any path.
\<close>

lemma Socket_connect_fds:
  assumes S: "posix_fds S fds" and neg: "-1 \<notin> fds w"
    and c: "Socket_connect S ip port so w = (b, so', w')"
  shows "if b then m_socket_fd so' \<notin> fds w - {m_socket_fd so} \<and>
              fds w' = insert (m_socket_fd so') (fds w - {m_socket_fd so})
         else fds w' = fds w - {m_socket_fd so} \<and> m_socket_fd so' = -1"
proof -
  obtain rc ais w1 where g: "sys_getaddrinfo S (Some ip) (to_string_u16 port) connect_hints
      (sys_close S (m_socket_fd so) w) = ((rc, ais), w1)"
    by (metis surj_pair)
  have w1: "fds w1 = fds w - {m_socket_fd so}"
    using posix_fdsD(4) [OF S g] by (simp add: posix_fdsD(1) [OF S])
  show ?thesis
  proof (cases "rc = 0 \<and> ais \<noteq> []")
    case False
    then have "\<not> b \<and> m_socket_fd so' = -1 \<and> fds w' = fds w1 - {-1}"
      using c g
      by (cases "rc = 0") (simp_all add: Socket_connect_def Socket_close_eq Let_def errno_defs
          posix_fdsD(1) [OF S], (elim conjE, hypsubst, simp add: posix_fdsD(1) [OF S])+)
    with w1 neg show ?thesis by simp
  next
    case True
    then obtain ai rest where ais: "ais = ai # rest" by (cases ais) auto
    obtain b2 so2 w2 where f: "connect_first S ai
        (so\<lparr>m_is_connected := False, m_is_listening := False, m_is_listener := False,
            m_socket_fd := -1\<rparr>) w1 = (b2, so2, w2)"
      by (metis prod_cases3)
    have o: "opens_fd fds w1 (m_socket_fd so2, w2)"
      by (rule connect_first_fds [OF S f])
    have "b = b2 \<and> (if b then m_socket_fd so' = m_socket_fd so2 \<and> fds w' = fds w2
        else m_socket_fd so' = -1 \<and> fds w' = fds w2 - {m_socket_fd so2})"
      using c g ais True f
      by (auto simp: Socket_connect_def Socket_close_eq Let_def errno_defs
          posix_fdsD(1,5) [OF S] split: if_splits)
    moreover have "b2 \<Longrightarrow> m_socket_fd so2 \<noteq> -1"
      using connect_first_frame [OF f] by simp
    moreover have "-1 \<notin> fds w1" using w1 neg by simp
    ultimately show ?thesis
      using opens_fd_closed [OF o] opens_fd_opened [OF o] unfolding w1 [symmetric]
      by (cases b) simp_all
  qed
qed

text \<open>With working \<open>fcntl\<close> calls the loop of \<open>listen\<close> closes every descriptor it gives up.\<close>

lemma setNonBlocking_ok:
  assumes "posix_fcntl_ok S" and "0 \<le> fd"
  shows "fst (setNonBlocking S fd w)"
  using assms
  by (auto simp: setNonBlocking_def posix_fcntl_ok_def Let_def split: prod.splits if_splits)
    (metis fst_conv)+

lemma listen_loop_fds:
  assumes S: "posix_fds S fds" and F: "posix_fcntl_ok S"
  shows "-1 \<notin> fds w \<Longrightarrow> listen_loop S port ais so w = (b, so', w') \<Longrightarrow>
    (if b then m_socket_fd so' \<notin> fds w \<and> fds w' = insert (m_socket_fd so') (fds w)
     else fds w' = fds w)"
proof (induction ais arbitrary: so w)
  case Nil
  then show ?case by simp
next
  case (Cons ai ais)
  obtain fd w1 where s: "sys_socket S (ai_family ai) (ai_socktype ai) (ai_protocol ai) w = (fd, w1)"
    by (metis surj_pair)
  obtain p w2 where l: "listen_prepare S fd ai w1 = (p, w2)" by (metis surj_pair)
  obtain nb w3 where n: "setNonBlocking S fd w2 = (nb, w3)" by (metis surj_pair)
  have w: "fds w2 = fds w1" "fds w3 = fds w1"
    using listen_prepare_fds [OF S l] setNonBlocking_fds [OF S n] by auto
  have o: "fd = -1 \<and> fds w1 = fds w \<or> 0 \<le> fd \<and> fd \<notin> fds w \<and> fds w1 = insert fd (fds w)"
    using posix_fdsD(12) [OF S s] by (simp add: opens_fd_def)
  have "fd \<noteq> -1 \<Longrightarrow> nb"
    using setNonBlocking_ok [OF F, of fd w2] o n by auto
  moreover have "-1 \<notin> fds w1" "fds (sys_close S fd w2) = fds w1 - {fd}"
    using o Cons.prems(1) by (auto simp: posix_fdsD(1) [OF S] w)
  ultimately show ?case
    using Cons.prems(2) Cons.prems(1) o w s l n
      Cons.IH [of w1 "so\<lparr>m_socket_fd := -1\<rparr>"]
      Cons.IH [of "sys_close S fd w2" "so\<lparr>m_socket_fd := -1\<rparr>"]
    by (auto simp: Let_def closeSocket_def split: if_splits)
qed

lemma Socket_listen_fds:
  assumes S: "posix_fds S fds" and F: "posix_fcntl_ok S" and neg: "-1 \<notin> fds w"
    and c: "Socket_listen S port ver so w = (b, so', w')"
  shows "if b then m_socket_fd so' \<notin> fds w - {m_socket_fd so} \<and>
              fds w' = insert (m_socket_fd so') (fds w - {m_socket_fd so})
         else fds w' = fds w - {m_socket_fd so}"
proof -
  obtain rc ais w1 where g: "sys_getaddrinfo S None (to_string_u16 port) (listen_hints ver)
      (sys_close S (m_socket_fd so) w) = ((rc, ais), w1)"
    by (metis surj_pair)
  have w1: "fds w1 = fds w - {m_socket_fd so}"
    using posix_fdsD(4) [OF S g] by (simp add: posix_fdsD(1) [OF S])
  obtain b2 so2 w2 where f: "listen_loop S port ais
      (so\<lparr>m_is_connected := False, m_is_listening := False, m_is_listener := False,
          m_socket_fd := -1\<rparr>) w1 = (b2, so2, w2)"
    by (metis prod_cases3)
  have l: "if b2 then m_socket_fd so2 \<notin> fds w1 \<and> fds w2 = insert (m_socket_fd so2) (fds w1)
      else fds w2 = fds w1"
    using listen_loop_fds [OF S F _ f] neg w1 by simp
  have "fds w' = (if port = 0 then fds w - {m_socket_fd so} else if rc = 0 then fds w2 else fds w1)"
    and "b = (port \<noteq> 0 \<and> rc = 0 \<and> b2)" and "b \<Longrightarrow> m_socket_fd so' = m_socket_fd so2"
    using c g f
    by (auto simp: Socket_listen_def Socket_close_eq Let_def errno_defs
        posix_fdsD(1,5) [OF S] split: if_splits)
  with l w1 show ?thesis by (auto split: if_splits)
qed

text \<open>
  Without that hypothesis the loop leaks: when the first address's socket cannot be made
  non-blocking, the loop goes on without closing it, and the next address overwrites the
  only variable that held its number.
\<close>

lemma listen_loop_keeps_open:
  assumes S: "posix_fds S fds"
    and fd: "0 \<le> fd"
  shows "fd \<in> fds w \<Longrightarrow> listen_loop S port ais so w = (b, so', w') \<Longrightarrow>
    fd \<in> fds w' \<and> (ais \<noteq> [] \<longrightarrow> m_socket_fd so' \<noteq> fd)"
proof (induction ais arbitrary: so w)
  case Nil
  then show ?case by simp
next
  case (Cons ai ais)
  obtain fd1 w1 where s: "sys_socket S (ai_family ai) (ai_socktype ai) (ai_protocol ai) w = (fd1, w1)"
    by (metis surj_pair)
  obtain p w2 where l: "listen_prepare S fd1 ai w1 = (p, w2)" by (metis surj_pair)
  obtain nb w3 where n: "setNonBlocking S fd1 w2 = (nb, w3)" by (metis surj_pair)
  have w: "fds w2 = fds w1" "fds w3 = fds w1"
    using listen_prepare_fds [OF S l] setNonBlocking_fds [OF S n] by auto
  have o: "fd1 = -1 \<and> fds w1 = fds w \<or> 0 \<le> fd1 \<and> fd1 \<notin> fds w \<and> fds w1 = insert fd1 (fds w)"
    using posix_fdsD(12) [OF S s] by (simp add: opens_fd_def)
  have "fd \<in> fds w1" "fd \<in> fds w3" "fd \<in> fds (sys_close S fd1 w2)" "fd1 \<noteq> fd"
    using o w fd Cons.prems(1) by (auto simp: posix_fdsD(1) [OF S])
  then show ?case
    using Cons.prems(2) s l n Cons.IH [of w1 "so\<lparr>m_socket_fd := -1\<rparr>"]
      Cons.IH [of w3 "so\<lparr>m_socket_fd := fd1\<rparr>"]
      Cons.IH [of "sys_close S fd1 w2" "so\<lparr>m_socket_fd := -1\<rparr>"]
    using fd by (cases ais) (auto simp: Let_def closeSocket_def split: if_splits)
qed

section \<open>Receiving and sending\<close>

lemma to_int32_id: "- (2 ^ 31) \<le> r \<Longrightarrow> r < 2 ^ 31 \<Longrightarrow> to_int32 r = r"
  by (simp add: to_int32_def signed_take_bit_int_eq_self)

text \<open>The results of \<open>receive\<close> on a connected socket, by what \<open>recv\<close> returned.\<close>

definition receive_class :: "'w Sys \<Rightarrow> int \<Rightarrow> 'w \<Rightarrow> ReceiveResult" where
  "receive_class S r w =
     (if r = 0 then ERROR_PEER_DISCONNECTED
      else if 0 < r then RR_OK
      else if sys_errno S w = EAGAIN then ERROR_NOTHING_RECEIVED
      else ERROR_SYSTEM)"

lemma Socket_receive_connected:
  assumes so: "m_is_connected so" "\<not> m_is_listener so"
    and r: "sys_recv S (m_socket_fd so) (unat (m_receive_buffer_size so)) w = ((r, d), w1)"
    and range: "- (2 ^ 31) \<le> r" "r < 2 ^ 31"
  shows "Socket_receive S rd so w =
    (case receive_class S r w1 of
       RR_OK \<Rightarrow> ((RR_OK, take (nat r) d), so\<lparr>m_last_errno := 0\<rparr>, w1)
     | ERROR_SYSTEM \<Rightarrow>
         (let (so', w') = Socket_close S so w1
          in ((ERROR_SYSTEM, rd), so'\<lparr>m_last_errno := sys_errno S w'\<rparr>, w'))
     | e \<Rightarrow> ((e, rd), so\<lparr>m_last_errno := 0\<rparr>, w1))"
  using so r to_int32_id [OF range]
  by (auto simp: Socket_receive_def receive_body_def receive_class_def errno_defs Let_def
      split: prod.splits)

lemma receive_body_results:
  assumes "posix_transfer S" and "receive_body S rd so w = ((r, d), w')"
    and n: "unat (m_receive_buffer_size so) < 2 ^ 31"
  shows "(r = RR_OK \<longrightarrow> d \<noteq> [] \<and> length d \<le> unat (m_receive_buffer_size so)) \<and>
         (r \<noteq> RR_OK \<longrightarrow> d = rd)"
proof (cases "m_is_listener so \<or> \<not> m_is_connected so")
  case True
  with assms(2) show ?thesis by (cases "m_is_listener so") (auto simp: receive_body_def)
next
  case False
  obtain x b w1 where q: "sys_recv S (m_socket_fd so) (unat (m_receive_buffer_size so)) w = ((x, b), w1)"
    by (metis surj_pair)
  have x: "-1 \<le> x" "x \<le> int (unat (m_receive_buffer_size so))" "0 \<le> x \<longrightarrow> int (length b) = x"
    using assms(1) q unfolding posix_transfer_def by blast+
  have "int (unat (m_receive_buffer_size so)) < 2 ^ 31"
    using n by (metis of_nat_less_iff of_nat_numeral of_nat_power)
  then have "x < 2 ^ 31" using x(2) by (rule le_less_trans [rotated])
  then have "to_int32 x = x" using x(1) by (intro to_int32_id) auto
  with False q assms(2)
  have rd: "(r, d) = (if x < 0 then (if sys_errno S w1 = EAGAIN then (ERROR_NOTHING_RECEIVED, rd)
                                  else (ERROR_SYSTEM, rd))
                   else if x = 0 then (ERROR_PEER_DISCONNECTED, rd) else (RR_OK, take (nat x) b))"
    by (auto simp: receive_body_def Let_def)
  have "0 < x \<Longrightarrow> length b \<le> unat (m_receive_buffer_size so)"
    using x(2,3) by linarith
  with rd x(3) show ?thesis by (auto split: if_splits)
qed

lemma receive_body_empty_buffer:
  assumes "posix_transfer S" and "m_receive_buffer_size so = 0"
    and "receive_body S rd so w = ((r, d), w')"
  shows "r \<noteq> RR_OK"
  using receive_body_results [OF assms(1,3)] assms(2) by auto

lemma Socket_receive_eq:
  "Socket_receive S rd so w = ((r, d), so', w') \<Longrightarrow>
     \<exists>w1. receive_body S rd so w = ((r, d), w1)"
  by (cases "receive_body S rd so w")
    (auto simp: Socket_receive_def Let_def split: prod.splits if_splits)

lemma Socket_receive_ok:
  assumes "Socket_receive S rd so w = ((r, d), so', w')" and "socket_ok so"
  shows "socket_ok so' \<and> m_receive_buffer_size so' = m_receive_buffer_size so \<and>
         (if r = ERROR_SYSTEM then \<not> m_is_connected so' \<and> m_socket_fd so' = -1
          else so' = so\<lparr>m_last_errno := 0\<rparr>)"
  using assms
  by (auto simp: Socket_receive_def Socket_close_eq errno_defs socket_ok_def Let_def
      split: prod.splits if_splits)

lemma Socket_send_bound:
  assumes "posix_transfer S" and "Socket_send S d so w = (n, so', w')"
    and len: "length d < 2 ^ 64"
  shows "unat n \<le> length d"
proof (cases "m_is_connected so \<and> \<not> m_is_listener so")
  case False
  with assms(2) show ?thesis by (auto simp: Socket_send_def)
next
  case True
  obtain r w1 where q: "sys_send S (m_socket_fd so) d w = (r, w1)" by (metis surj_pair)
  have r: "-1 \<le> r" "r \<le> int (length d)"
    using assms(1) q unfolding posix_transfer_def by blast+
  show ?thesis
  proof (cases "0 \<le> r")
    case False
    with True q assms(2) show ?thesis by (auto simp: Socket_send_def Let_def)
  next
    case r0: True
    with True q assms(2) have n: "n = word_of_int r" by (auto simp: Socket_send_def Let_def)
    have "int (length d) < 2 ^ 64"
      using len by (metis of_nat_less_iff of_nat_numeral of_nat_power)
    then have "r < 2 ^ 64" using r(2) by (rule le_less_trans [rotated])
    with r0 have "unat n = nat r"
      by (simp add: n unat_eq_nat_uint uint_word_of_int_eq take_bit_int_eq_self)
    with r(2) show ?thesis by simp
  qed
qed

lemma Socket_send_ok:
  "Socket_send S d so w = (n, so', w') \<Longrightarrow> so' = so\<lparr>m_last_errno := m_last_errno so'\<rparr>"
  by (auto simp: Socket_send_def errno_defs Let_def split: prod.splits if_splits)

section \<open>Peer addresses\<close>

text \<open>The bytes of an IPv4 address structure as \<open>getpeername\<close> stores them.\<close>

definition sockaddr_in :: "u16 \<Rightarrow> bytes \<Rightarrow> bytes" where
  "sockaddr_in port a =
     [2, 0, word_of_int (uint port div 256), word_of_int (uint port mod 256)] @ a @ replicate 8 0"

lemma port_bytes:
  fixes port :: u16
  shows "256 * uint (word_of_int (uint port div 256) :: u8) +
         uint (word_of_int (uint port mod 256) :: u8) = uint port"
proof -
  have "uint port < 2 ^ 16" by (rule order.strict_trans2 [OF uint_lt2p]) simp
  then have "uint port div 256 < 256" by simp
  then have "uint port div 256 mod 256 = uint port div 256"
    by (simp add: mod_pos_pos_trivial pos_imp_zdiv_nonneg_iff)
  then show ?thesis by (simp add: uint_word_of_int_eq take_bit_eq_mod)
qed

lemma ntohs_sockaddr_in:
  assumes "length a = 4"
  shows "ntohs_port (sockaddr_in port a) = Some port"
proof -
  have "read_object 2 2 (sockaddr_in port a) =
      Some [word_of_int (uint port div 256), word_of_int (uint port mod 256)]"
    using assms by (simp add: read_object_def sockaddr_in_def)
  then have "ntohs_port (sockaddr_in port a) =
      Some (word_of_int (256 * uint (word_of_int (uint port div 256) :: u8) +
                         uint (word_of_int (uint port mod 256) :: u8)))"
    unfolding ntohs_port_def by (simp only: bind.bind_lunit nth_Cons_0 nth_Cons_numeral One_nat_def nth_Cons_Suc)
  then show ?thesis by (simp only: port_bytes word_of_int_uint)
qed

lemma sa_family_sockaddr_in: "length a = 4 \<Longrightarrow> sa_family (sockaddr_in port a) = Some AF_INET"
  by (simp add: sa_family_def read_object_def sockaddr_in_def)

lemma sin_addr_sockaddr_in: "length a = 4 \<Longrightarrow> sin_addr (sockaddr_in port a) = Some a"
  by (simp add: sin_addr_def read_object_def sockaddr_in_def)

lemma peerName_sockaddr_in:
  assumes "m_is_connected so" and "\<not> m_is_listener so" and "length a = 4"
    and "sys_getpeername S (m_socket_fd so) 16 w = ((0, sockaddr_in port a, 16), w')"
  shows "Socket_peerName S so w =
    (case sys_getnameinfo S (sockaddr_in port a) w' of ((r, name), w'') \<Rightarrow>
       Some (if r = 0 then name else [], w''))"
proof -
  have "read_object 0 16 (sockaddr_in port a) = Some (sockaddr_in port a)"
    using assms(3) by (simp add: read_object_def sockaddr_in_def)
  with assms show ?thesis by (simp add: Socket_peerName_def split_beta)
qed

text \<open>What fits into 16 bytes of an IPv6 address structure: family, port, flow, half the address.\<close>

definition sockaddr_in6_head :: "u16 \<Rightarrow> bytes" where
  "sockaddr_in6_head port =
     [10, 0, word_of_int (uint port div 256), word_of_int (uint port mod 256)] @ replicate 12 0"

lemma sin6_addr_undefined: "sin6_addr storage = None"
  by (simp add: sin6_addr_def read_object_def)

lemma ipv4_names_defined:
  assumes "ipv4_peers S"
  shows "Socket_peerIpAddress S so w \<noteq> None" and "Socket_peerPort S so w \<noteq> None"
    and "Socket_peerName S so w \<noteq> None"
proof -
  obtain r st len w1 where g: "sys_getpeername S (m_socket_fd so) SIZEOF_SOCKADDR w = ((r, st, len), w1)"
    by (metis surj_pair)
  have st: "r = 0 \<Longrightarrow> length st = 16 \<and> len = 16 \<and> st ! 0 = 2 \<and> st ! 1 = 0"
    using assms g unfolding ipv4_peers_def by blast
  show "Socket_peerIpAddress S so w \<noteq> None"
    using st by (auto simp: Socket_peerIpAddress_def g sa_family_def sin_addr_def read_object_def)
  show "Socket_peerPort S so w \<noteq> None"
    using st by (auto simp: Socket_peerPort_def g sa_family_def ntohs_port_def read_object_def)
  show "Socket_peerName S so w \<noteq> None"
    using st by (auto simp: Socket_peerName_def g read_object_def Let_def split: prod.splits)
qed

section \<open>The calls together\<close>

text \<open>No call breaks the flag invariant, and the flags say what the call achieved.\<close>

lemma socket_calls_ok:
  assumes ok: "socket_ok so"
  shows "case Socket_listen S p ver so w of (b, so', w') \<Rightarrow>
      socket_ok so' \<and> m_is_listening so' = b \<and> (b \<longrightarrow> m_listen_port so' = p)"
    and "case Socket_connect S ip p so w of (b, so', w') \<Rightarrow> socket_ok so' \<and> m_is_connected so' = b"
    and "case Socket_accept S so w of (r, so', w') \<Rightarrow> socket_ok so' \<and>
      (case r of None \<Rightarrow> True | Some n \<Rightarrow> socket_ok n \<and> m_is_connected n)"
    and "case Socket_receive S d so w of (r, so', w') \<Rightarrow> socket_ok so'"
    and "case Socket_send S d so w of (n, so', w') \<Rightarrow> socket_ok so'"
    and "case Socket_close S so w of (so', w') \<Rightarrow>
      socket_ok so' \<and> \<not> m_is_connected so' \<and> \<not> m_is_listening so' \<and> m_socket_fd so' = -1"
proof -
  show "case Socket_listen S p ver so w of (b, so', w') \<Rightarrow>
      socket_ok so' \<and> m_is_listening so' = b \<and> (b \<longrightarrow> m_listen_port so' = p)"
    using Socket_listen_flags [of S p ver so w]
    by (cases "Socket_listen S p ver so w") (auto simp: socket_ok_def)
  show "case Socket_connect S ip p so w of (b, so', w') \<Rightarrow> socket_ok so' \<and> m_is_connected so' = b"
    using posix_socket.connect_flags [of S ip p so w]
    by (cases "Socket_connect S ip p so w") auto
  show "case Socket_accept S so w of (r, so', w') \<Rightarrow> socket_ok so' \<and>
      (case r of None \<Rightarrow> True | Some n \<Rightarrow> socket_ok n \<and> m_is_connected n)"
    using posix_socket.accept_listener [of S so w] posix_socket.accept_new [of S so w] ok
    by (cases "Socket_accept S so w") (auto split: option.split)
  show "case Socket_receive S d so w of (r, so', w') \<Rightarrow> socket_ok so'"
    using Socket_receive_ok [of S d so w] ok by (cases "Socket_receive S d so w") fastforce
  show "case Socket_send S d so w of (n, so', w') \<Rightarrow> socket_ok so'"
  proof -
    obtain n so' w' where s: "Socket_send S d so w = (n, so', w')" by (metis surj_pair)
    have "socket_ok (so\<lparr>m_last_errno := m_last_errno so'\<rparr>)" using ok by (simp add: socket_ok_def)
    then show ?thesis using Socket_send_ok [OF s] by (simp only: s prod.case)
  qed
  show "case Socket_close S so w of (so', w') \<Rightarrow>
      socket_ok so' \<and> \<not> m_is_connected so' \<and> \<not> m_is_listening so' \<and> m_socket_fd so' = -1"
    by (simp add: Socket_close_eq socket_ok_def)
qed

text \<open>The descriptor that \<open>listen\<close> opened and could not make non-blocking stays open, unreferenced.\<close>

lemma listen_loop_leak:
  assumes S: "posix_fds S fds"
    and s: "sys_socket S (ai_family ai) (ai_socktype ai) (ai_protocol ai) w = (fd, w1)" "fd \<noteq> -1"
    and l: "listen_prepare S fd ai w1 = (True, w2)" and n: "setNonBlocking S fd w2 = (False, w3)"
    and r: "listen_loop S port (ai # ais) so w = (b, so', w')" and ais: "ais \<noteq> []"
  shows "fd \<in> fds w' \<and> m_socket_fd so' \<noteq> fd"
proof -
  have "0 \<le> fd \<and> fd \<in> fds w1"
    using posix_fdsD(12) [OF S s(1)] s(2) by (auto simp: opens_fd_def)
  moreover have "fds w3 = fds w1"
    using listen_prepare_fds [OF S l] setNonBlocking_fds [OF S n] by simp
  ultimately have "0 \<le> fd" "fd \<in> fds w3" by auto
  moreover have "listen_loop S port ais (so\<lparr>m_socket_fd := fd\<rparr>) w3 = (b, so', w')"
    using r s l n by simp
  ultimately show ?thesis using listen_loop_keeps_open [OF S] ais by blast
qed

end
