(* ===== verification/Loopback.thy ===== *)
theory Loopback
  imports NodeTrace SocketProps
begin

text \<open>
  A small executable operating system, on which the properties are tried at concrete inputs:
  descriptors, an accept backlog, received data, and a switch that says whether a connection
  to it is accepted. Every address is 127.0.0.1:4242. It satisfies the hypotheses of \<open>Posix\<close>.
\<close>

section \<open>The system\<close>

record lw =
  lw_fds :: "int list"
  lw_errno :: int
  lw_backlog :: nat
  lw_inbox :: "bytes list"
  lw_reachable :: bool

definition lw_start :: lw where
  "lw_start = \<lparr>lw_fds = [], lw_errno = 0, lw_backlog = 0, lw_inbox = [], lw_reachable = False\<rparr>"

definition lw_fail :: "int \<Rightarrow> lw \<Rightarrow> lw" where
  "lw_fail e w = w\<lparr>lw_errno := e\<rparr>"

definition lw_open :: "lw \<Rightarrow> int \<times> lw" where
  "lw_open w = (let fd = foldr max (lw_fds w) 2 + 1 in (fd, w\<lparr>lw_fds := fd # lw_fds w\<rparr>))"

definition lw_close :: "int \<Rightarrow> lw \<Rightarrow> lw" where
  "lw_close fd w =
     (let w' = w\<lparr>lw_fds := removeAll fd (lw_fds w)\<rparr>
      in if fd < 0 \<or> fd \<notin> set (lw_fds w) then lw_fail EBADF w' else w')"

definition lw_accept :: "lw \<Rightarrow> int \<times> lw" where
  "lw_accept w =
     (if lw_backlog w = 0 then (-1, lw_fail EAGAIN w)
      else lw_open (w\<lparr>lw_backlog := lw_backlog w - 1\<rparr>))"

definition lw_recv :: "nat \<Rightarrow> lw \<Rightarrow> (int \<times> bytes) \<times> lw" where
  "lw_recv n w =
     (case lw_inbox w of
        [] \<Rightarrow> ((-1, []), lw_fail EAGAIN w)
      | d # ds \<Rightarrow> ((int (length (take n d)), take n d), w\<lparr>lw_inbox := ds\<rparr>))"

definition loopback_addr :: bytes where
  "loopback_addr = sockaddr_in 4242 [127, 0, 0, 1]"

definition loopback :: "lw Sys" where
  "loopback =
     \<lparr>sys_errno = lw_errno, sys_close = lw_close,
      sys_fcntl_getfl = (\<lambda>fd w. (2, w)), sys_fcntl_setfl = (\<lambda>fd fl w. (0, w)),
      sys_getaddrinfo = (\<lambda>h s hints w.
        ((0, [\<lparr>ai_family = 2, ai_socktype = 1, ai_protocol = 6, ai_addr = loopback_addr\<rparr>]), w)),
      sys_freeaddrinfo = (\<lambda>ais w. w), sys_socket = (\<lambda>f t p w. lw_open w),
      sys_setsockopt_reuseaddr = (\<lambda>fd y w. (0, w)), sys_bind = (\<lambda>fd a w. (0, w)),
      sys_listen = (\<lambda>fd b w. (0, w)),
      sys_connect = (\<lambda>fd a w. if lw_reachable w then (0, w) else (-1, lw_fail 111 w)),
      sys_getsockopt_error = (\<lambda>fd w. ((0, 0), w)), sys_accept = (\<lambda>fd w. lw_accept w),
      sys_recv = (\<lambda>fd n w. lw_recv n w), sys_send = (\<lambda>fd d w. (int (length d), w)),
      sys_getpeername = (\<lambda>fd n w. ((0, loopback_addr, 16), w)),
      sys_inet_ntop = (\<lambda>af a. ''127.0.0.1''), sys_getnameinfo = (\<lambda>a w. ((0, ''localhost''), w)),
      sys_gethostname = (\<lambda>n w. ((0, ''host''), w)), sys_strerror = (\<lambda>e. ''error''),
      sys_sleep = (\<lambda>ms w. w)\<rparr>"

section \<open>It is a POSIX system\<close>

lemma foldr_max_fresh: "foldr max xs (b :: int) + 1 \<notin> set xs" "b \<le> foldr max xs b"
proof -
  have "\<forall>x \<in> set xs. x \<le> foldr max xs b" by (induction xs) auto
  then show "foldr max xs b + 1 \<notin> set xs" by force
  show "b \<le> foldr max xs b" by (induction xs) auto
qed

lemma lw_fresh: "0 \<le> foldr max xs 2 + (1 :: int)" "foldr max xs 2 + (1 :: int) \<notin> set xs"
  using foldr_max_fresh [where b = 2 and xs = xs] by auto

lemmas lw_defs = lw_open_def lw_close_def lw_accept_def lw_recv_def lw_fail_def Let_def

lemma loopback_errno: "posix_errno loopback"
  by (auto simp: posix_errno_def posix_keeps_def loopback_def lw_defs)

lemma loopback_fds: "posix_fds loopback (\<lambda>w. set (lw_fds w))"
  using lw_fresh
  by (auto simp: posix_fds_def opens_fd_def loopback_def lw_defs split: list.splits)

lemma loopback_transfer: "posix_transfer loopback"
  by (auto simp: posix_transfer_def loopback_def lw_defs split: list.splits)

lemma loopback_fcntl: "posix_fcntl_ok loopback"
  by (simp add: posix_fcntl_ok_def loopback_def)

lemma loopback_ipv4: "ipv4_peers loopback"
  by (simp add: ipv4_peers_def loopback_def loopback_addr_def sockaddr_in_def)

lemma ipv4_vt: "ipv4_peers S \<Longrightarrow> names_defined (Socket_vt S)"
  by (simp add: names_defined_def ipv4_names_defined)

text \<open>The same system with every connection refused.\<close>

definition refusing :: "lw Sys" where
  "refusing = loopback\<lparr>sys_connect := (\<lambda>fd a w. (-1, lw_fail 111 w))\<rparr>"

lemma refusing_errno: "posix_errno refusing"
  by (auto simp: posix_errno_def posix_keeps_def refusing_def loopback_def lw_defs)

lemma refusing_connect: "\<not> fst (Socket_connect refusing ip port so w)"
  by (simp add: Socket_connect_def connect_first_def setNonBlocking_def refusing_def loopback_def
      lw_fail_def Let_def split_beta)

text \<open>The same system on which no descriptor can be made non-blocking.\<close>

definition blocking :: "lw Sys" where
  "blocking = loopback\<lparr>sys_fcntl_setfl := (\<lambda>fd fl w. (-1, w))\<rparr>"

lemma blocking_fds: "posix_fds blocking (\<lambda>w. set (lw_fds w))"
  using lw_fresh
  by (auto simp: posix_fds_def opens_fd_def blocking_def loopback_def lw_defs split: list.splits)

text \<open>One whose peers have IPv6 addresses.\<close>

definition ipv6_loopback :: "lw Sys" where
  "ipv6_loopback =
     loopback\<lparr>sys_getpeername := (\<lambda>fd n w. ((0, sockaddr_in6_head 4242, 28), w))\<rparr>"

section \<open>A node on it\<close>

definition loop_clock :: "int \<Rightarrow> lw \<Rightarrow> int \<times> lw" where
  "loop_clock ms w = (max 1 (ms * 1000000), w)"

abbreviation loop_vt :: "(socket, lw) ISocket" where
  "loop_vt \<equiv> Socket_vt loopback"

definition loop_node :: "(socket, lw) node" where
  "loop_node = TcpNodePrivate_new defaultNewSocket IPV4 (\<lambda>_. None) 0 lw_start 0"

lemma loop_node_start:
  "m_listener loop_node = Some 0" "objects loop_node 0 = Some Socket_new" "world loop_node = lw_start"
  by (simp_all add: loop_node_def TcpNodePrivate_new_def create_socket_def new_object_def)

lemma loop_initial: "initial loop_node"
  unfolding loop_node_def by (rule initialI) (simp_all add: creates_sockets_def)

definition loop_run :: "(socket, lw) action list \<Rightarrow> (socket, lw) node option" where
  "loop_run xs = run_schedule loop_vt loop_clock xs loop_node"

lemma loop_run_reachable:
  "list_all action_allowed xs \<Longrightarrow> loop_run xs = Some s \<Longrightarrow> reachable loop_vt loop_clock s"
  unfolding loop_run_def by (rule run_reachable [OF reachable.init [OF loop_initial]])

lemma loop_names: "names_defined loop_vt"
  by (rule ipv4_vt [OF loopback_ipv4])

text \<open>What holds of the end of a run holds of a reachable state.\<close>

lemma loop_reached:
  assumes "ensures (loop_run xs) P" and "list_all action_allowed xs"
  obtains s where "loop_run xs = Some s" "reachable loop_vt loop_clock s" "node_inv s" "P s"
proof -
  obtain s where s: "loop_run xs = Some s" "P s" using assms(1) by (auto elim: ensuresE)
  note r = loop_run_reachable [OF assms(2) s(1)]
  show thesis by (rule that [OF s(1) r reachable_inv [OF r loop_names] s(2)])
qed

definition loop_below :: "(socket, lw) action list \<Rightarrow> bool" where
  "loop_below xs \<longleftrightarrow> list_all (\<lambda>n. case loop_run (take n xs) of None \<Rightarrow> True
     | Some s \<Rightarrow> m_connection_counter s \<noteq> - 1) [0..<length xs]"

lemma loop_unwrapped:
  assumes "ensures (loop_run xs) P" and "list_all action_allowed xs" and "loop_below xs"
  obtains s where "loop_run xs = Some s" "unwrapped loop_vt loop_clock s" "P s"
proof -
  obtain s where s: "loop_run xs = Some s" "P s" using assms(1) by (auto elim: ensuresE)
  have "\<forall>n < length xs. \<forall>s1. run_schedule loop_vt loop_clock (take n xs) loop_node = Some s1 \<longrightarrow>
      m_connection_counter s1 \<noteq> - 1"
    using assms(3) by (fastforce simp: loop_below_def loop_run_def list_all_iff split: option.splits)
  then have "unwrapped loop_vt loop_clock s"
    using run_unwrapped [OF unwrapped_init [OF loop_initial] assms(2)] s(1)
    by (simp add: loop_run_def)
  with s that show thesis by blast
qed

text \<open>Runs the properties are tried on: a listening node with one connection, and its closing.\<close>

definition loop_listening :: "(socket, lw) action list" where
  "loop_listening =
     [Call (OnAccept (Some 1)), Call (OnClosedConnection (Some 2)), Call (DoListen 5 IPV4),
      World (\<lambda>w. w\<lparr>lw_backlog := 1\<rparr>)] @ replicate 4 Listen_thread"

definition loop_accepted :: "(socket, lw) action list" where
  "loop_accepted = loop_listening @ [Listen_thread]"

definition loop_closed :: "(socket, lw) action list" where
  "loop_closed = loop_accepted @ [Call DisconnectAll] @ replicate 4 Listen_thread"

text \<open>Data that has arrived, data to send, a destructor at its end, two targets to connect to.\<close>

definition loop_receiving :: "(socket, lw) action list" where
  "loop_receiving =
     loop_accepted @ [Call (OnReceive (Some 3)), World (\<lambda>w. w\<lparr>lw_inbox := [[1, 2, 3]]\<rparr>)]"

definition loop_peer :: Peer where
  "loop_peer = Some (PeerPrivate_set 1 ''127.0.0.1'' 4242 ''localhost'' PeerPrivate_new)"

definition loop_sending :: "(socket, lw) action list" where
  "loop_sending = loop_accepted @ [Call (OnSend (Some 4)), Call (SendData loop_peer [7, 8])]"

definition loop_joined :: "(socket, lw) action list" where
  "loop_joined = loop_accepted @ [Destroy, Destroy, Destroy, Listen_thread]"

definition loop_connecting :: "(socket, lw) action list" where
  "loop_connecting =
     [Call (OnConnectError (Some 5)), Call (ConnectTo ''a'' 1), Call (ConnectTo ''b'' 2),
      Connect_thread]"

text \<open>A connection that is opened, used and closed before the connect thread announces it.\<close>

definition loop_late :: "(socket, lw) action list" where
  "loop_late =
     [Call (OnConnect (Some 6)), Call (OnReceive (Some 3)), Call (OnDisconnect (Some 7)),
      World (\<lambda>w. w\<lparr>lw_reachable := True, lw_inbox := [[9], []]\<rparr>), Call (ConnectTo ''a'' 1)] @
     replicate 4 Connect_thread @ replicate 8 Listen_thread @ [Connect_thread]"

lemma loop_runs_allowed:
  "list_all action_allowed loop_listening" "list_all action_allowed loop_accepted"
  "list_all action_allowed loop_closed" "list_all action_allowed loop_receiving"
  "list_all action_allowed loop_sending" "list_all action_allowed loop_joined"
  "list_all action_allowed loop_connecting" "list_all action_allowed loop_late"
  by (auto simp: loop_listening_def loop_accepted_def loop_closed_def loop_receiving_def
      loop_sending_def loop_joined_def loop_connecting_def loop_late_def list_all_iff)

lemma loop_runs_below: "loop_below loop_listening" "loop_below loop_accepted"
  "loop_below loop_closed" "loop_below loop_late"
  by code_simp+

end
