(* ===== verification/NodeProgress.thy ===== *)
theory NodeProgress
  imports NodeSpec Loopback
begin

text \<open>
  The connect thread, the listen thread and the queries: how long an attempt to connect can
  last, what a round over the queue does, what a request to listen leads to, what an accepted
  connection becomes, and which peer is the latest.
\<close>

section \<open>One attempt to connect\<close>

lemma try_connect_facts:
  assumes "try_connect V T a ip port e s = Some ((ok, e', again), s1)"
    and "\<And>ms w. \<delta> \<le> fst (T ms w)"
  shows "e + \<delta> \<le> e'" "m_connect_timeout s1 = m_connect_timeout s"
    "again \<Longrightarrow> e' < m_connect_timeout s * 1000000"
proof -
  obtain x1 s2 x2 s3 where c: "call (Some a) (vconnect V ip port) s = Some (x1, s2)"
    "call_local (Some a) (vgetLastErrno V) s2 = Some (x2, s3)"
    and r: "e' = e + fst (T (m_node_sleep_time s3) (world s3))"
      "s1 = s3\<lparr>world := snd (T (m_node_sleep_time s3) (world s3))\<rparr>"
      "again \<longleftrightarrow> \<not> x1 \<and> x2 = 0 \<and> \<not> e' div 1000000 \<ge> m_connect_timeout s3"
    using assms(1) by (auto simp: try_connect_def bind_eq_Some_conv Let_def split_beta)
  have t: "m_connect_timeout s3 = m_connect_timeout s"
    using c by (auto simp: call_local_def call_def bind_eq_Some_conv split_beta)
  show "e + \<delta> \<le> e'" using assms(2) r(1) by simp
  show "m_connect_timeout s1 = m_connect_timeout s" using r(2) t by simp
  show "e' < m_connect_timeout s * 1000000" if again
    using that r(3) t by (simp add: not_le) linarith
qed

text \<open>
  If the clock advances by at least \<open>\<delta>\<close> per pass, the loop ends after a number of passes that
  the timeout bounds, whatever the socket does.
\<close>

lemma try_ends_within:
  assumes core: "core_inv s" and pc: "m_connectThread s = C_Try i n a ip port e"
    and clock: "\<And>ms w. \<delta> \<le> fst (T ms w)" "0 < \<delta>"
    and k: "0 < k" "m_connect_timeout s * 1000000 - e < int k * \<delta>"
  shows "\<exists>j \<le> k. ensures (run_schedule V T (replicate j Connect_thread) s)
    (\<lambda>s'. m_connectThread s' = C_Connected i n a \<or> m_connectThread s' = C_Failed i n a ip port)"
  using core pc k
proof (induction k arbitrary: s e)
  case (Suc k)
  have "connecting (m_connectThread s) = [Some a]" using Suc.prems(2) by simp
  from try_connect_ok [OF Suc.prems(1) this, of V T ip port e]
  obtain ok e' again s1 where t: "try_connect V T a ip port e s = Some ((ok, e', again), s1)"
    and same: "same s s1"
    by (auto elim!: ensuresE)
  note f = try_connect_facts [OF t clock(1)]
  let ?pc = "if again then C_Try i n a ip port e' else if ok then C_Connected i n a
      else C_Failed i n a ip port"
  let ?s = "s1\<lparr>m_connectThread := ?pc\<rparr>"
  have step: "perform V T Connect_thread s = Some ?s"
    using Suc.prems(2) t by (simp add: perform_def connectThread_enabled_def connectThread_step_def)
  show ?case
  proof (cases again)
    case False
    have "ensures (run_schedule V T (replicate 1 Connect_thread) s)
      (\<lambda>s'. m_connectThread s' = C_Connected i n a \<or> m_connectThread s' = C_Failed i n a ip port)"
      using step False by simp
    then show ?thesis by (intro exI [of _ 1]) simp
  next
    case True
    have "core_inv ?s"
      using sameD(1,5) [OF same] Suc.prems(2) by (intro core_connect_pc) auto
    moreover have "m_connectThread ?s = C_Try i n a ip port e'" using True by simp
    moreover have less: "m_connect_timeout ?s * 1000000 - e' < int k * \<delta>"
      using Suc.prems(4) f(1,2) by (simp add: algebra_simps)
    moreover have "0 < k"
    proof (rule ccontr)
      assume "\<not> 0 < k"
      then show False using less f(3) [OF True] f(2) by simp
    qed
    ultimately obtain j where "j \<le> k" "ensures (run_schedule V T (replicate j Connect_thread) ?s)
      (\<lambda>s'. m_connectThread s' = C_Connected i n a \<or> m_connectThread s' = C_Failed i n a ip port)"
      using Suc.IH [of ?s e'] by blast
    then show ?thesis using step by (intro exI [of _ "Suc j"]) simp
  qed
qed simp

text \<open>With \<open>Socket\<close> on a POSIX system the loop makes exactly one pass.\<close>

lemma socket_one_pass:
  assumes S: "posix_errno S" and pc: "m_connectThread s = C_Try i n a ip port e"
    and so: "objects s a = Some so" "m_socket_fd so = -1"
  shows "ensures (connectThread_step (Socket_vt S) T s)
    (\<lambda>s'. m_connectThread s' = C_Connected i n a \<or> m_connectThread s' = C_Failed i n a ip port)"
proof -
  obtain ok so1 w1 where c: "Socket_connect S ip port so (world s) = (ok, so1, w1)"
    by (metis surj_pair)
  have "\<not> ok \<Longrightarrow> m_last_errno so1 \<noteq> 0"
    using Socket_connect_errno [OF S so(2)] c by auto
  then show ?thesis
    using pc so(1) c
    by (auto simp: connectThread_step_def try_connect_def call_def call_local_def store_object_def
        Socket_getLastErrno_def Let_def split_beta)
qed

section \<open>A round over the queue\<close>

definition connect_error :: "cb \<Rightarrow> string \<Rightarrow> u16 \<Rightarrow> event" where
  "connect_error c ip port =
     ConnectError c \<lparr>msg_head = ''Connect Error'',
       msg_body = ''Failed to connect to '' @ ip @ '':'' @ to_string_u16 port\<rparr>"

text \<open>The members that a round keeps.\<close>

definition round_frame :: "('s, 'w) node \<Rightarrow> ('s, 'w) node \<Rightarrow> bool" where
  "round_frame s s' \<longleftrightarrow>
     m_potential_peers s' = m_potential_peers s \<and> m_callbacks s' = m_callbacks s \<and>
     m_createNewSocketFunction s' = m_createNewSocketFunction s \<and>
     m_connect_thread_running s' = m_connect_thread_running s"

text \<open>One pass of the \<open>for\<close> loop when the attempt fails.\<close>

lemma failing_attempt:
  assumes S: "posix_errno S" and fails: "\<And>ip port so w. \<not> fst (Socket_connect S ip port so w)"
    and pc: "m_connectThread s = C_For i n" "i < n"
    and q: "m_potential_peers s = (ip, port) # q"
    and f: "m_createNewSocketFunction s = defaultNewSocket"
    and cb: "m_callbackConnectError (m_callbacks s) = Some c"
  shows "ensures (run_schedule (Socket_vt S) T (replicate 3 Connect_thread) s)
    (\<lambda>s'. m_connectThread s' = C_For (i + 1) n \<and> round_frame s s' \<and>
      events s' = events s @ [connect_error c ip port])"
proof -
  let ?a = "next_object s"
  obtain so1 w1 where con: "Socket_connect S ip port Socket_new (world s) = (False, so1, w1)"
    using fails [of ip port Socket_new "world s"] by (cases "Socket_connect S ip port Socket_new (world s)") auto
  have e: "m_last_errno so1 \<noteq> 0"
    using Socket_connect_errno [OF S _ con] by (simp add: Socket_new_def)
  show ?thesis
    using pc q f cb con e
    by (simp add: numeral_3_eq_3 perform_def connectThread_enabled_def connectThread_step_def
        begin_connect_def create_socket_def new_object_def try_connect_def call_def call_local_def
        store_object_def connect_failed_def createErrorMessage_def delete_object_def emit_def
        Socket_getLastErrno_def round_frame_def connect_error_def Let_def split_beta)
qed

text \<open>
  A round that starts with \<open>n\<close> entries in the queue tries the front \<open>n\<close> times, and then
  removes it.
\<close>

lemma failing_round:
  assumes S: "posix_errno S" and fails: "\<And>ip port so w. \<not> fst (Socket_connect S ip port so w)"
    and pc: "m_connectThread s = C_For i n" "i \<le> n"
    and q: "m_potential_peers s = (ip, port) # q"
    and f: "m_createNewSocketFunction s = defaultNewSocket"
    and cb: "m_callbackConnectError (m_callbacks s) = Some c"
  shows "ensures (run_schedule (Socket_vt S) T (replicate (3 * (n - i) + 2) Connect_thread) s)
    (\<lambda>s'. m_connectThread s' = C_Loop \<and> m_potential_peers s' = q \<and>
      events s' = events s @ replicate (n - i) (connect_error c ip port))"
  using pc q f cb
proof (induction "n - i" arbitrary: s i)
  case 0
  then show ?case
    by (simp add: numeral_2_eq_2 perform_def connectThread_enabled_def connectThread_step_def
        pop_potential_peer_def)
next
  case (Suc m)
  have run: "replicate (3 * (n - i) + 2) Connect_thread =
      replicate 3 Connect_thread @ replicate (3 * (n - (i + 1)) + 2) (Connect_thread :: (socket, 'a) action)"
  proof -
    have "3 * (n - i) + 2 = 3 + (3 * (n - (i + 1)) + 2)" using Suc.hyps(2) by arith
    then show ?thesis by (simp only: replicate_add)
  qed
  have "i < n" using Suc.hyps(2) by simp
  note one = failing_attempt [OF S fails Suc.prems(1) this Suc.prems(3-5), of T]
  show ?case
    unfolding run run_schedule_append
  proof (rule ensures_bindI [OF one])
    fix s1
    assume s1: "m_connectThread s1 = C_For (i + 1) n \<and> round_frame s s1 \<and>
      events s1 = events s @ [connect_error c ip port]"
    then have "ensures (run_schedule (Socket_vt S) T
        (replicate (3 * (n - (i + 1)) + 2) Connect_thread) s1)
      (\<lambda>s'. m_connectThread s' = C_Loop \<and> m_potential_peers s' = q \<and>
        events s' = events s1 @ replicate (n - (i + 1)) (connect_error c ip port))"
      using Suc.hyps(2) Suc.prems(2-5)
      by (intro Suc.hyps(1)) (simp_all add: round_frame_def)
    moreover have "replicate (n - i) x = x # replicate (n - (i + 1)) x" for x :: event
      using Suc.hyps(2) by (cases "n - i") auto
    ultimately show "ensures (run_schedule (Socket_vt S) T
        (replicate (3 * (n - (i + 1)) + 2) Connect_thread) s1)
      (\<lambda>s'. m_connectThread s' = C_Loop \<and> m_potential_peers s' = q \<and>
        events s' = events s @ replicate (n - i) (connect_error c ip port))"
      using s1 by (auto elim!: ensures_mono)
  qed
qed

section \<open>Listening\<close>

lemma start_listening_spec:
  assumes l: "m_listener s = Some l" "objects s l = Some so"
    and v: "vlisten V (m_portnumber s) (m_ip_version s) so (world s) = (ok, so', w')"
  shows "ensures (start_listening V s) (\<lambda>s'. \<not> m_changing_listener s' \<and>
    m_listener_available s' = ok \<and> m_listening_enabled s' = (m_listening_enabled s \<and> ok) \<and>
    m_listener s' = Some l \<and> (ok \<longrightarrow> objects s' l = Some so') \<and>
    (\<exists>m. events s' = events s @
      (if ok then (case m_callbackStartedListening (m_callbacks s) of
                     None \<Rightarrow> [] | Some c \<Rightarrow> [StartedListening c (vlistenPort V so')])
       else (case m_callbackListenError (m_callbacks s) of
               None \<Rightarrow> [] | Some c \<Rightarrow> [ListenError c m]))))"
proof -
  let ?s = "store_object l so' w' s"
  have call: "call (Some l) (vlisten V (m_portnumber s) (m_ip_version s)) s = Some (ok, ?s)"
    using l(2) v by (simp add: call_def)
  show ?thesis
    using l call
    by (auto simp: start_listening_def createErrorMessage_def call_local_def call_def call_read_def
        store_object_def emit_def Let_def split_beta split: option.split)
qed

text \<open>
  A request to listen on an idle node with the code's sockets: two steps of the listen thread
  later the node listens on the requested port, or the request is withdrawn with an error.
\<close>

lemma listen_request:
  assumes inv: "node_inv s" and run: "m_owner s = O_Running"
    and at: "m_listenThread s = L_Loop" "\<not> m_listener_available s"
  shows "ensures (run_schedule (Socket_vt S) T
      [Call (DoListen port ipv), Listen_thread, Listen_thread] s)
    (\<lambda>s'. m_listenThread s' = L_Wake \<and> m_listening_enabled s' = m_listener_available s' \<and>
      (if m_listener_available s'
       then (\<exists>l so. m_listener s' = Some l \<and> objects s' l = Some so \<and> m_is_listening so \<and>
               m_listen_port so = port) \<and>
            events s' = events s @ (case m_callbackStartedListening (m_callbacks s) of
              None \<Rightarrow> [] | Some c \<Rightarrow> [StartedListening c port])
       else \<exists>m. events s' = events s @ (case m_callbackListenError (m_callbacks s) of
              None \<Rightarrow> [] | Some c \<Rightarrow> [ListenError c m])))"
proof -
  obtain l so where l: "m_listener s = Some l" "objects s l = Some so"
    using listener_live [OF node_invD(1) [OF inv]] run by (auto simp: live_def)
  have "m_listen_thread_running s"
    using node_invD(3) [OF inv] run at by (simp add: thread_inv_def)
  moreover obtain ok so' w' where v: "Socket_listen S port ipv so (world s) = (ok, so', w')"
    by (metis surj_pair)
  let ?s = "s\<lparr>m_portnumber := port, m_listening_enabled := True, m_ip_version := ipv,
      m_wakeup_listen_thread := True, m_listenThread := L_StartListening\<rparr>"
  have "ensures (start_listening (Socket_vt S) ?s) (\<lambda>s'. \<not> m_changing_listener s' \<and>
    m_listener_available s' = ok \<and> m_listening_enabled s' = (True \<and> ok) \<and>
    m_listener s' = Some l \<and> (ok \<longrightarrow> objects s' l = Some so') \<and>
    (\<exists>m. events s' = events s @
      (if ok then (case m_callbackStartedListening (m_callbacks s) of
                     None \<Rightarrow> [] | Some c \<Rightarrow> [StartedListening c (m_listen_port so')])
       else (case m_callbackListenError (m_callbacks s) of
               None \<Rightarrow> [] | Some c \<Rightarrow> [ListenError c m]))))"
    using start_listening_spec [of ?s l so "Socket_vt S" ok so' w'] l v
    by (cases ok) (simp_all cong: option.case_cong)
  ultimately show ?thesis
    using run at Socket_listen_flags(2,4) [OF v]
    by (auto simp: perform_def api_def doListen_def startListenThreadIfNotRunning_def
        listenThread_enabled_def listenThread_step_def listen_requested_def Let_def
        elim!: ensures_mono split: option.splits)
qed

section \<open>Accepting\<close>

lemma accept_peer_spec:
  assumes l: "m_listener s = Some l" "objects s l = Some so" "visListener V so" "visListening V so"
    and av: "m_listener_available s" and heap: "heap_ok s"
    and acc: "vaccept V so (world s) = (Some n, so', w1)"
    and q: "query_address V (m_arg_order s w1) n w1 = Some ((ip, port, nm), w2)"
  shows "ensures (accept_peer V s) (\<lambda>s'. \<exists>a pp.
    a \<notin> live s \<and> objects s' a = Some n \<and> m_connection_counter s' = m_connection_counter s + 1 \<and>
    pp = \<lparr>m_connection_id = m_connection_counter s + 1, m_ip_address = ip, m_port_number = port,
          m_hostname = nm, m_valid = True, m_to_be_deleted = False, m_socket = Some a,
          m_disconn = PEER_DISCONNECTED_THEMSELF, m_errmsg = empty_message\<rparr> \<and>
    m_peers s' = umap_insert (m_connection_counter s + 1) pp (m_peers s) \<and>
    events s' = events s @ (case m_callbackNewPeerConnected (m_callbacks s) of
      None \<Rightarrow> [] | Some c \<Rightarrow> [NewPeerConnected c pp]))"
proof -
  have fresh: "next_object s \<notin> live s" using heap by (auto simp: heap_ok_def)
  then have "next_object s \<noteq> l" using l(2) by (auto simp: live_def)
  then show ?thesis
    using l av acc q fresh
    by (auto simp: accept_peer_def call_read_def call_def accepted_new_def new_object_def
        make_peer_def call_query_def store_object_def PeerPrivate_set_def setSocket_def
        setValid_def PeerPrivate_new_def fire_def emit_def Let_def split: option.split)
qed

lemma bind_undefined: "(\<And>y. f y = None) \<Longrightarrow> x \<bind> f = None"
  by (cases x) simp_all

text \<open>An IPv6 peer on Linux: whatever is queried first, the query of the address is undefined.\<close>

lemma address_undefined:
  assumes "m_is_connected so" and "\<not> m_is_listener so" and "sa_family st = Some AF_INET6"
    and "\<And>w. fst (sys_getpeername S (m_socket_fd so) 16 w) = (0, st, len)"
  shows "query_address (Socket_vt S) ord so w = None"
proof -
  have "Socket_peerIpAddress S so w = None" for w
    using assms(1-3) assms(4) [of w]
    by (auto simp: Socket_peerIpAddress_def sin6_addr_undefined split_beta Let_def)
  then show ?thesis
    by (cases ord) (simp_all add: query_address_def bind_undefined split_beta)
qed

text \<open>The code's socket clears every error of \<open>accept\<close>, so none is ever reported.\<close>

lemma accept_error_silent:
  assumes l: "m_listener s = Some l" "objects s l = Some so" "m_is_listener so" "m_is_listening so"
    and av: "m_listener_available s"
    and acc: "Socket_accept S so (world s) = (None, so', w1)"
  shows "ensures (accept_peer (Socket_vt S) s) (\<lambda>s'. events s' = events s \<and> m_peers s' = m_peers s)"
proof -
  have "so' = so\<lparr>m_last_errno := 0\<rparr>" using Socket_accept_cases [OF acc] l(3) by auto
  then show ?thesis
    using l av acc
    by (auto simp: accept_peer_def call_read_def call_def accepted_none_def call_local_def
        store_object_def Socket_getLastErrno_def Let_def)
qed

section \<open>The latest peer\<close>

lemma max_key_spec:
  "(max_key ps mx = mx \<and> (\<forall>k \<in> set (keys_of ps). k \<le> mx)) \<or>
     (max_key ps mx \<in> set (keys_of ps) \<and> mx \<le> max_key ps mx \<and>
      (\<forall>k \<in> set (keys_of ps). k \<le> max_key ps mx))"
proof (induction ps mx rule: max_key.induct)
  case (2 current v ps mx)
  then show ?case by (cases "current > mx") (auto simp: not_less)
qed simp

lemma latestPeer_spec:
  assumes core: "core_inv s"
  shows "ensures (latestPeer s) (\<lambda>p.
    if m_peers s = [] then p = Some PeerPrivate_new
    else \<exists>k pp. (k, pp) \<in> set (m_peers s) \<and> p = Some pp \<and> m_connection_id pp = k \<and>
           (\<forall>k' \<in> set (keys_of (m_peers s)). k' \<le> k))"
proof (cases "m_peers s = []")
  case False
  let ?k = "max_key (m_peers s) 0"
  have k: "?k \<in> set (keys_of (m_peers s)) \<and> (\<forall>k' \<in> set (keys_of (m_peers s)). k' \<le> ?k)"
    using max_key_spec [of "m_peers s" 0] False by (cases "m_peers s") (auto simp: word_le_0_iff)
  then obtain pp where pp: "map_of (m_peers s) ?k = Some pp" by (auto dest!: weak_map_of_SomeI)
  then have "(?k, pp) \<in> set (m_peers s)" "m_connection_id pp = ?k"
    using core map_of_SomeD [OF pp] by (auto simp: core_inv_def intro: peers_inv_id)
  with k pp False show ?thesis by (auto simp: latestPeer_def)
qed (simp add: latestPeer_def)

lemma latestPeer_newest:
  assumes "m_peers s = (k, pp) # ps" and "\<And>k'. k' \<in> set (keys_of ps) \<Longrightarrow> k' < k"
  shows "latestPeer s = Some (Some pp)"
proof -
  have "max_key ((k, pp) # ps) 0 = k"
    using max_key_spec [of "(k, pp) # ps" 0] assms(2) by (force simp: word_le_0_iff not_le)
  then show ?thesis by (simp add: latestPeer_def assms(1))
qed

text \<open>While ids are fresh, an accepted connection is a new entry, and the latest one.\<close>

lemma accept_newest:
  fixes s :: "('s, 'w) node"
  assumes core: "core_inv s" and t: "trace_inv s" and c: "m_connection_counter s \<noteq> - 1"
    and V: "names_defined V"
    and l: "m_listener s = Some l" "objects s l = Some so" "visListener V so" "visListening V so"
    and av: "m_listener_available s"
    and acc: "vaccept V so (world s) = (Some n, so', w1)"
  shows "ensures (accept_peer V s) (\<lambda>s'. \<exists>a pp w2.
    a \<notin> live s \<and> objects s' a = Some n \<and> m_socket pp = Some a \<and> m_valid pp \<and>
    \<not> m_to_be_deleted pp \<and> m_connection_id pp = m_connection_counter s + 1 \<and>
    query_address V (m_arg_order s w1) n w1 =
      Some ((m_ip_address pp, m_port_number pp, m_hostname pp), w2) \<and>
    m_peers s' = (m_connection_id pp, pp) # m_peers s \<and> latestPeer s' = Some (Some pp) \<and>
    events s' = events s @ (case m_callbackNewPeerConnected (m_callbacks s) of
      None \<Rightarrow> [] | Some c \<Rightarrow> [NewPeerConnected c pp]))"
proof -
  obtain ip port nm w2 where q: "query_address V (m_arg_order s w1) n w1 = Some ((ip, port, nm), w2)"
    using query_address_defined [OF V] by fastforce
  let ?k = "m_connection_counter s + 1"
  have old: "k < ?k" if "k \<in> set (keys_of (m_peers s))" for k
    using t that counter_next [OF c] le_less_trans unfolding trace_inv_def trace_ok_def by blast
  then have "?k \<notin> fst ` set (m_peers s)" by force
  then have ins: "umap_insert ?k pp (m_peers s) = (?k, pp) # m_peers s" for pp by simp
  have "heap_ok s" using core by (simp add: core_inv_def own_inv_def)
  from accept_peer_spec [OF l av this acc q] show ?thesis
  proof (rule ensures_mono, elim exE conjE)
    fix s' :: "('s, 'w) node" and a :: nat and pp :: PeerPrivate
    assume *: "a \<notin> live s" "objects s' a = Some n"
      "m_peers s' = umap_insert ?k pp (m_peers s)"
      "events s' = events s @ (case m_callbackNewPeerConnected (m_callbacks s) of
        None \<Rightarrow> [] | Some c \<Rightarrow> [NewPeerConnected c pp])"
      and pp: "pp = \<lparr>m_connection_id = ?k, m_ip_address = ip, m_port_number = port,
          m_hostname = nm, m_valid = True, m_to_be_deleted = False, m_socket = Some a,
          m_disconn = PEER_DISCONNECTED_THEMSELF, m_errmsg = empty_message\<rparr>"
    have peers: "m_peers s' = (?k, pp) # m_peers s" using *(3) ins by simp
    with latestPeer_newest [OF peers old] * q
    show "\<exists>a pp w2.
      a \<notin> live s \<and> objects s' a = Some n \<and> m_socket pp = Some a \<and> m_valid pp \<and>
      \<not> m_to_be_deleted pp \<and> m_connection_id pp = ?k \<and>
      query_address V (m_arg_order s w1) n w1 =
        Some ((m_ip_address pp, m_port_number pp, m_hostname pp), w2) \<and>
      m_peers s' = (m_connection_id pp, pp) # m_peers s \<and> latestPeer s' = Some (Some pp) \<and>
      events s' = events s @ (case m_callbackNewPeerConnected (m_callbacks s) of
        None \<Rightarrow> [] | Some c \<Rightarrow> [NewPeerConnected c pp])"
      by (intro exI [of _ a] exI [of _ pp] exI [of _ w2]) (simp add: pp)
  qed
qed

section \<open>The owner's requests\<close>

text \<open>\<open>disconnectPeer\<close> and \<open>disconnectAll\<close> mark connections; they close no socket.\<close>

lemma disconnectPeer_spec:
  assumes core: "core_inv s"
  shows "ensures (disconnectPeer pr s) (\<lambda>s'. objects s' = objects s \<and> world s' = world s \<and>
    events s' = events s \<and>
    conns s' = (if conns s (Peer_id pr) = None then conns s
                else (conns s)(Peer_id pr \<mapsto> Closing PEER_WAS_DISCONNECTED)))"
proof (cases "map_of (m_peers s) (Peer_id pr)")
  case None
  then show ?thesis by (simp add: disconnectPeer_def peerExists_def conns_of_def)
next
  case (Some pp)
  then have "m_valid pp"
    using core map_of_SomeD [OF Some] by (auto simp: core_inv_def peers_inv_def)
  then show ?thesis
    using Some conns_schedule [OF Some]
    by (simp add: disconnectPeer_def peerExists_def update_peer_def) (simp add: conns_of_def)
qed

lemma disconnectAll_spec:
  "objects (disconnectAll s) = objects s" "world (disconnectAll s) = world s"
  "events (disconnectAll s) = events s"
  "conns (disconnectAll s) k = map_option (\<lambda>_. Closing PEER_WAS_DISCONNECTED) (conns s k)"
proof -
  have "map_of (map (\<lambda>(k, pp). (k, f pp)) ps) k = map_option f (map_of ps k)"
    for f :: "PeerPrivate \<Rightarrow> PeerPrivate" and ps
    by (induction ps) auto
  then show "conns (disconnectAll s) k = map_option (\<lambda>_. Closing PEER_WAS_DISCONNECTED) (conns s k)"
    by (simp add: disconnectAll_def conns_of_def option.map_comp comp_def)
qed (simp_all add: disconnectAll_def)

text \<open>\<open>sendData\<close> queues the data for a known connection, and reports an error otherwise.\<close>

lemma sendData_spec:
  assumes inv: "node_inv s" and run: "m_owner s = O_Running"
  shows "ensures (sendData V pr d s) (\<lambda>s'. m_peers s' = m_peers s \<and>
    (if conns s (Peer_id pr) = None
     then m_data_to_send s' = m_data_to_send s \<and> m_sendThread s' = m_sendThread s \<and>
       (\<exists>m. events s' = events s @ (case m_callbackSendError (m_callbacks s) of
          None \<Rightarrow> [] | Some c \<Rightarrow> [SendError c m]))
     else m_data_to_send s' = m_data_to_send s @ [(Peer_id pr, d)] \<and> events s' = events s \<and>
       m_send_thread_running s' \<and> m_sendThread s' \<noteq> S_NoThread))"
proof (cases "map_of (m_peers s) (Peer_id pr)")
  case None
  then show ?thesis
    by (auto simp: sendData_def peerExists_def createErrorMessage_def conns_of_def emit_def Let_def
        split: option.split)
next
  case (Some pp)
  then have "m_valid pp"
    using node_invD(1) [OF inv] map_of_SomeD [OF Some] by (auto simp: core_inv_def peers_inv_def)
  moreover have "m_send_thread_running s \<longleftrightarrow> m_sendThread s \<noteq> S_NoThread"
    using node_invD(3) [OF inv] run by (simp add: thread_inv_def)
  ultimately show ?thesis
    using Some by (simp add: sendData_def peerExists_def conns_of_def Let_def)
qed

text \<open>Once the destructor has returned no thread of the node can move.\<close>

lemma destroyed_quiet:
  assumes "node_inv s" and "m_owner s = O_Destroyed"
  shows "\<not> listenThread_enabled s \<and> \<not> connectThread_enabled s \<and> \<not> sendThread_enabled s"
  using node_invD(3) [OF assms(1)] assms(2)
  by (auto simp: thread_inv_def listen_stopped_def connect_stopped_def send_stopped_def
      listenThread_enabled_def connectThread_enabled_def sendThread_enabled_def)

end
