(* ===== verification/TcpNode.thy ===== *)
theory TcpNode
  imports NodeSystem
begin

text \<open>
  \<open>spw::TcpNode\<close> (\<^verbatim>\<open>src/TcpNode.cpp\<close>), the class the library exports: a pointer to a
  \<open>TcpNodePrivate\<close> and member functions that forward to it. The pointer is \<open>None\<close> when null,
  and otherwise carries the private object. A call through a null pointer has no result.
\<close>

section \<open>The facade\<close>

type_synonym ('s, 'w) TcpNode = "('s, 'w) node option"

text \<open>\<open>m_private->f(...)\<close> for a function that changes the private object, or only reads it.\<close>

definition on_private ::
  "(('s, 'w) node \<Rightarrow> ('s, 'w) node option) \<Rightarrow> ('s, 'w) TcpNode \<Rightarrow> ('s, 'w) TcpNode option" where
  "on_private f n = do { p \<leftarrow> n; p \<leftarrow> f p; Some (Some p) }"

definition of_private :: "(('s, 'w) node \<Rightarrow> 'a option) \<Rightarrow> ('s, 'w) TcpNode \<Rightarrow> 'a option" where
  "of_private f n = do { p \<leftarrow> n; f p }"

definition TcpNode_new ::
  "('w \<Rightarrow> 's option \<times> 'w) \<Rightarrow> IpVersion \<Rightarrow> (nat \<Rightarrow> 's option) \<Rightarrow> nat \<Rightarrow> 'w \<Rightarrow> u64 \<Rightarrow>
     ('s, 'w) TcpNode" where
  "TcpNode_new default_new ipv heap next w counter =
     Some (TcpNodePrivate_new default_new ipv heap next w counter)"

definition TcpNode_doListen ::
  "u16 \<Rightarrow> IpVersion \<Rightarrow> ('s, 'w) TcpNode \<Rightarrow> ('s, 'w) TcpNode option" where
  "TcpNode_doListen port ipv n = on_private (doListen port ipv) n"

definition TcpNode_stopListening :: "('s, 'w) TcpNode \<Rightarrow> ('s, 'w) TcpNode option" where
  "TcpNode_stopListening n = on_private (\<lambda>p. Some (stopListening p)) n"

definition TcpNode_connectTo ::
  "string \<Rightarrow> u16 \<Rightarrow> ('s, 'w) TcpNode \<Rightarrow> ('s, 'w) TcpNode option" where
  "TcpNode_connectTo ipaddr port n = on_private (connectTo ipaddr port) n"

definition TcpNode_sendData ::
  "('s, 'w) ISocket \<Rightarrow> Peer \<Rightarrow> bytes \<Rightarrow> ('s, 'w) TcpNode \<Rightarrow> ('s, 'w) TcpNode option" where
  "TcpNode_sendData V pr dat n = on_private (sendData V pr dat) n"

definition TcpNode_disconnectPeer ::
  "Peer \<Rightarrow> ('s, 'w) TcpNode \<Rightarrow> ('s, 'w) TcpNode option" where
  "TcpNode_disconnectPeer pr n = on_private (disconnectPeer pr) n"

definition TcpNode_disconnectAll :: "('s, 'w) TcpNode \<Rightarrow> ('s, 'w) TcpNode option" where
  "TcpNode_disconnectAll n = on_private (\<lambda>p. Some (disconnectAll p)) n"

definition TcpNode_setConnectTimeout ::
  "int \<Rightarrow> ('s, 'w) TcpNode \<Rightarrow> ('s, 'w) TcpNode option" where
  "TcpNode_setConnectTimeout ms n = on_private (\<lambda>p. Some (setConnectTimeout ms p)) n"

definition TcpNode_setSleepTime ::
  "int \<Rightarrow> ('s, 'w) TcpNode \<Rightarrow> ('s, 'w) TcpNode option" where
  "TcpNode_setSleepTime ms n = on_private (\<lambda>p. Some (setSleepTime ms p)) n"

definition TcpNode_setReceiveBufferSize ::
  "('s, 'w) ISocket \<Rightarrow> u64 \<Rightarrow> ('s, 'w) TcpNode \<Rightarrow> ('s, 'w) TcpNode option" where
  "TcpNode_setReceiveBufferSize V number_of_bytes n = on_private (setReceiveBufferSize V number_of_bytes) n"

definition TcpNode_onStartedListening ::
  "cb option \<Rightarrow> ('s, 'w) TcpNode \<Rightarrow> ('s, 'w) TcpNode option" where
  "TcpNode_onStartedListening callback n = on_private (\<lambda>p. Some (onStartedListening callback p)) n"

definition TcpNode_onStoppedListening ::
  "cb option \<Rightarrow> ('s, 'w) TcpNode \<Rightarrow> ('s, 'w) TcpNode option" where
  "TcpNode_onStoppedListening callback n = on_private (\<lambda>p. Some (onStoppedListening callback p)) n"

definition TcpNode_onAccept ::
  "cb option \<Rightarrow> ('s, 'w) TcpNode \<Rightarrow> ('s, 'w) TcpNode option" where
  "TcpNode_onAccept callback n = on_private (\<lambda>p. Some (onAccept callback p)) n"

definition TcpNode_onReceive ::
  "cb option \<Rightarrow> ('s, 'w) TcpNode \<Rightarrow> ('s, 'w) TcpNode option" where
  "TcpNode_onReceive callback n = on_private (\<lambda>p. Some (onReceive callback p)) n"

definition TcpNode_onDisconnect ::
  "cb option \<Rightarrow> ('s, 'w) TcpNode \<Rightarrow> ('s, 'w) TcpNode option" where
  "TcpNode_onDisconnect callback n = on_private (\<lambda>p. Some (onDisconnect callback p)) n"

definition TcpNode_onClosedConnection ::
  "cb option \<Rightarrow> ('s, 'w) TcpNode \<Rightarrow> ('s, 'w) TcpNode option" where
  "TcpNode_onClosedConnection callback n = on_private (\<lambda>p. Some (onClosedConnection callback p)) n"

definition TcpNode_onConnect ::
  "cb option \<Rightarrow> ('s, 'w) TcpNode \<Rightarrow> ('s, 'w) TcpNode option" where
  "TcpNode_onConnect callback n = on_private (\<lambda>p. Some (onConnect callback p)) n"

definition TcpNode_onSend ::
  "cb option \<Rightarrow> ('s, 'w) TcpNode \<Rightarrow> ('s, 'w) TcpNode option" where
  "TcpNode_onSend callback n = on_private (\<lambda>p. Some (onSend callback p)) n"

definition TcpNode_onListenError ::
  "cb option \<Rightarrow> ('s, 'w) TcpNode \<Rightarrow> ('s, 'w) TcpNode option" where
  "TcpNode_onListenError callback n = on_private (\<lambda>p. Some (onListenError callback p)) n"

definition TcpNode_onSendError ::
  "cb option \<Rightarrow> ('s, 'w) TcpNode \<Rightarrow> ('s, 'w) TcpNode option" where
  "TcpNode_onSendError callback n = on_private (\<lambda>p. Some (onSendError callback p)) n"

definition TcpNode_onConnectError ::
  "cb option \<Rightarrow> ('s, 'w) TcpNode \<Rightarrow> ('s, 'w) TcpNode option" where
  "TcpNode_onConnectError callback n = on_private (\<lambda>p. Some (onConnectError callback p)) n"

definition TcpNode_onFaultyConnectionClosed ::
  "cb option \<Rightarrow> ('s, 'w) TcpNode \<Rightarrow> ('s, 'w) TcpNode option" where
  "TcpNode_onFaultyConnectionClosed callback n = on_private (\<lambda>p. Some (onFaultyConnectionClosed callback p)) n"

definition TcpNode_isListening :: "('s, 'w) TcpNode \<Rightarrow> bool option" where
  "TcpNode_isListening n = of_private (\<lambda>p. Some (isListening p)) n"

definition TcpNode_listenPort :: "('s, 'w) TcpNode \<Rightarrow> u16 option" where
  "TcpNode_listenPort n = of_private (\<lambda>p. Some (listenPort p)) n"

definition TcpNode_connectTimeout :: "('s, 'w) TcpNode \<Rightarrow> int option" where
  "TcpNode_connectTimeout n = of_private (\<lambda>p. Some (connectTimeout p)) n"

definition TcpNode_allPeers :: "('s, 'w) TcpNode \<Rightarrow> PeerList option" where
  "TcpNode_allPeers n = of_private (\<lambda>p. Some (allPeers p)) n"

definition TcpNode_latestPeer :: "('s, 'w) TcpNode \<Rightarrow> Peer option" where
  "TcpNode_latestPeer n = of_private (latestPeer) n"

definition TcpNode_receiveBufferSize ::
  "('s, 'w) ISocket \<Rightarrow> ('s, 'w) TcpNode \<Rightarrow> u64 option" where
  "TcpNode_receiveBufferSize V n = of_private (receiveBufferSize V) n"

text \<open>
  One stage of the destructor: \<open>delete m_private\<close> runs the private destructor, whose last
  stage leaves the pointer null. While a join waits, nothing changes.
\<close>

definition TcpNode_dtor ::
  "('s, 'w) ISocket \<Rightarrow> ('s, 'w) TcpNode \<Rightarrow> ('s, 'w) TcpNode option" where
  "TcpNode_dtor V n =
     (case n of
        None \<Rightarrow> Some None
      | Some p \<Rightarrow>
          (case m_owner p of
             O_Running \<Rightarrow> Some (Some (dtor_begin p))
           | O_JoinConnect \<Rightarrow> Some (Some (if connect_stopped p then dtor_send p else p))
           | O_JoinSend \<Rightarrow> Some (Some (if send_stopped p then dtor_listen p else p))
           | O_JoinListen \<Rightarrow>
               (if listen_stopped p then do { p \<leftarrow> dtor_end V p; Some None } else Some (Some p))
           | O_Destroyed \<Rightarrow> None))"

section \<open>Forwarding\<close>

text \<open>Every member function that changes the node is one call of the private object's interface.\<close>

lemmas TcpNode_update_defs =
  TcpNode_doListen_def TcpNode_stopListening_def TcpNode_connectTo_def TcpNode_sendData_def
  TcpNode_disconnectPeer_def TcpNode_disconnectAll_def TcpNode_setConnectTimeout_def
  TcpNode_setSleepTime_def TcpNode_setReceiveBufferSize_def TcpNode_onStartedListening_def
  TcpNode_onStoppedListening_def TcpNode_onAccept_def TcpNode_onReceive_def
  TcpNode_onDisconnect_def TcpNode_onClosedConnection_def TcpNode_onConnect_def
  TcpNode_onSend_def TcpNode_onListenError_def TcpNode_onSendError_def
  TcpNode_onConnectError_def TcpNode_onFaultyConnectionClosed_def

lemma TcpNode_calls:
  "TcpNode_doListen port ipv n = on_private (api V (DoListen port ipv)) n"
  "TcpNode_stopListening n = on_private (api V (StopListening)) n"
  "TcpNode_connectTo ipaddr port n = on_private (api V (ConnectTo ipaddr port)) n"
  "TcpNode_sendData V pr dat n = on_private (api V (SendData pr dat)) n"
  "TcpNode_disconnectPeer pr n = on_private (api V (DisconnectPeer pr)) n"
  "TcpNode_disconnectAll n = on_private (api V (DisconnectAll)) n"
  "TcpNode_setConnectTimeout ms n = on_private (api V (SetConnectTimeout ms)) n"
  "TcpNode_setSleepTime ms n = on_private (api V (SetSleepTime ms)) n"
  "TcpNode_setReceiveBufferSize V number_of_bytes n = on_private (api V (SetReceiveBufferSize number_of_bytes)) n"
  "TcpNode_onStartedListening f n = on_private (api V (OnStartedListening f)) n"
  "TcpNode_onStoppedListening f n = on_private (api V (OnStoppedListening f)) n"
  "TcpNode_onAccept f n = on_private (api V (OnAccept f)) n"
  "TcpNode_onReceive f n = on_private (api V (OnReceive f)) n"
  "TcpNode_onDisconnect f n = on_private (api V (OnDisconnect f)) n"
  "TcpNode_onClosedConnection f n = on_private (api V (OnClosedConnection f)) n"
  "TcpNode_onConnect f n = on_private (api V (OnConnect f)) n"
  "TcpNode_onSend f n = on_private (api V (OnSend f)) n"
  "TcpNode_onListenError f n = on_private (api V (OnListenError f)) n"
  "TcpNode_onSendError f n = on_private (api V (OnSendError f)) n"
  "TcpNode_onConnectError f n = on_private (api V (OnConnectError f)) n"
  "TcpNode_onFaultyConnectionClosed f n = on_private (api V (OnFaultyConnectionClosed f)) n"
  by (cases n; simp add: on_private_def api_def TcpNode_update_defs)+

lemma on_private_Some: "on_private f (Some p) = Some n' \<longleftrightarrow> (\<exists>p'. f p = Some p' \<and> n' = Some p')"
  by (auto simp: on_private_def bind_eq_Some_conv)

lemma ensures_on_private: "ensures (on_private f (Some p)) Q = ensures (f p) (\<lambda>p'. Q (Some p'))"
  by (simp add: on_private_def)

section \<open>What the client relies on\<close>

text \<open>No call moves the owner's control point; a call invokes at most the send error callback.\<close>

lemma call_frame:
  fixes s :: "('s, 'w) node"
  shows "call p f s = Some (x, s') \<Longrightarrow> m_owner s' = m_owner s \<and> events s' = events s"
  by (auto simp: call_def bind_eq_Some_conv split_beta Let_def)

lemma delete_object_frame:
  fixes s :: "('s, 'w) node"
  shows "delete_object V p s = Some s' \<Longrightarrow> m_owner s' = m_owner s \<and> events s' = events s"
  by (auto simp: delete_object_def bind_eq_Some_conv split: option.splits)

lemma setListener_frame:
  assumes "setListener V p s = Some s'"
  shows "m_owner s' = m_owner s \<and> events s' = events s"
proof (cases p)
  case (Some a)
  then obtain s1 s2 where "call (m_listener s) (\<lambda>so w. ((), vclose V so w)) s = Some ((), s1)"
    "delete_object V (m_listener s1) s1 = Some s2"
    "s' = (let s = s2\<lparr>m_listener := p\<rparr>
           in if m_listening_enabled s then s\<lparr>m_changing_listener := True\<rparr> else s)"
    using assms by (auto simp: setListener_def bind_eq_Some_conv Let_def)
  then show ?thesis by (auto simp: Let_def dest!: call_frame delete_object_frame)
qed (use assms in \<open>simp add: setListener_def\<close>)

lemma api_frame:
  assumes "api V c s = Some s'"
  shows "m_owner s' = m_owner s"
    and "events s' = events s \<or> (\<exists>k m. events s' = events s @ [SendError k m])"
proof -
  have "m_owner s' = m_owner s \<and>
      (events s' = events s \<or> (\<exists>k m. events s' = events s @ [SendError k m]))"
  proof (cases "\<exists>so. c = SetListener so")
    case True
    then show ?thesis
      using assms by (auto simp: api_def new_object_def dest!: setListener_frame)
  next
    case False
    with assms show ?thesis
      by (cases c;
          auto simp: api_def doListen_def startListenThreadIfNotRunning_def stopListening_def
            connectTo_def sendData_def createErrorMessage_def disconnectPeer_def disconnectAll_def
            setConnectTimeout_def setSleepTime_def setReceiveBufferSize_def call_local_def call_def
            store_object_def setSocketInterfaceCreateFunction_def emit_def Let_def update_peer_def
            registrations bind_eq_Some_conv
            split: option.splits if_splits prod.splits)
  qed
  then show "m_owner s' = m_owner s"
    "events s' = events s \<or> (\<exists>k m. events s' = events s @ [SendError k m])" by simp_all
qed

text \<open>
  The interface of a node in use: an allowed call returns, leaves the node usable, and at most
  one error of sending is reported meanwhile.
\<close>

locale node_service =
  fixes usable :: "'n \<Rightarrow> bool"
    and service :: "'c \<Rightarrow> 'n \<Rightarrow> 'n option"
    and allowed :: "'c \<Rightarrow> bool"
    and history :: "'n \<Rightarrow> event list"
  assumes service_returns: "usable n \<Longrightarrow> allowed c \<Longrightarrow> \<exists>n'. service c n = Some n'"
    and service_usable: "usable n \<Longrightarrow> allowed c \<Longrightarrow> service c n = Some n' \<Longrightarrow> usable n'"
    and service_reports: "usable n \<Longrightarrow> allowed c \<Longrightarrow> service c n = Some n' \<Longrightarrow>
      history n' = history n \<or> (\<exists>k m. history n' = history n @ [SendError k m])"

definition node_events :: "('s, 'w) TcpNode \<Rightarrow> event list" where
  "node_events n = (case n of None \<Rightarrow> [] | Some s \<Rightarrow> events s)"

definition usable_node ::
  "('s, 'w) ISocket \<Rightarrow> (int \<Rightarrow> 'w \<Rightarrow> int \<times> 'w) \<Rightarrow> ('s, 'w) TcpNode \<Rightarrow> bool" where
  "usable_node V T n \<longleftrightarrow>
     names_defined V \<and> (\<exists>s. n = Some s \<and> reachable V T s \<and> m_owner s = O_Running)"

interpretation node_api: node_service "usable_node V T" "\<lambda>c. on_private (api V c)" api_allowed node_events
  for V :: "('s, 'w) ISocket" and T
proof unfold_locales
  fix n n' :: "('s, 'w) TcpNode" and c :: "('s, 'w) api_call"
  assume n: "usable_node V T n" and c: "api_allowed c"
  obtain s where s: "names_defined V" "n = Some s" "reachable V T s" "m_owner s = O_Running"
    using n by (auto simp: usable_node_def)
  have "ensures (api V c s) node_inv"
    by (rule api_ok [OF reachable_inv [OF s(3,1)] s(4) c])
  then show "\<exists>n'. on_private (api V c) n = Some n'"
    by (auto simp: s(2) on_private_def elim: ensuresE)
  assume "on_private (api V c) n = Some n'"
  then obtain s' where s': "api V c s = Some s'" "n' = Some s'" by (auto simp: s(2) on_private_Some)
  show "usable_node V T n'"
    using reachable.step [OF s(3) api_step [OF s(4) c s'(1)]] api_frame(1) [OF s'(1)] s s'
    by (simp add: usable_node_def)
  show "node_events n' = node_events n \<or> (\<exists>k m. node_events n' = node_events n @ [SendError k m])"
    using api_frame(2) [OF s'(1)] by (simp add: node_events_def s s')
qed

end
