(* ===== verification/DemoText.thy ===== *)
theory DemoText
  imports Common
begin

text \<open>
  The text handling of the command line client (\<^verbatim>\<open>demo/demo.cpp\<close>): splitting a line into
  tokens with \<open>strtok\<close>, reading numbers with \<open>std::stoi\<close>, reading lines with \<open>std::getline\<close>,
  and converting between strings and bytes.
\<close>

section \<open>Tokens\<close>

text \<open>What a C function sees of a string: everything before its first null character.\<close>

definition c_str :: "string \<Rightarrow> string" where
  "c_str s = takeWhile (\<lambda>c. c \<noteq> CHR 0x00) s"

text \<open>
  One call of \<open>std::strtok\<close> on the rest of the buffer: skip separators, cut the token off, and
  go past the separator that ended it.
\<close>

definition strtok :: "string \<Rightarrow> string \<Rightarrow> (string \<times> string) option" where
  "strtok separators buffer =
     (let sep = (\<lambda>c. c \<in> set separators);
          rest = dropWhile sep buffer
      in if rest = [] then None
         else Some (takeWhile (\<lambda>c. \<not> sep c) rest, drop 1 (dropWhile (\<lambda>c. \<not> sep c) rest)))"

lemma strtok_eq:
  "strtok separators buffer =
     (case dropWhile (\<lambda>c. c \<in> set separators) buffer of
        [] \<Rightarrow> None
      | c # cs \<Rightarrow> Some (c # takeWhile (\<lambda>c. c \<notin> set separators) cs,
                        drop 1 (dropWhile (\<lambda>c. c \<notin> set separators) cs)))"
proof (cases "dropWhile (\<lambda>c. c \<in> set separators) buffer")
  case Nil
  show ?thesis unfolding strtok_def Let_def Nil by simp
next
  case (Cons c cs)
  then have "c \<notin> set separators" by (metis hd_dropWhile list.distinct(1) list.sel(1))
  then show ?thesis unfolding strtok_def Let_def Cons by simp
qed

lemma strtok_shrinks:
  assumes "strtok separators buffer = Some (tok, rest)"
  shows "length rest < length buffer"
proof -
  obtain c cs where r: "dropWhile (\<lambda>c. c \<in> set separators) buffer = c # cs"
    "rest = drop 1 (dropWhile (\<lambda>c. c \<notin> set separators) cs)"
    using assms unfolding strtok_eq by (auto split: list.splits)
  then have "length rest \<le> length cs"
    by (metis diff_le_self length_drop length_dropWhile_le le_trans)
  moreover have "length (c # cs) \<le> length buffer"
    using length_dropWhile_le [of "\<lambda>c. c \<in> set separators" buffer] by (simp only: r)
  ultimately show ?thesis by simp
qed

function tokens_from :: "string \<Rightarrow> string \<Rightarrow> string list" where
  "tokens_from separators buffer =
     (case strtok separators buffer of
        None \<Rightarrow> []
      | Some (tok, rest) \<Rightarrow> tok # tokens_from separators rest)"
  by pat_completeness auto

termination
  by (relation "measure (length \<circ> snd)") (auto simp: strtok_shrinks)

declare tokens_from.simps [simp del]

definition tokenize :: "string \<Rightarrow> string \<Rightarrow> string list" where
  "tokenize input separators = tokens_from (c_str separators) (c_str input)"

section \<open>Numbers\<close>

datatype stoi_error = Invalid_argument | Out_of_range

definition is_space :: "char \<Rightarrow> bool" where
  "is_space c \<longleftrightarrow> of_char c = (32 :: nat) \<or> (9 \<le> (of_char c :: nat) \<and> (of_char c :: nat) \<le> 13)"

definition is_digit :: "char \<Rightarrow> bool" where
  "is_digit c \<longleftrightarrow> 48 \<le> (of_char c :: nat) \<and> (of_char c :: nat) \<le> 57"

text \<open>
  \<open>std::stoi\<close> in base ten: leading white space, an optional sign, the longest run of digits;
  what follows is ignored. No digits and a value that is no \<open>int\<close> are exceptions.
\<close>

definition stoi :: "string \<Rightarrow> stoi_error + int" where
  "stoi str =
     (let s = dropWhile is_space (c_str str);
          negative = (s \<noteq> [] \<and> hd s = CHR ''-'');
          s = (if s \<noteq> [] \<and> (hd s = CHR ''-'' \<or> hd s = CHR ''+'') then tl s else s);
          ds = takeWhile is_digit s;
          v = (if negative then - int (digits_value ds) else int (digits_value ds))
      in if ds = [] then Inl Invalid_argument
         else if v < - (2 ^ 31) \<or> 2 ^ 31 \<le> v then Inl Out_of_range
         else Inr v)"

section \<open>Lines\<close>

text \<open>The characters an \<open>istream\<close> still has, and its \<open>eofbit\<close> and \<open>failbit\<close>.\<close>

record istream =
  chars :: string
  eofbit :: bool
  failbit :: bool

text \<open>
  \<open>std::getline(stream, line)\<close>. On a stream that is not good nothing is read and the string
  keeps its old value; otherwise the string is replaced, and reaching the end sets \<open>eofbit\<close>,
  and \<open>failbit\<close> as well when no character was there.
\<close>

definition getline :: "istream \<Rightarrow> string \<Rightarrow> string \<times> istream" where
  "getline is line =
     (if eofbit is \<or> failbit is then (line, is\<lparr>failbit := True\<rparr>)
      else let cs = takeWhile (\<lambda>c. c \<noteq> CHR 0x0A) (chars is);
               rest = dropWhile (\<lambda>c. c \<noteq> CHR 0x0A) (chars is)
           in if rest = [] then (cs, is\<lparr>chars := [], eofbit := True, failbit := (cs = [])\<rparr>)
              else (cs, is\<lparr>chars := tl rest\<rparr>))"

section \<open>Bytes\<close>

definition bytesToString :: "bytes \<Rightarrow> string" where
  "bytesToString bv = map (\<lambda>b. char_of (uint b)) bv"

definition stringToBytes :: "string \<Rightarrow> bytes" where
  "stringToBytes s = map (\<lambda>c. word_of_int (of_char c)) s"

text \<open>
  The receive callback erases the last newline, and prints \<open>strlen\<close> of the vector's data:
  without a zero byte in it, \<open>strlen\<close> reads past the end.
\<close>

definition erase_last_newline :: "bytes \<Rightarrow> bytes" where
  "erase_last_newline data = rev (remove1 10 (rev data))"

definition strlen_data :: "bytes \<Rightarrow> nat option" where
  "strlen_data data =
     (if 0 \<in> set data then Some (length (takeWhile (\<lambda>b. b \<noteq> 0) data)) else None)"

section \<open>Properties\<close>

text \<open>The reference: cut at every separator, and keep the pieces that are not empty.\<close>

fun split_on :: "(char \<Rightarrow> bool) \<Rightarrow> string \<Rightarrow> string list" where
  "split_on p [] = [[]]"
| "split_on p (c # cs) =
     (if p c then [] # split_on p cs
      else case split_on p cs of [] \<Rightarrow> [[c]] | t # ts \<Rightarrow> (c # t) # ts)"

lemma split_on_takeWhile:
  "split_on p s = takeWhile (\<lambda>c. \<not> p c) s #
     (case dropWhile (\<lambda>c. \<not> p c) s of [] \<Rightarrow> [] | _ # r \<Rightarrow> split_on p r)"
  by (induction s) (auto split: list.splits)

lemma split_on_Cons_token:
  "\<not> p c \<Longrightarrow> split_on p (c # cs) =
     (c # takeWhile (\<lambda>c. \<not> p c) cs) #
     (case dropWhile (\<lambda>c. \<not> p c) cs of [] \<Rightarrow> [] | _ # r \<Rightarrow> split_on p r)"
  using split_on_takeWhile [of p cs] by (simp add: split: list.splits)

lemma split_on_dropWhile:
  "filter (\<lambda>t. t \<noteq> []) (split_on p (dropWhile p s)) = filter (\<lambda>t. t \<noteq> []) (split_on p s)"
  by (induction s) auto

lemma tokens_from_split:
  "tokens_from seps s = filter (\<lambda>t. t \<noteq> []) (split_on (\<lambda>c. c \<in> set seps) s)"
proof (induction seps s rule: tokens_from.induct)
  case (1 seps s)
  let ?p = "\<lambda>c. c \<in> set seps"
  show ?case
  proof (cases "dropWhile ?p s")
    case Nil
    have "tokens_from seps s = []" unfolding tokens_from.simps [of seps s] strtok_eq Nil by simp
    with split_on_dropWhile [of ?p s] show ?thesis unfolding Nil by simp
  next
    case (Cons c cs)
    then have c: "\<not> ?p c" by (metis hd_dropWhile list.distinct(1) list.sel(1))
    let ?r = "drop 1 (dropWhile (\<lambda>c. \<not> ?p c) cs)"
    have tok: "strtok seps s = Some (c # takeWhile (\<lambda>c. \<not> ?p c) cs, ?r)"
      unfolding strtok_eq Cons by simp
    have "tokens_from seps s = (c # takeWhile (\<lambda>c. \<not> ?p c) cs) # tokens_from seps ?r"
      unfolding tokens_from.simps [of seps s] tok by simp
    also have "\<dots> = filter (\<lambda>t. t \<noteq> []) (split_on ?p (c # cs))"
      unfolding 1 [OF tok refl] split_on_Cons_token [where p = ?p, OF c]
      by (cases "dropWhile (\<lambda>c. \<not> ?p c) cs") (simp_all del: dropWhile_eq_Nil_conv)
    also have "\<dots> = filter (\<lambda>t. t \<noteq> []) (split_on ?p s)"
      using split_on_dropWhile [of ?p s] unfolding Cons .
    finally show ?thesis .
  qed
qed

lemma tokenize_split:
  "tokenize input separators =
     filter (\<lambda>t. t \<noteq> []) (split_on (\<lambda>c. c \<in> set (c_str separators)) (c_str input))"
  by (simp add: tokenize_def tokens_from_split)

text \<open>Tokens joined by single separators are split into the same tokens again.\<close>

definition plain_token :: "(char \<Rightarrow> bool) \<Rightarrow> string \<Rightarrow> bool" where
  "plain_token p t \<longleftrightarrow> t \<noteq> [] \<and> (\<forall>c\<in>set t. \<not> p c \<and> c \<noteq> CHR 0x00)"

lemma split_on_append:
  "\<forall>c\<in>set t. \<not> p c \<Longrightarrow> p sep \<Longrightarrow> split_on p (t @ sep # s) = t # split_on p s"
  by (induction t) auto

lemma split_on_plain: "\<forall>c\<in>set t. \<not> p c \<Longrightarrow> split_on p t = [t]"
  by (induction t) auto

definition join_with :: "char \<Rightarrow> string list \<Rightarrow> string" where
  "join_with sep ts = (let d = concat (map (\<lambda>t. t @ [sep]) ts) in take (length d - 1) d)"

lemma join_with_Nil [simp]: "join_with sep [] = []"
  by (simp add: join_with_def)

lemma join_with_single: "join_with sep [t] = t"
  by (simp add: join_with_def)

lemma join_with_Cons: "ts \<noteq> [] \<Longrightarrow> join_with sep (t # ts) = t @ sep # join_with sep ts"
  by (cases ts) (simp_all add: join_with_def Let_def)

lemma split_on_join:
  assumes "p sep" and "\<forall>t\<in>set ts. plain_token p t"
  shows "filter (\<lambda>t. t \<noteq> []) (split_on p (join_with sep ts)) = ts"
  using assms(2)
proof (induction ts)
  case (Cons t ts)
  then show ?case
    using assms(1)
    by (cases "ts = []")
      (auto simp: join_with_single join_with_Cons plain_token_def split_on_append split_on_plain)
qed simp

lemma c_str_join:
  "sep \<noteq> CHR 0x00 \<Longrightarrow> \<forall>t\<in>set ts. plain_token p t \<Longrightarrow> c_str (join_with sep ts) = join_with sep ts"
proof (induction ts)
  case (Cons t ts)
  then show ?case
    by (cases "ts = []") (auto simp: join_with_single join_with_Cons plain_token_def c_str_def)
qed (simp add: c_str_def)

lemma split_on_pieces: "t \<in> set (split_on p s) \<Longrightarrow> c \<in> set t \<Longrightarrow> \<not> p c \<and> c \<in> set s"
proof (induction s arbitrary: t)
  case (Cons a s)
  then show ?case by (cases "split_on p s") (fastforce split: if_splits)+
qed simp

lemma c_str_nonzero: "c \<in> set (c_str s) \<Longrightarrow> c \<noteq> CHR 0x00"
  by (auto simp: c_str_def dest: set_takeWhileD)

lemma tokenize_plain:
  "t \<in> set (tokenize input seps) \<Longrightarrow> plain_token (\<lambda>c. c \<in> set (c_str seps)) t"
  by (auto simp: tokenize_split plain_token_def dest: split_on_pieces c_str_nonzero)

lemma tokenize_join:
  assumes "\<forall>t\<in>set ts. plain_token (\<lambda>c. c = sep) t" and "sep \<noteq> CHR 0x00"
  shows "tokenize (join_with sep ts) [sep] = ts"
proof -
  have "c_str [sep] = [sep]" using assms(2) by (simp add: c_str_def)
  then show ?thesis
    using split_on_join [of "\<lambda>c. c = sep" sep ts] c_str_join [OF assms(2,1)] assms(1)
    by (simp add: tokenize_split)
qed

text \<open>What \<open>std::to_string\<close> prints, \<open>stoi\<close> reads.\<close>

lemma is_digit_char: "d < 10 \<Longrightarrow> is_digit (digit_char d)"
  by (simp add: is_digit_def of_char_digit)

lemma to_string_nat_digits: "to_string_nat n \<noteq> [] \<and> (\<forall>c\<in>set (to_string_nat n). is_digit c)"
proof (induction n rule: to_string_nat.induct)
  case (1 n)
  then show ?case by (subst (1 2) to_string_nat.simps) (auto simp: is_digit_char)
qed

lemma digit_facts:
  assumes "is_digit c"
  shows "c \<noteq> CHR 0x00" and "\<not> is_space c" and "c \<noteq> CHR ''-''" and "c \<noteq> CHR ''+''"
  using assms by (auto simp: is_digit_def is_space_def)

lemma stoi_sign:
  assumes "ds \<noteq> []" and "\<forall>c\<in>set ds. is_digit c"
  shows "stoi ds = (let v = int (digits_value ds) in if 2 ^ 31 \<le> v then Inl Out_of_range else Inr v)"
    and "stoi (CHR ''-'' # ds) =
      (let v = - int (digits_value ds) in if v < - (2 ^ 31) then Inl Out_of_range else Inr v)"
proof -
  have c: "c_str ds = ds" "takeWhile is_digit ds = ds"
    using assms(2) digit_facts(1) by (auto simp: c_str_def takeWhile_eq_all_conv)
  obtain d ds' where d: "ds = d # ds'" using assms(1) by (cases ds) auto
  then have "is_digit d" using assms(2) by simp
  note f = digit_facts [OF this]
  have "dropWhile is_space ds = ds" using f d by simp
  moreover have "\<not> int (digits_value ds) < - (2 ^ 31)" by simp
  ultimately show "stoi ds = (let v = int (digits_value ds) in if 2 ^ 31 \<le> v then Inl Out_of_range else Inr v)"
    using c f unfolding stoi_def Let_def by (simp add: d)
  have "c_str (CHR ''-'' # ds) = CHR ''-'' # ds" using c by (simp add: c_str_def)
  moreover have "\<not> is_space (CHR ''-'')" by (simp add: is_space_def)
  moreover have "\<not> 2 ^ 31 \<le> - int (digits_value ds)" by simp
  ultimately show "stoi (CHR ''-'' # ds) =
      (let v = - int (digits_value ds) in if v < - (2 ^ 31) then Inl Out_of_range else Inr v)"
    using c assms(1) unfolding stoi_def Let_def by (simp del: takeWhile_eq_all_conv)
qed

lemma stoi_to_string:
  assumes "- (2 ^ 31) \<le> i" and "i < 2 ^ 31"
  shows "stoi (to_string_int i) = Inr i"
  using assms to_string_nat_digits
  by (auto simp: to_string_int_def stoi_sign digits_value_to_string Let_def)

text \<open>Strings and byte vectors carry the same data.\<close>

lemma char_byte: "take_bit 8 (of_char c :: int) = of_char c"
  by (simp add: take_bit_eq_mod)

lemma byte_mod: "uint (b :: u8) mod 256 = uint b"
  using uint_lt2p [of b] by (simp add: mod_pos_pos_trivial)

lemma bytes_round_trip: "bytesToString (stringToBytes s) = s"
  by (simp add: bytesToString_def stringToBytes_def uint_word_of_int_eq char_byte comp_def)

lemma string_round_trip: "stringToBytes (bytesToString bs) = bs"
  by (simp add: bytesToString_def stringToBytes_def byte_mod comp_def)

end
