(* ===== verification/Demo.thy ===== *)
theory Demo
  imports TcpNode DemoText
begin

text \<open>
  The command line client (\<^verbatim>\<open>demo/demo.cpp\<close>): its helpers, the text its callbacks print, one
  iteration of its main loop, and the whole program as a step relation in which the node's
  threads run between the iterations. A callback is numbered by the closure it stands for;
  what it prints is computed from the invocation the node recorded.
\<close>

section \<open>State and output\<close>

datatype main_pc = M_Loop | M_Destroy | M_Finished

record ('s, 'w) demo =
  demo_node :: "('s, 'w) TcpNode"
  cin :: istream
  cout :: string
  cerr :: string
  command :: string
  cmd_tokens :: "string list"
  exit_program :: bool
  main_pc :: main_pc

definition print_out :: "string list \<Rightarrow> ('s, 'w) demo \<Rightarrow> ('s, 'w) demo" where
  "print_out ss d = d\<lparr>cout := cout d @ concat ss @ [CHR 0x0A]\<rparr>"

definition print_err :: "string list \<Rightarrow> ('s, 'w) demo \<Rightarrow> ('s, 'w) demo" where
  "print_err ss d = d\<lparr>cerr := cerr d @ concat ss @ [CHR 0x0A]\<rparr>"

definition to_string_u64 :: "u64 \<Rightarrow> string" where
  "to_string_u64 n = to_string_nat (unat n)"

definition listCommands_text :: string where
  "listCommands_text =
     concat (map (\<lambda>line. line @ [CHR 0x0A])
       [''> Available commands: '', ''> - Version'', ''> - Connect <ip> <port> '',
        ''> - Send <id> <data> '', ''> - Listen <port>  [IPv4|IPv6] '', ''> - Is_listening'',
        ''> - Show_listen_port'', ''> - Set_receive_buffer_size <size> '',
        ''> - Show_receive_buffer_size'', ''> - Show_latest_peer'', ''> - Stop_listening'',
        ''> - Disconnect <id> '', ''> - Disconnect_all'', ''> - Show_peers'',
        ''> - List_commands'', ''> - Exit'', []])"

definition listCommands :: "('s, 'w) demo \<Rightarrow> ('s, 'w) demo" where
  "listCommands d = d\<lparr>cout := cout d @ listCommands_text\<rparr>"

definition peerAt :: "u64 \<Rightarrow> PeerList \<Rightarrow> Peer" where
  "peerAt i peers =
     (case map_of peers i of Some pp \<Rightarrow> Some pp | None \<Rightarrow> Some PeerPrivate_new)"

section \<open>Callbacks\<close>

text \<open>The text of one line, ended by \<open>std::endl\<close>.\<close>

definition line_of :: "string list \<Rightarrow> string" where
  "line_of ss = concat ss @ [CHR 0x0A]"

definition reportError :: "Message \<Rightarrow> string" where
  "reportError msg = line_of [''> '', msg_head msg] @ line_of [''> '', msg_body msg]"

definition peer_tag :: "PeerPrivate \<Rightarrow> string" where
  "peer_tag pr =
     concat [''('', to_string_u64 (m_connection_id pr), '') '', m_ip_address pr, '':'',
       to_string_u16 (m_port_number pr)]"

text \<open>
  What a closure prints to the output and to the error stream; \<open>None\<close> when it has no defined
  behaviour. No closure is registered for sent data.
\<close>

fun demo_callback :: "event \<Rightarrow> (string \<times> string) option" where
  "demo_callback (ListenError _ msg) = Some ([], reportError msg)"
| "demo_callback (SendError _ msg) = Some ([], reportError msg)"
| "demo_callback (ConnectError _ msg) = Some ([], reportError msg)"
| "demo_callback (FaultyConnectionClosed _ pr errmsg) =
     Some (line_of [''Closed connection to '', m_ip_address pr, '':'',
       to_string_u16 (m_port_number pr), '' due to error: '', msg_head errmsg, '': '',
       msg_body errmsg], [])"
| "demo_callback (NewPeerConnected _ pr) =
     Some (line_of [''> '', peer_tag pr, '' has connected.''], [])"
| "demo_callback (Received _ pr data) =
     (let copy_data = erase_last_newline data
      in do { n \<leftarrow> strlen_data copy_data;
              Some (line_of [''> Received '', to_string_nat n, '' bytes from: '', peer_tag pr,
                '': '', bytesToString copy_data], []) })"
| "demo_callback (PeerDisconnected _ pr) =
     Some (line_of [''> '', peer_tag pr, '' has disconnected.''], [])"
| "demo_callback (ClosedConnection _ pr) =
     Some (line_of [''> Closed connection to '', peer_tag pr], [])"
| "demo_callback (ConnectedToNewPeer _ pr) =
     Some (line_of [''> Connected to '', peer_tag pr], [])"
| "demo_callback (StartedListening _ port) =
     Some (line_of [''> Started listening on port '', to_string_u16 port, ''.''], [])"
| "demo_callback (StoppedListening _) = Some (line_of [''> Stopped listening.''], [])"
| "demo_callback (Sent _ pr amount) = Some ([], [])"

fun callbacks_text :: "event list \<Rightarrow> (string \<times> string) option" where
  "callbacks_text [] = Some ([], [])"
| "callbacks_text (e # es) =
     do { (out, err) \<leftarrow> demo_callback e;
          (outs, errs) \<leftarrow> callbacks_text es;
          Some (out @ outs, err @ errs) }"

text \<open>The closures the program registers, by number.\<close>

definition demo_setup :: "('s, 'w) TcpNode \<Rightarrow> ('s, 'w) TcpNode option" where
  "demo_setup n =
     do { n \<leftarrow> TcpNode_onListenError (Some 1) n;
          n \<leftarrow> TcpNode_onSendError (Some 1) n;
          n \<leftarrow> TcpNode_onConnectError (Some 1) n;
          n \<leftarrow> TcpNode_onFaultyConnectionClosed (Some 2) n;
          n \<leftarrow> TcpNode_onAccept (Some 3) n;
          n \<leftarrow> TcpNode_onReceive (Some 4) n;
          n \<leftarrow> TcpNode_onDisconnect (Some 5) n;
          n \<leftarrow> TcpNode_onClosedConnection (Some 6) n;
          n \<leftarrow> TcpNode_onConnect (Some 7) n;
          n \<leftarrow> TcpNode_onStartedListening (Some 8) n;
          TcpNode_onStoppedListening (Some 9) n }"

text \<open>The node moves from \<open>demo_node d\<close> to \<open>n\<close>, and the callbacks it invoked print.\<close>

definition move_node :: "('s, 'w) TcpNode \<Rightarrow> ('s, 'w) demo \<Rightarrow> ('s, 'w) demo option" where
  "move_node n d =
     do { (out, err) \<leftarrow> callbacks_text (drop (length (node_events (demo_node d))) (node_events n));
          Some (d\<lparr>demo_node := n, cout := cout d @ out, cerr := cerr d @ err\<rparr>) }"

definition on_node ::
  "(('s, 'w) TcpNode \<Rightarrow> ('s, 'w) TcpNode option) \<Rightarrow> ('s, 'w) demo \<Rightarrow> ('s, 'w) demo option" where
  "on_node f d = do { n \<leftarrow> f (demo_node d); move_node n d }"

section \<open>Commands\<close>

text \<open>A block \<open>try { ... std::stoi(str) ... }\<close> with the program's two handlers.\<close>

definition with_stoi ::
  "string \<Rightarrow> (int \<Rightarrow> ('s, 'w) demo \<Rightarrow> ('s, 'w) demo option) \<Rightarrow> ('s, 'w) demo \<Rightarrow>
     ('s, 'w) demo option" where
  "with_stoi str body d =
     (case stoi str of
        Inl Invalid_argument \<Rightarrow> Some (print_err [''> Specified id could not be parsed.''] d)
      | Inl Out_of_range \<Rightarrow> Some (print_err [''> Specified id is to large.''] d)
      | Inr v \<Rightarrow> body v d)"

definition cmd_connect :: "('s, 'w) demo \<Rightarrow> ('s, 'w) demo option" where
  "cmd_connect d =
     (let ts = cmd_tokens d
      in if 3 \<le> length ts
         then with_stoi (ts ! 2)
                (\<lambda>v. on_node (TcpNode_connectTo (ts ! 1) (word_of_int v))) d
         else Some (print_err [''> Error: '', ''Connect'', '' needs ip and port.''] d))"

text \<open>The tokens from the third on, joined by spaces, with the last space removed.\<close>

definition data_to_send :: "string list \<Rightarrow> string" where
  "data_to_send ts =
     (let dataToSend = concat (map (\<lambda>t. t @ '' '') (drop 2 ts))
      in take (length dataToSend - 1) dataToSend)"

definition cmd_send :: "('s, 'w) ISocket \<Rightarrow> ('s, 'w) demo \<Rightarrow> ('s, 'w) demo option" where
  "cmd_send V d =
     (let ts = cmd_tokens d
      in if 3 \<le> length ts
         then with_stoi (ts ! 1)
                (\<lambda>v d. do { peers \<leftarrow> TcpNode_allPeers (demo_node d);
                            on_node (TcpNode_sendData V (peerAt (word_of_int v) peers)
                              (stringToBytes (data_to_send ts))) d }) d
         else Some (print_err [''Error: '', ''Send'', '' needs id and data.''] d))"

definition cmd_listen :: "('s, 'w) demo \<Rightarrow> ('s, 'w) demo option" where
  "cmd_listen d =
     (let ts = cmd_tokens d
      in if 2 \<le> length ts
         then with_stoi (ts ! 1)
                (\<lambda>v d. let requested_port = word_of_int v
                       in if 3 \<le> length ts
                          then if ts ! 2 = ''IPv4''
                               then on_node (TcpNode_doListen requested_port IPV4) d
                               else if ts ! 2 = ''IPv6''
                               then on_node (TcpNode_doListen requested_port IPV6) d
                               else Some (print_err
                                      [''> Specified IP version could not be parsed.''] d)
                          else on_node (TcpNode_doListen requested_port IPV_ANY) d) d
         else Some (print_err [''> Port must be specified.''] d))"

definition cmd_is_listening :: "('s, 'w) demo \<Rightarrow> ('s, 'w) demo option" where
  "cmd_is_listening d =
     do { b \<leftarrow> TcpNode_isListening (demo_node d);
          Some (print_out [if b then ''> Listening for connections.'' else ''> Not listening.''] d) }"

definition cmd_show_listen_port :: "('s, 'w) demo \<Rightarrow> ('s, 'w) demo option" where
  "cmd_show_listen_port d =
     do { port \<leftarrow> TcpNode_listenPort (demo_node d);
          Some (print_out [''> '', to_string_u16 port] d) }"

definition cmd_set_receive_buffer_size ::
  "('s, 'w) ISocket \<Rightarrow> ('s, 'w) demo \<Rightarrow> ('s, 'w) demo option" where
  "cmd_set_receive_buffer_size V d =
     (let ts = cmd_tokens d
      in if 2 \<le> length ts
         then with_stoi (ts ! 1)
                (\<lambda>v. on_node (TcpNode_setReceiveBufferSize V (word_of_int v))) d
         else Some (print_err [''> Size needs to be specified.''] d))"

definition cmd_show_receive_buffer_size ::
  "('s, 'w) ISocket \<Rightarrow> ('s, 'w) demo \<Rightarrow> ('s, 'w) demo option" where
  "cmd_show_receive_buffer_size V d =
     do { n \<leftarrow> TcpNode_receiveBufferSize V (demo_node d);
          Some (print_out [''> Receive buffer size: '', to_string_u64 n, '' bytes.''] d) }"

definition cmd_show_latest_peer :: "('s, 'w) demo \<Rightarrow> ('s, 'w) demo option" where
  "cmd_show_latest_peer d =
     do { pr \<leftarrow> TcpNode_latestPeer (demo_node d);
          Some (print_out [''> '', '' ('', to_string_u64 (Peer_id pr), '') '', Peer_ipAddress pr,
            '':'', to_string_u16 (Peer_port pr)] d) }"

definition cmd_disconnect :: "('s, 'w) demo \<Rightarrow> ('s, 'w) demo option" where
  "cmd_disconnect d =
     (let ts = cmd_tokens d
      in if 2 \<le> length ts
         then with_stoi (ts ! 1)
                (\<lambda>v d. do { peers \<leftarrow> TcpNode_allPeers (demo_node d);
                            on_node (TcpNode_disconnectPeer (peerAt (word_of_int v) peers)) d }) d
         else Some d)"

definition show_peer :: "u64 \<times> PeerPrivate \<Rightarrow> string" where
  "show_peer p = line_of [''> '', ''('', to_string_u64 (m_connection_id (snd p)), '')'', '' '',
     m_ip_address (snd p), '':'', to_string_u16 (m_port_number (snd p))]"

definition cmd_show_peers :: "('s, 'w) demo \<Rightarrow> ('s, 'w) demo option" where
  "cmd_show_peers d =
     do { all_peers \<leftarrow> TcpNode_allPeers (demo_node d);
          Some (if all_peers \<noteq> [] then d\<lparr>cout := cout d @ concat (map show_peer all_peers)\<rparr>
                else print_out [''> No peers available.''] d) }"

text \<open>The chain of comparisons with the first token.\<close>

definition dispatch :: "('s, 'w) ISocket \<Rightarrow> ('s, 'w) demo \<Rightarrow> ('s, 'w) demo option" where
  "dispatch V d =
     (let cmd = cmd_tokens d ! 0
      in if cmd = ''Version'' then Some (print_out [''Version: '', version] d)
         else if cmd = ''Connect'' then cmd_connect d
         else if cmd = ''Send'' then cmd_send V d
         else if cmd = ''Listen'' then cmd_listen d
         else if cmd = ''Is_listening'' then cmd_is_listening d
         else if cmd = ''Show_listen_port'' then cmd_show_listen_port d
         else if cmd = ''Set_receive_buffer_size'' then cmd_set_receive_buffer_size V d
         else if cmd = ''Show_receive_buffer_size'' then cmd_show_receive_buffer_size V d
         else if cmd = ''Show_latest_peer'' then cmd_show_latest_peer d
         else if cmd = ''Stop_listening'' then on_node TcpNode_stopListening d
         else if cmd = ''Disconnect'' then cmd_disconnect d
         else if cmd = ''Disconnect_all'' then on_node TcpNode_disconnectAll d
         else if cmd = ''Exit'' then Some (d\<lparr>exit_program := True\<rparr>)
         else if cmd = ''Show_peers'' then cmd_show_peers d
         else if cmd = ''List_commands'' then Some (listCommands d)
         else Some (print_err [''> Error invalid command''] d))"

section \<open>The program\<close>

text \<open>One iteration of the main loop.\<close>

definition iteration :: "('s, 'w) ISocket \<Rightarrow> ('s, 'w) demo \<Rightarrow> ('s, 'w) demo option" where
  "iteration V d =
     (let (cmd, is) = getline (cin d) (command d);
          d = d\<lparr>command := cmd, cin := is, cmd_tokens := tokenize cmd '' ''\<rparr>
      in if length (cmd_tokens d) \<le> 0 then Some (print_err [''> Error: Command empty.''] d)
         else dispatch V d)"

text \<open>What precedes the loop; \<open>tokens.back()\<close> on an empty vector is undefined.\<close>

definition demo_start ::
  "string \<Rightarrow> istream \<Rightarrow> ('s, 'w) TcpNode \<Rightarrow> ('s, 'w) demo option" where
  "demo_start argv0 is n =
     do { n \<leftarrow> demo_setup n;
          let tokens = tokenize argv0 ''/'';
          if tokens = [] then None
          else Some (listCommands
            \<lparr>demo_node = n, cin = is,
             cout = line_of [''> ### Welcome to '', last tokens, '' ###''], cerr = [],
             command = [], cmd_tokens = [], exit_program = False, main_pc = M_Loop\<rparr>) }"

text \<open>
  The threads of the node and its surroundings move between the iterations; the destructor of
  the node runs, stage by stage, once the loop has ended.
\<close>

inductive background ::
  "('s, 'w) ISocket \<Rightarrow> (int \<Rightarrow> 'w \<Rightarrow> int \<times> 'w) \<Rightarrow> ('s, 'w) node \<Rightarrow> ('s, 'w) node \<Rightarrow> bool"
  for V :: "('s, 'w) ISocket" and T :: "int \<Rightarrow> 'w \<Rightarrow> int \<times> 'w" where
  bg_listen: "listenThread_enabled s \<Longrightarrow> listenThread_step V s = Some s' \<Longrightarrow> background V T s s'"
| bg_connect:
    "connectThread_enabled s \<Longrightarrow> connectThread_step V T s = Some s' \<Longrightarrow> background V T s s'"
| bg_send: "sendThread_enabled s \<Longrightarrow> sendThread_step V s = Some s' \<Longrightarrow> background V T s s'"
| bg_world: "background V T s (s\<lparr>world := w\<rparr>)"
| bg_rehash: "mset ps = mset (m_peers s) \<Longrightarrow> background V T s (s\<lparr>m_peers := ps\<rparr>)"

inductive demo_step ::
  "('s, 'w) ISocket \<Rightarrow> (int \<Rightarrow> 'w \<Rightarrow> int \<times> 'w) \<Rightarrow> ('s, 'w) demo \<Rightarrow> ('s, 'w) demo \<Rightarrow> bool"
  for V :: "('s, 'w) ISocket" and T :: "int \<Rightarrow> 'w \<Rightarrow> int \<times> 'w" where
  demo_background:
    "demo_node d = Some s \<Longrightarrow> background V T s s' \<Longrightarrow> move_node (Some s') d = Some d' \<Longrightarrow>
     demo_step V T d d'"
| demo_iterate:
    "main_pc d = M_Loop \<Longrightarrow> \<not> exit_program d \<Longrightarrow> iteration V d = Some d' \<Longrightarrow> demo_step V T d d'"
| demo_leave:
    "main_pc d = M_Loop \<Longrightarrow> exit_program d \<Longrightarrow>
     demo_step V T d (print_out [''> Destroying TcpNode...''] (d\<lparr>main_pc := M_Destroy\<rparr>))"
| demo_destroy:
    "main_pc d = M_Destroy \<Longrightarrow> demo_node d = Some s \<Longrightarrow> TcpNode_dtor V (Some s) = Some n \<Longrightarrow>
     demo_step V T d (d\<lparr>demo_node := n\<rparr>)"
| demo_finish:
    "main_pc d = M_Destroy \<Longrightarrow> demo_node d = None \<Longrightarrow>
     demo_step V T d (print_out [''> Program Finished''] (d\<lparr>main_pc := M_Finished\<rparr>))"

inductive_cases demo_stepE: "demo_step V T d d'"
inductive_cases backgroundE: "background V T s s'"

section \<open>On the interface of the node\<close>

context node_service begin

text \<open>Whatever a call reports can be printed.\<close>

lemma service_prints:
  assumes "usable n" and "allowed c"
  shows "\<exists>n' t. service c n = Some n' \<and> usable n' \<and>
    callbacks_text (drop (length (history n)) (history n')) = Some t"
proof -
  obtain n' where n': "service c n = Some n'" using service_returns [OF assms] by blast
  then have "\<exists>t. callbacks_text (drop (length (history n)) (history n')) = Some t"
    using service_reports [OF assms n'] by auto
  with n' service_usable [OF assms n'] show ?thesis by blast
qed

end

end
