(* ===== verification/DemoProps.thy ===== *)
theory DemoProps
  imports Demo NodeProgress
begin

text \<open>
  What every iteration of the client's loop preserves: the node stays reachable and in use, the
  input and the command line are what \<open>getline\<close> left, and the exit flag is set by one command
  alone. From it, the invariant of the whole program.
\<close>

section \<open>Calls on the node\<close>

text \<open>The node of a running program, and what a command leaves alone.\<close>

definition demo_ok ::
  "('s, 'w) ISocket \<Rightarrow> (int \<Rightarrow> 'w \<Rightarrow> int \<times> 'w) \<Rightarrow> ('s, 'w) demo \<Rightarrow> bool" where
  "demo_ok V T d \<longleftrightarrow> (\<exists>s. demo_node d = Some s \<and> reachable V T s \<and> m_owner s = O_Running)"

definition demo_frame :: "('s, 'w) demo \<Rightarrow> ('s, 'w) demo \<Rightarrow> bool" where
  "demo_frame d d' \<longleftrightarrow> main_pc d' = main_pc d \<and> exit_program d' = exit_program d \<and>
     command d' = command d \<and> cin d' = cin d"

definition command_ok ::
  "('s, 'w) ISocket \<Rightarrow> (int \<Rightarrow> 'w \<Rightarrow> int \<times> 'w) \<Rightarrow> ('s, 'w) demo \<Rightarrow> ('s, 'w) demo \<Rightarrow> bool" where
  "command_ok V T d d' \<longleftrightarrow> demo_ok V T d' \<and> demo_frame d d'"

lemma command_ok_same:
  assumes "demo_ok V T d"
  shows "command_ok V T d (print_out ss d)" and "command_ok V T d (print_err ss d)"
    and "command_ok V T d (listCommands d)" and "command_ok V T d d"
    and "command_ok V T d (d\<lparr>cout := t\<rparr>)"
  using assms
  by (simp_all add: command_ok_def demo_ok_def demo_frame_def print_out_def print_err_def
      listCommands_def)

lemma demo_ok_usable: "names_defined V \<Longrightarrow> demo_ok V T d \<longleftrightarrow> usable_node V T (demo_node d)"
  by (simp add: demo_ok_def usable_node_def)

lemma on_node_ok:
  assumes d: "demo_ok V T d" and V: "names_defined V"
    and f: "\<And>n. f n = on_private (api V c) n" and c: "api_allowed c"
  shows "ensures (on_node f d) (command_ok V T d)"
proof -
  obtain n' out err where "on_private (api V c) (demo_node d) = Some n'" "usable_node V T n'"
    "callbacks_text (drop (length (node_events (demo_node d))) (node_events n')) = Some (out, err)"
    using node_api.service_prints [OF _ c] d V by (metis demo_ok_usable surj_pair)
  then show ?thesis
    by (simp add: on_node_def f move_node_def command_ok_def demo_ok_usable [OF V] demo_frame_def)
qed

lemma with_stoi_ok:
  assumes "demo_ok V T d" and "\<And>v. ensures (body v d) (command_ok V T d)"
  shows "ensures (with_stoi str body d) (command_ok V T d)"
  using assms
  by (auto simp: with_stoi_def command_ok_same split: sum.split stoi_error.split)

lemma allPeers_ok:
  assumes "demo_ok V T d" and "\<And>ps. ensures (f ps) Q"
  shows "ensures (do { peers \<leftarrow> TcpNode_allPeers (demo_node d); f peers }) Q"
  using assms by (auto simp: TcpNode_allPeers_def of_private_def demo_ok_def)

section \<open>The commands\<close>

lemma commands_ok:
  assumes d: "demo_ok V T d" and V: "names_defined V"
  shows "ensures (cmd_connect d) (command_ok V T d)"
    and "ensures (cmd_send V d) (command_ok V T d)"
    and "ensures (cmd_listen d) (command_ok V T d)"
    and "ensures (cmd_set_receive_buffer_size V d) (command_ok V T d)"
    and "ensures (cmd_disconnect d) (command_ok V T d)"
    and "ensures (on_node TcpNode_stopListening d) (command_ok V T d)"
    and "ensures (on_node TcpNode_disconnectAll d) (command_ok V T d)"
  by (auto simp: cmd_connect_def cmd_send_def cmd_listen_def cmd_set_receive_buffer_size_def
      cmd_disconnect_def Let_def command_ok_same [OF d]
      intro!: with_stoi_ok [OF d] allPeers_ok [OF d] on_node_ok [OF d V] TcpNode_calls)

lemma queries_ok:
  assumes d: "demo_ok V T d" and V: "names_defined V"
  shows "ensures (cmd_is_listening d) (command_ok V T d)"
    and "ensures (cmd_show_listen_port d) (command_ok V T d)"
    and "ensures (cmd_show_receive_buffer_size V d) (command_ok V T d)"
    and "ensures (cmd_show_latest_peer d) (command_ok V T d)"
    and "ensures (cmd_show_peers d) (command_ok V T d)"
proof -
  obtain s where s: "demo_node d = Some s" "reachable V T s" "m_owner s = O_Running"
    using d by (auto simp: demo_ok_def)
  note inv = reachable_inv [OF s(2) V]
  show "ensures (cmd_is_listening d) (command_ok V T d)"
    "ensures (cmd_show_listen_port d) (command_ok V T d)"
    "ensures (cmd_show_peers d) (command_ok V T d)"
    by (auto simp: cmd_is_listening_def cmd_show_listen_port_def cmd_show_peers_def s(1)
        TcpNode_isListening_def TcpNode_listenPort_def TcpNode_allPeers_def of_private_def
        command_ok_same [OF d])
  obtain l so where "m_listener s = Some l" "objects s l = Some so"
    using listener_live [OF node_invD(1) [OF inv]] s(3) by (auto simp: live_def)
  then show "ensures (cmd_show_receive_buffer_size V d) (command_ok V T d)"
    by (simp add: cmd_show_receive_buffer_size_def TcpNode_receiveBufferSize_def of_private_def s(1)
        receiveBufferSize_def call_read_def command_ok_same [OF d])
  show "ensures (cmd_show_latest_peer d) (command_ok V T d)"
    using ensures_defined [OF latestPeer_spec [OF node_invD(1) [OF inv]]]
    by (auto simp: cmd_show_latest_peer_def TcpNode_latestPeer_def of_private_def s(1)
        command_ok_same [OF d])
qed

section \<open>One iteration\<close>

definition is_exit :: "string \<Rightarrow> bool" where
  "is_exit line \<longleftrightarrow> (let ts = tokenize line '' '' in ts \<noteq> [] \<and> ts ! 0 = ''Exit'')"

lemma dispatch_ok:
  assumes d: "demo_ok V T d" and V: "names_defined V"
  shows "ensures (dispatch V d) (\<lambda>d'. demo_ok V T d' \<and>
    demo_frame (d\<lparr>exit_program := exit_program d \<or> cmd_tokens d ! 0 = ''Exit''\<rparr>) d')"
proof (cases "cmd_tokens d ! 0 = ''Exit''")
  case True
  then show ?thesis using d by (simp add: dispatch_def demo_ok_def demo_frame_def)
next
  case False
  have "ensures (dispatch V d) (command_ok V T d)"
    using False unfolding dispatch_def Let_def
    by (simp add: command_ok_same [OF d] commands_ok [OF d V] queries_ok [OF d V])
  then show ?thesis using False by (auto elim!: ensures_mono simp: command_ok_def demo_frame_def)
qed

lemma iteration_ok:
  assumes d: "demo_ok V T d" and V: "names_defined V" and g: "getline (cin d) (command d) = (c, is)"
  shows "ensures (iteration V d) (\<lambda>d'. demo_ok V T d' \<and>
    demo_frame (d\<lparr>exit_program := exit_program d \<or> is_exit c, command := c, cin := is\<rparr>) d')"
proof -
  let ?d = "d\<lparr>command := c, cin := is, cmd_tokens := tokenize c '' ''\<rparr>"
  have d': "demo_ok V T ?d" using d by (simp add: demo_ok_def)
  show ?thesis
  proof (cases "tokenize c '' ''")
    case Nil
    then show ?thesis
      using d' by (auto simp: iteration_def g is_exit_def demo_ok_def demo_frame_def print_err_def)
  next
    case (Cons t ts)
    with dispatch_ok [OF d' V] show ?thesis
      by (auto simp: iteration_def g is_exit_def demo_frame_def elim!: ensures_mono)
  qed
qed

section \<open>The program\<close>

definition demo_inv ::
  "('s, 'w) ISocket \<Rightarrow> (int \<Rightarrow> 'w \<Rightarrow> int \<times> 'w) \<Rightarrow> ('s, 'w) demo \<Rightarrow> bool" where
  "demo_inv V T d \<longleftrightarrow>
     (case main_pc d of
        M_Loop \<Rightarrow> demo_ok V T d
      | M_Destroy \<Rightarrow>
          (\<forall>s. demo_node d = Some s \<longrightarrow> reachable V T s \<and> m_owner s \<noteq> O_Destroyed)
      | M_Finished \<Rightarrow> demo_node d = None)"

text \<open>No thread moves the owner's control point.\<close>

lemma control_owner: "control s' = control s \<Longrightarrow> m_owner s' = m_owner s"
  by (simp add: control_def)

lemma keeps_owner: "ensures m (keeps s) \<Longrightarrow> ensures m (\<lambda>s'. m_owner s' = m_owner s)"
  by (erule ensures_mono) (rule keepsD(2))

lemma listenThread_owner:
  assumes inv: "node_inv s" and run: "listenThread_enabled s" and V: "names_defined V"
  shows "ensures (listenThread_step V s) (\<lambda>s'. m_owner s' = m_owner s)"
proof -
  have "\<not> listen_stopped s" using run by (auto simp: listenThread_enabled_def listen_stopped_def)
  note own = not_destroyed(1) [OF inv this] and core = node_invD(1) [OF inv]
  have "ensures (start_listening V s) (keeps s)"
    by (rule ensures_mono [OF start_listening_ok [OF core own]], erule same_keeps)
  moreover have "ensures (stop_listening V s) (\<lambda>(c, s'). m_owner s' = m_owner s)"
    by (rule ensures_mono [OF stop_listening_ok [OF core own]]) (auto dest: sameD(2))
  then have "ensures (do { (c, s) \<leftarrow> stop_listening V s; Some (s\<lparr>m_listenThread := L_Stopped c\<rparr>) })
      (\<lambda>s'. m_owner s' = m_owner s)"
    by (rule ensures_bindI2) simp
  moreover note poll_ok [OF core own V, THEN keeps_owner]
  ultimately show ?thesis
    unfolding listenThread_step_def
    by (auto split: listen_pc.split option.split simp: fire_def emit_def dest: keeps_owner)
qed

lemma sendThread_owner:
  assumes inv: "node_inv s"
  shows "ensures (sendThread_step V s) (\<lambda>s'. m_owner s' = m_owner s)"
  using send_front_ok [OF node_invD(1) [OF inv], of V, THEN keeps_owner]
  unfolding sendThread_step_def by (auto split: send_pc.split)

lemma connectThread_owner:
  assumes inv: "node_inv s" and V: "names_defined V"
  shows "ensures (connectThread_step V T s) (\<lambda>s'. m_owner s' = m_owner s)"
proof (cases "m_connectThread s")
  case (C_For i n)
  have "ensures (begin_connect i n s) (\<lambda>s'. m_owner s' = m_owner s)" if "i < n"
  proof -
    have "m_potential_peers s \<noteq> []" using node_invD(2) [OF inv] C_For that by auto
    from begin_connect_ok [OF node_invD(1) [OF inv] node_invD(4) [OF inv] this, of i n]
    show ?thesis using C_For by (auto elim!: ensures_mono dest: control_owner)
  qed
  then show ?thesis by (simp add: connectThread_step_def C_For)
next
  case (C_Try i n a ip port elapsed)
  have "ensures (try_connect V T a ip port elapsed s) (\<lambda>(x, s'). m_owner s' = m_owner s)"
    by (rule ensures_mono [OF try_connect_ok [OF node_invD(1) [OF inv]]])
      (auto simp: C_Try dest: sameD(2))
  then show ?thesis
    unfolding connectThread_step_def C_Try connect_pc.case
    by (simp add: split_beta case_prod_unfold)
next
  case (C_Failed i n a ip port)
  then have "ensures (connect_failed V a ip port s) (\<lambda>s'. m_owner s' = m_owner s)"
    by (intro ensures_mono [OF connect_failed_ok [OF node_invD(1) [OF inv]]])
      (auto dest: control_owner)
  with C_Failed show ?thesis by (simp add: connectThread_step_def)
next
  case (C_Connected i n a)
  then have "ensures (connect_done V a s) (\<lambda>(pr, s'). m_owner s' = m_owner s)"
    by (intro ensures_mono [OF connect_done_ok [OF node_invD(1) [OF inv] _ V]])
      (auto dest: control_owner)
  then have "ensures (do { (pr, s) \<leftarrow> connect_done V a s;
      Some (s\<lparr>m_connectThread := C_Notify i n pr\<rparr>) }) (\<lambda>s'. m_owner s' = m_owner s)"
    by (rule ensures_bindI2) simp
  with C_Connected show ?thesis by (simp add: connectThread_step_def)
next
  case (C_Notify i n pr)
  then show ?thesis
    by (simp add: connectThread_step_def connect_notify_def fire_def emit_def split: option.split)
next
  case C_Pop
  then have "m_potential_peers s \<noteq> []" using node_invD(2) [OF inv] by auto
  then show ?thesis
    by (cases "m_potential_peers s") (simp_all add: connectThread_step_def C_Pop pop_potential_peer_def)
qed (simp_all add: connectThread_step_def Let_def)

lemma background_keeps:
  assumes "background V T s s'" and V: "names_defined V" and r: "reachable V T s"
  shows "reachable V T s' \<and> m_owner s' = m_owner s"
proof -
  note inv = reachable_inv [OF r V]
  have "m_owner s' = m_owner s"
    using assms(1)
  proof cases
    case bg_listen
    with listenThread_owner [OF inv _ V] show ?thesis by simp
  next
    case bg_connect
    with connectThread_owner [OF inv V, of T] show ?thesis by simp
  next
    case bg_send
    with sendThread_owner [OF inv, of V] show ?thesis by simp
  qed simp_all
  moreover have "node_step V T s s'"
    using assms(1) by cases (auto intro: node_step.intros)
  ultimately show ?thesis using reachable.step [OF r] by blast
qed

lemma move_node_frame:
  "move_node n d = Some d' \<Longrightarrow> demo_node d' = n \<and> demo_frame d d'"
  by (auto simp: move_node_def demo_frame_def bind_eq_Some_conv)

lemma TcpNode_dtor_ok:
  assumes r: "reachable V T s" and V: "names_defined V" and own: "m_owner s \<noteq> O_Destroyed"
  shows "ensures (TcpNode_dtor V (Some s)) (\<lambda>n. \<forall>s'. n = Some s' \<longrightarrow>
    reachable V T s' \<and> m_owner s' \<noteq> O_Destroyed)"
proof (cases "m_owner s")
  case O_Running
  with reachable.step [OF r dtor_begin_step] show ?thesis
    by (simp add: TcpNode_dtor_def dtor_begin_def)
next
  case O_JoinConnect
  with r reachable.step [OF r dtor_send_step] show ?thesis
    by (simp add: TcpNode_dtor_def dtor_send_def)
next
  case O_JoinSend
  with r reachable.step [OF r dtor_listen_step] show ?thesis
    by (simp add: TcpNode_dtor_def dtor_listen_def)
next
  case O_JoinListen
  have "listen_stopped s \<Longrightarrow> dtor_end V s \<noteq> None"
    using ensures_defined [OF dtor_end_ok [OF reachable_inv [OF r V] O_JoinListen]] .
  with r O_JoinListen show ?thesis by (auto simp: TcpNode_dtor_def)
qed (use own in simp)

lemma demo_step_inv:
  assumes "demo_step V T d d'" and V: "names_defined V" and inv: "demo_inv V T d"
  shows "demo_inv V T d'"
  using assms(1)
proof cases
  case (demo_background s s')
  then have d': "demo_node d' = Some s'" "main_pc d' = main_pc d"
    using move_node_frame by (fastforce simp: demo_frame_def)+
  show ?thesis
    using inv demo_background(1) background_keeps [OF demo_background(2) V] d'
    by (auto simp: demo_inv_def demo_ok_def split: main_pc.splits)
next
  case demo_iterate
  obtain c "is" where g: "getline (cin d) (command d) = (c, is)" by fastforce
  have "demo_ok V T d" using inv demo_iterate by (simp add: demo_inv_def)
  from iteration_ok [OF this V g] demo_iterate show ?thesis
    by (simp add: demo_inv_def demo_frame_def)
next
  case (demo_destroy s n)
  with inv TcpNode_dtor_ok [OF _ V, of T s] show ?thesis by (simp add: demo_inv_def)
qed (use inv in \<open>auto simp: demo_inv_def demo_ok_def print_out_def\<close>)

section \<open>Runs of the program\<close>

inductive demo_reachable ::
  "('s, 'w) ISocket \<Rightarrow> (int \<Rightarrow> 'w \<Rightarrow> int \<times> 'w) \<Rightarrow> ('s, 'w) demo \<Rightarrow> bool"
  for V :: "('s, 'w) ISocket" and T :: "int \<Rightarrow> 'w \<Rightarrow> int \<times> 'w" where
  started: "initial s \<Longrightarrow> demo_start argv0 is (Some s) = Some d \<Longrightarrow> demo_reachable V T d"
| stepped: "demo_reachable V T d \<Longrightarrow> demo_step V T d d' \<Longrightarrow> demo_reachable V T d'"

lemma usable_bind:
  assumes "on_private (api V c) n \<bind> k = Some r" and "usable_node V T n" and "api_allowed c"
  obtains n' where "usable_node V T n'" and "k n' = Some r"
  using assms(1) node_api.service_usable [OF assms(2,3)] that by (auto simp: bind_eq_Some_conv)

lemma demo_setup_usable:
  assumes "demo_setup n = Some n'" and "usable_node V T n"
  shows "usable_node V T n'"
  using assms unfolding demo_setup_def TcpNode_calls [where V = V]
  by - ((erule usable_bind, assumption, simp)+, erule (1) node_api.service_usable [rotated 2]; simp)

lemma demo_start_ok:
  assumes "initial s" and "demo_start argv0 is (Some s) = Some d" and V: "names_defined V"
  shows "demo_inv V T d" and "\<not> exit_program d" and "main_pc d = M_Loop"
proof -
  have "m_owner s = O_Running"
    using assms(1) by (auto simp: initial_def TcpNodePrivate_new_def
        create_socket_def new_object_def Let_def split: prod.splits option.splits)
  then have r: "usable_node V T (Some s)"
    using reachable.init [OF assms(1), of V T] V by (simp add: usable_node_def)
  obtain n where n: "demo_setup (Some s) = Some n"
    and d: "demo_node d = n" "main_pc d = M_Loop" "\<not> exit_program d"
    using assms(2) by (auto simp: demo_start_def listCommands_def Let_def bind_eq_Some_conv
        split: if_splits)
  note demo_setup_usable [OF n r]
  with d show "demo_inv V T d" "\<not> exit_program d" "main_pc d = M_Loop"
    by (auto simp: demo_inv_def demo_ok_def usable_node_def)
qed

lemma demo_reachable_inv: "demo_reachable V T d \<Longrightarrow> names_defined V \<Longrightarrow> demo_inv V T d"
  by (induction rule: demo_reachable.induct) (auto intro: demo_start_ok demo_step_inv)

text \<open>Once the input has ended, the line that was read last stays, and no step reads another.\<close>

definition input_ended :: "('s, 'w) demo \<Rightarrow> bool" where
  "input_ended d \<longleftrightarrow> eofbit (cin d) \<or> failbit (cin d)"

definition stuck_on :: "string \<Rightarrow> ('s, 'w) demo \<Rightarrow> bool" where
  "stuck_on line d \<longleftrightarrow> input_ended d \<and> command d = line \<and> main_pc d = M_Loop \<and> \<not> exit_program d"

lemma stuck_step:
  assumes "demo_step V T d d'" and V: "names_defined V" and inv: "demo_inv V T d"
    and stuck: "stuck_on line d" and line: "\<not> is_exit line"
  shows "stuck_on line d'"
  using assms(1)
proof cases
  case (demo_background s s')
  from move_node_frame [OF demo_background(3)] stuck show ?thesis
    by (simp add: stuck_on_def input_ended_def demo_frame_def)
next
  case demo_iterate
  have "getline (cin d) (command d) = (line, (cin d)\<lparr>failbit := True\<rparr>)"
    using stuck by (auto simp: getline_def stuck_on_def input_ended_def)
  moreover have "demo_ok V T d" using inv demo_iterate by (simp add: demo_inv_def)
  ultimately show ?thesis
    using iteration_ok [OF _ V, of T d] demo_iterate stuck line
    by (fastforce simp: stuck_on_def input_ended_def demo_frame_def)
qed (use stuck in \<open>auto simp: stuck_on_def\<close>)

lemma stuck_steps:
  assumes "(demo_step V T)\<^sup>*\<^sup>* d d'" and V: "names_defined V" and "demo_inv V T d"
    and "stuck_on line d" and line: "\<not> is_exit line"
  shows "stuck_on line d'"
proof -
  have "demo_inv V T d' \<and> stuck_on line d'"
    using assms(1)
  proof (induction rule: rtranclp_induct)
    case (step y z)
    then show ?case using demo_step_inv [OF _ V] stuck_step [OF _ V _ _ line] by blast
  qed (use assms in simp)
  then show ?thesis by simp
qed

section \<open>The text that is sent\<close>

lemma data_to_send_join: "data_to_send ts = join_with (CHR '' '') (drop 2 ts)"
  by (simp add: data_to_send_def join_with_def)

lemma drop_tokens_plain:
  "\<forall>t\<in>set (drop n (tokenize line '' '')). plain_token (\<lambda>c. c = CHR '' '') t"
proof
  fix t assume "t \<in> set (drop n (tokenize line '' ''))"
  then have "t \<in> set (tokenize line '' '')" by (rule in_set_dropD)
  from tokenize_plain [OF this] show "plain_token (\<lambda>c. c = CHR '' '') t" by (simp add: c_str_def)
qed

lemma data_to_send_tokens:
  "tokenize (data_to_send (tokenize line '' '')) '' '' = drop 2 (tokenize line '' '')"
  unfolding data_to_send_join by (rule tokenize_join [OF drop_tokens_plain]) simp

lemma data_to_send_plain:
  "c \<in> set (data_to_send (tokenize line '' '')) \<Longrightarrow> c \<noteq> CHR 0x00"
proof -
  assume "c \<in> set (data_to_send (tokenize line '' ''))"
  moreover have "c_str (data_to_send (tokenize line '' '')) = data_to_send (tokenize line '' '')"
    unfolding data_to_send_join by (rule c_str_join [OF _ drop_tokens_plain]) simp
  ultimately show ?thesis using c_str_nonzero by metis
qed

lemma stringToBytes_zero: "0 \<in> set (stringToBytes s) \<Longrightarrow> CHR 0x00 \<in> set s"
proof -
  assume "0 \<in> set (stringToBytes s)"
  moreover have "char_of (uint (0 :: u8)) = CHR 0x00" by code_simp
  ultimately have "CHR 0x00 \<in> set (bytesToString (stringToBytes s))"
    by (force simp: bytesToString_def image_iff)
  then show ?thesis by (simp add: bytes_round_trip)
qed

section \<open>A program on the loopback system\<close>

definition loop_demo :: "string \<Rightarrow> (socket, lw) demo option" where
  "loop_demo input =
     demo_start ''./demo'' \<lparr>chars = input, eofbit = False, failbit = False\<rparr> (Some loop_node)"

lemma loop_demo_reachable: "loop_demo input = Some d \<Longrightarrow> demo_reachable loop_vt loop_clock d"
  unfolding loop_demo_def by (rule demo_reachable.started [OF loop_initial])

end
