(* ===== verification/Winsock.thy ===== *)
theory Winsock
  imports Posix
begin

text \<open>
  The operating system on Windows, as the \<^verbatim>\<open>_WIN32\<close> branches of \<^verbatim>\<open>src/Socket.cpp\<close> see it: a
  record of the Winsock calls over an abstract world type \<open>'w\<close>, and what is documented of them.
  A \<open>SOCKET\<close> is an unsigned 64-bit handle; the code keeps it in an \<open>int\<close>.
\<close>

section \<open>Constants and types of the system headers\<close>

abbreviation (input) WIN_AF_INET6 :: int where "WIN_AF_INET6 \<equiv> 23"
abbreviation (input) SOCKET_ERROR :: int where "SOCKET_ERROR \<equiv> -1"
abbreviation (input) WSAEWOULDBLOCK :: int where "WSAEWOULDBLOCK \<equiv> 10035"
abbreviation (input) WSAEINPROGRESS :: int where "WSAEINPROGRESS \<equiv> 10036"
abbreviation (input) WSAEISCONN :: int where "WSAEISCONN \<equiv> 10056"
abbreviation (input) WSATRY_AGAIN :: int where "WSATRY_AGAIN \<equiv> 11002"

type_synonym SOCKET = u64

definition INVALID_SOCKET :: SOCKET where
  "INVALID_SOCKET = - 1"

text \<open>The conversion of a handle to \<open>int\<close> keeps its lower half; the one back extends the sign.\<close>

definition int_of_SOCKET :: "SOCKET \<Rightarrow> int" where
  "int_of_SOCKET h = sint (ucast h :: u32)"

definition SOCKET_of_int :: "int \<Rightarrow> SOCKET" where
  "SOCKET_of_int fd = word_of_int fd"

section \<open>The system calls\<close>

text \<open>
  \<open>win_getpeername h n\<close> returns its result, the bytes it stored in a buffer of \<open>n\<close> bytes and the
  length it reports; \<open>win_recv h n\<close> its result and the bytes stored; \<open>win_getsockopt_error\<close> its
  result and \<open>SO_ERROR\<close>; \<open>win_FormatMessage e n\<close> the text left in a buffer of \<open>n\<close> characters.
\<close>

record 'w WinSys =
  win_WSAGetLastError :: "'w \<Rightarrow> int"
  win_WSAStartup :: "'w \<Rightarrow> 'w"
  win_WSACleanup :: "'w \<Rightarrow> 'w"
  win_closesocket :: "SOCKET \<Rightarrow> 'w \<Rightarrow> 'w"
  win_ioctlsocket_FIONBIO :: "SOCKET \<Rightarrow> int \<Rightarrow> 'w \<Rightarrow> int \<times> 'w"
  win_getaddrinfo :: "string option \<Rightarrow> string \<Rightarrow> AddrHints \<Rightarrow> 'w \<Rightarrow> (int \<times> AddrInfo list) \<times> 'w"
  win_freeaddrinfo :: "AddrInfo list \<Rightarrow> 'w \<Rightarrow> 'w"
  win_socket :: "int \<Rightarrow> int \<Rightarrow> int \<Rightarrow> 'w \<Rightarrow> SOCKET \<times> 'w"
  win_setsockopt_reuseaddr :: "SOCKET \<Rightarrow> int \<Rightarrow> 'w \<Rightarrow> int \<times> 'w"
  win_bind :: "SOCKET \<Rightarrow> bytes \<Rightarrow> 'w \<Rightarrow> int \<times> 'w"
  win_listen :: "SOCKET \<Rightarrow> int \<Rightarrow> 'w \<Rightarrow> int \<times> 'w"
  win_connect :: "SOCKET \<Rightarrow> bytes \<Rightarrow> 'w \<Rightarrow> int \<times> 'w"
  win_getsockopt_error :: "SOCKET \<Rightarrow> 'w \<Rightarrow> (int \<times> int) \<times> 'w"
  win_accept :: "SOCKET \<Rightarrow> 'w \<Rightarrow> SOCKET \<times> 'w"
  win_recv :: "SOCKET \<Rightarrow> int \<Rightarrow> 'w \<Rightarrow> (int \<times> bytes) \<times> 'w"
  win_send :: "SOCKET \<Rightarrow> bytes \<Rightarrow> int \<Rightarrow> 'w \<Rightarrow> int \<times> 'w"
  win_getpeername :: "SOCKET \<Rightarrow> nat \<Rightarrow> 'w \<Rightarrow> (int \<times> bytes \<times> nat) \<times> 'w"
  win_inet_ntop :: "int \<Rightarrow> bytes \<Rightarrow> string"
  win_getnameinfo :: "bytes \<Rightarrow> 'w \<Rightarrow> (int \<times> string) \<times> 'w"
  win_gethostname :: "nat \<Rightarrow> 'w \<Rightarrow> (int \<times> string) \<times> 'w"
  win_FormatMessage :: "int \<Rightarrow> nat \<Rightarrow> string"
  win_Sleep :: "int \<Rightarrow> 'w \<Rightarrow> 'w"

section \<open>Documented behaviour, as hypotheses\<close>

text \<open>
  Handle accounting: \<open>hs w\<close> is the set of open handles. \<open>socket\<close> and \<open>accept\<close> return
  \<open>INVALID_SOCKET\<close> or open a handle that was not open; a handle survives the truncation to 32
  bits and the sign extension back. \<open>closesocket\<close> closes its argument, and the calls \<open>connect\<close>
  and \<open>listen\<close> make on an open handle open and close nothing.
\<close>

definition opens_handle :: "('w \<Rightarrow> SOCKET set) \<Rightarrow> 'w \<Rightarrow> SOCKET \<times> 'w \<Rightarrow> bool" where
  "opens_handle hs w r \<longleftrightarrow>
     (fst r = INVALID_SOCKET \<and> hs (snd r) = hs w) \<or>
     (fst r \<noteq> INVALID_SOCKET \<and> SOCKET_of_int (int_of_SOCKET (fst r)) = fst r \<and>
      fst r \<notin> hs w \<and> hs (snd r) = insert (fst r) (hs w))"

definition win_handles :: "'w WinSys \<Rightarrow> ('w \<Rightarrow> SOCKET set) \<Rightarrow> bool" where
  "win_handles S hs \<longleftrightarrow>
     (\<forall>h w. hs (win_closesocket S h w) = hs w - {h}) \<and>
     (\<forall>f t p w. opens_handle hs w (win_socket S f t p w)) \<and>
     (\<forall>h w. opens_handle hs w (win_accept S h w)) \<and>
     (\<forall>h n w. hs (snd (win_ioctlsocket_FIONBIO S h n w)) = hs w) \<and>
     (\<forall>n s hints w. hs (snd (win_getaddrinfo S n s hints w)) = hs w) \<and>
     (\<forall>ais w. hs (win_freeaddrinfo S ais w) = hs w) \<and>
     (\<forall>h y w. hs (snd (win_setsockopt_reuseaddr S h y w)) = hs w) \<and>
     (\<forall>h a w. hs (snd (win_bind S h a w)) = hs w) \<and>
     (\<forall>h b w. hs (snd (win_listen S h b w)) = hs w) \<and>
     (\<forall>h a w. hs (snd (win_connect S h a w)) = hs w) \<and>
     (\<forall>h w. hs (snd (win_getsockopt_error S h w)) = hs w) \<and>
     (\<forall>ms w. hs (win_Sleep S ms w) = hs w)"

text \<open>\<open>ioctlsocket\<close> fails on a handle that is not open, in particular on \<open>INVALID_SOCKET\<close>.\<close>

definition win_ioctl_checks :: "'w WinSys \<Rightarrow> bool" where
  "win_ioctl_checks S \<longleftrightarrow> (\<forall>n w. fst (win_ioctlsocket_FIONBIO S INVALID_SOCKET n w) \<noteq> 0)"

text \<open>\<open>getpeername\<close> fails when the buffer is too small, and otherwise reports a length that fits.\<close>

definition win_lengths :: "'w WinSys \<Rightarrow> bool" where
  "win_lengths S \<longleftrightarrow>
     (\<forall>h n w r st len w'. win_getpeername S h n w = ((r, st, len), w') \<longrightarrow> r = 0 \<longrightarrow> len \<le> n)"

text \<open>
  \<open>WSAStartup\<close> and \<open>WSACleanup\<close> are counted by the system: \<open>startups w\<close> is the number of calls
  that are not undone yet; the other call a destructor makes does not change it.
\<close>

definition win_startups :: "'w WinSys \<Rightarrow> ('w \<Rightarrow> int) \<Rightarrow> bool" where
  "win_startups S startups \<longleftrightarrow>
     (\<forall>w. startups (win_WSAStartup S w) = startups w + 1) \<and>
     (\<forall>w. startups (win_WSACleanup S w) = startups w - 1) \<and>
     (\<forall>h w. startups (win_closesocket S h w) = startups w)"

section \<open>Handles\<close>

lemma int_of_invalid [simp]: "int_of_SOCKET INVALID_SOCKET = -1"
proof -
  have "(ucast (- 1 :: u64) :: u32) = - 1" by code_simp
  then show ?thesis by (simp add: int_of_SOCKET_def INVALID_SOCKET_def)
qed

lemma SOCKET_of_invalid [simp]: "SOCKET_of_int (-1) = INVALID_SOCKET"
  by (simp add: SOCKET_of_int_def INVALID_SOCKET_def)

text \<open>A handle that survives the conversions is invalid exactly when the \<open>int\<close> is \<open>-1\<close>.\<close>

lemma handle_valid:
  "SOCKET_of_int (int_of_SOCKET h) = h \<Longrightarrow> int_of_SOCKET h = -1 \<longleftrightarrow> h = INVALID_SOCKET"
  by (metis SOCKET_of_invalid int_of_invalid)

end
