(* ===== verification/SocketWin.thy ===== *)
theory SocketWin
  imports SocketProps Winsock
begin

text \<open>
  The class \<open>spw::Socket\<close> in its Windows build: the \<^verbatim>\<open>_WIN32\<close> branches of \<^verbatim>\<open>src/Socket.cpp\<close> with
  the code they share with the Linux build. The object is the same record. The static member
  \<open>m_socket_counter\<close> is kept beside the operating system in the world; a constructor and a
  destructor count there, and switch Winsock on and off.
\<close>

section \<open>The static member\<close>

record 'w winworld =
  win_os :: 'w
  m_socket_counter :: u64

text \<open>A call of the operating system, in the world with the static member.\<close>

definition on_os :: "('w \<Rightarrow> 'a \<times> 'w) \<Rightarrow> 'w winworld \<Rightarrow> 'a \<times> 'w winworld" where
  "on_os f w = (let (x, os) = f (win_os w) in (x, w\<lparr>win_os := os\<rparr>))"

definition winsockInit :: "'w WinSys \<Rightarrow> 'w winworld \<Rightarrow> 'w winworld" where
  "winsockInit S w = w\<lparr>win_os := win_WSAStartup S (win_os w)\<rparr>"

definition winsockDeInit :: "'w WinSys \<Rightarrow> 'w winworld \<Rightarrow> 'w winworld" where
  "winsockDeInit S w = w\<lparr>win_os := win_WSACleanup S (win_os w)\<rparr>"

section \<open>Operations\<close>

definition Win_closeSocket :: "'w WinSys \<Rightarrow> int \<Rightarrow> 'w \<Rightarrow> 'w" where
  "Win_closeSocket S sockfd w = win_closesocket S (SOCKET_of_int sockfd) w"

definition Win_setNonBlocking :: "'w WinSys \<Rightarrow> int \<Rightarrow> 'w \<Rightarrow> bool \<times> 'w" where
  "Win_setNonBlocking S sockfd w =
     (let (r, w) = win_ioctlsocket_FIONBIO S (SOCKET_of_int sockfd) 1 w in (r = 0, w))"

definition WinSocket_setErrno :: "'w WinSys \<Rightarrow> 'w \<Rightarrow> socket \<Rightarrow> socket" where
  "WinSocket_setErrno S w so = so\<lparr>m_last_errno := win_WSAGetLastError S w\<rparr>"

definition WinSocket_getLastErrnoString :: "'w WinSys \<Rightarrow> socket \<Rightarrow> string \<times> socket" where
  "WinSocket_getLastErrnoString S so =
     (let (lasterrno, so) = Socket_getLastErrno so
      in if lasterrno \<noteq> 0 then (win_FormatMessage S lasterrno 256, so) else ([], so))"

definition WinSocket_close :: "'w WinSys \<Rightarrow> socket \<Rightarrow> 'w \<Rightarrow> socket \<times> 'w" where
  "WinSocket_close S so w =
     (let so = so\<lparr>m_is_connected := False, m_is_listening := False, m_is_listener := False\<rparr>;
          w = Win_closeSocket S (m_socket_fd so) w
      in (so\<lparr>m_socket_fd := -1\<rparr>, w))"

text \<open>The constructor and the destructor, with the counter of the living objects.\<close>

definition WinSocket_ctor :: "'w WinSys \<Rightarrow> 'w winworld \<Rightarrow> socket \<times> 'w winworld" where
  "WinSocket_ctor S w =
     (let w = (if m_socket_counter w = 0 then winsockInit S w else w)
      in (Socket_new, w\<lparr>m_socket_counter := m_socket_counter w + 1\<rparr>))"

definition WinSocket_dtor :: "'w WinSys \<Rightarrow> socket \<Rightarrow> 'w winworld \<Rightarrow> 'w winworld" where
  "WinSocket_dtor S so w =
     (let (_, w) = on_os (WinSocket_close S so) w;
          w = (if m_socket_counter w = 1 then winsockDeInit S w else w)
      in w\<lparr>m_socket_counter := m_socket_counter w - 1\<rparr>)"

definition Win_listen_prepare :: "'w WinSys \<Rightarrow> int \<Rightarrow> AddrInfo \<Rightarrow> 'w \<Rightarrow> bool \<times> 'w" where
  "Win_listen_prepare S fd ai w =
     (let h = SOCKET_of_int fd; (r1, w) = win_setsockopt_reuseaddr S h 1 w
      in if r1 \<noteq> 0 then (False, w)
         else let (r2, w) = win_bind S h (ai_addr ai) w
              in if r2 \<noteq> 0 then (False, w)
                 else let (r3, w) = win_listen S h 20 w in (r3 = 0, w))"

fun Win_listen_loop ::
  "'w WinSys \<Rightarrow> u16 \<Rightarrow> AddrInfo list \<Rightarrow> socket \<Rightarrow> 'w \<Rightarrow> bool \<times> socket \<times> 'w" where
  "Win_listen_loop S port [] so w = (False, so, w)"
| "Win_listen_loop S port (ai # ais) so w =
     (let (h, w) = win_socket S (ai_family ai) (ai_socktype ai) (ai_protocol ai) w;
          fd = int_of_SOCKET h;
          so = so\<lparr>m_socket_fd := fd\<rparr>
      in if fd \<noteq> int_of_SOCKET INVALID_SOCKET
         then let (prepared, w) = Win_listen_prepare S fd ai w
              in if prepared
                 then let (nonblocking, w) = Win_setNonBlocking S fd w
                      in if nonblocking
                         then (True, so\<lparr>m_is_listener := True, m_listen_port := port\<rparr>, w)
                         else let w = Win_closeSocket S fd w
                              in Win_listen_loop S port ais (so\<lparr>m_socket_fd := -1\<rparr>) w
                 else let w = Win_closeSocket S fd w
                      in Win_listen_loop S port ais (so\<lparr>m_socket_fd := -1\<rparr>) w
         else Win_listen_loop S port ais so w)"

definition Win_listen_hints :: "IpVersion \<Rightarrow> AddrHints" where
  "Win_listen_hints ver =
     \<lparr>hint_family =
        (case ver of IPV_ANY \<Rightarrow> AF_UNSPEC | IPV4 \<Rightarrow> AF_INET | IPV6 \<Rightarrow> WIN_AF_INET6),
      hint_socktype = SOCK_STREAM, hint_flags = AI_PASSIVE\<rparr>"

definition WinSocket_listen ::
  "'w WinSys \<Rightarrow> u16 \<Rightarrow> IpVersion \<Rightarrow> socket \<Rightarrow> 'w \<Rightarrow> bool \<times> socket \<times> 'w" where
  "WinSocket_listen S port ver so w =
     (let (so, w) = WinSocket_close S so w
      in if port = 0 then (False, so, w)
         else let ((rc, ais), w) =
                    win_getaddrinfo S None (to_string_u16 port) (Win_listen_hints ver) w;
                  (success, so, w) =
                    (if rc = 0
                     then let (success, so, w) = Win_listen_loop S port ais so w
                          in (success, so, win_freeaddrinfo S ais w)
                     else (False, so, w))
              in if \<not> success then (False, WinSocket_setErrno S w so, w)
                 else (True,
                       Socket_clearErrno (so\<lparr>m_is_listener := True, m_is_listening := True\<rparr>), w))"

text \<open>
  \<open>connect\<close> on the first address: when it would block, the code sleeps, connects a second time
  and takes the attempt as done when that succeeds or reports that the socket is connected.
\<close>

definition Win_connect_first :: "'w WinSys \<Rightarrow> AddrInfo \<Rightarrow> socket \<Rightarrow> 'w \<Rightarrow> bool \<times> socket \<times> 'w" where
  "Win_connect_first S ai so w =
     (let (s, w) = win_socket S (ai_family ai) (ai_socktype ai) (ai_protocol ai) w;
          fd = int_of_SOCKET s;
          so = so\<lparr>m_socket_fd := fd\<rparr>;
          h = SOCKET_of_int fd;
          (nonblocking, w) = Win_setNonBlocking S fd w
      in if nonblocking
         then let (conn, w) = win_connect S h (ai_addr ai) w
              in if conn = 0 then (True, so, w)
                 else if win_WSAGetLastError S w = WSAEWOULDBLOCK
                 then let w = win_Sleep S (uint (Socket_sleepTime so)) w;
                          (conn, w) = win_connect S h (ai_addr ai) w;
                          last_error = win_WSAGetLastError S w
                      in if conn = 0 \<or> last_error = WSAEISCONN
                         then let ((r, optval), w) = win_getsockopt_error S h w
                              in (r = 0 \<and> optval = 0, so, w)
                         else (False, so, w)
                 else (False, so, w)
         else (False, so, w))"

definition WinSocket_connect ::
  "'w WinSys \<Rightarrow> string \<Rightarrow> u16 \<Rightarrow> socket \<Rightarrow> 'w \<Rightarrow> bool \<times> socket \<times> 'w" where
  "WinSocket_connect S ip port so w =
     (let (so, w) = WinSocket_close S so w;
          ((rc, ais), w) = win_getaddrinfo S (Some ip) (to_string_u16 port) connect_hints w;
          (success, so, w) =
            (if rc = 0
             then (case ais of
                     [] \<Rightarrow> (False, so, w)
                   | ai # _ \<Rightarrow>
                       let (success, so, w) = Win_connect_first S ai so w
                       in (success, so, win_freeaddrinfo S ais w))
             else (False, so, w))
      in if \<not> success
         then let (so, w) = WinSocket_close S so w in (False, WinSocket_setErrno S w so, w)
         else (True, Socket_clearErrno (so\<lparr>m_is_connected := True\<rparr>), w))"

definition WinSocket_accept ::
  "'w WinSys \<Rightarrow> socket \<Rightarrow> 'w winworld \<Rightarrow> socket option \<times> socket \<times> 'w winworld" where
  "WinSocket_accept S so w =
     (if Socket_isListener so
      then let (h, w) = on_os (win_accept S (SOCKET_of_int (m_socket_fd so))) w;
               peer_socket_fd = int_of_SOCKET h
           in if peer_socket_fd \<noteq> -1
              then let (newSocket, w) = WinSocket_ctor S w;
                       (_, w) = on_os (Win_setNonBlocking S peer_socket_fd) w
                   in (Some (newSocket\<lparr>m_socket_fd := peer_socket_fd, m_is_connected := True\<rparr>),
                       so, w)
              else let so = WinSocket_setErrno S (win_os w) so;
                       (errornum, so) = Socket_getLastErrno so
                   in (None,
                       if errornum = WSAEWOULDBLOCK \<or> errornum = WSAEINPROGRESS \<or>
                          errornum = WSATRY_AGAIN
                       then Socket_clearErrno so else so,
                       w)
      else (None, so, w))"

text \<open>\<open>recv\<close> and \<open>send\<close> take the size as an \<open>int\<close>; a \<open>size_t\<close> is cut to its lower half.\<close>

definition int_of_size :: "u64 \<Rightarrow> int" where
  "int_of_size n = sint (ucast n :: u32)"

definition Win_receive_body ::
  "'w WinSys \<Rightarrow> bytes \<Rightarrow> socket \<Rightarrow> 'w \<Rightarrow> (ReceiveResult \<times> bytes) \<times> 'w" where
  "Win_receive_body S receiveData so w =
     (if Socket_isListener so then ((ERROR_IS_LISTENER, receiveData), w)
      else if \<not> Socket_isConnected so then ((ERROR_NO_CONNECTION, receiveData), w)
      else let ((recv_res, rec_data), w) =
                 win_recv S (SOCKET_of_int (m_socket_fd so))
                   (int_of_size (Socket_receiveBufferSize so)) w
           in if recv_res = SOCKET_ERROR
              then let last_err = win_WSAGetLastError S w
                   in if last_err = WSAEINPROGRESS \<or> last_err = WSAEWOULDBLOCK \<or>
                         last_err = WSATRY_AGAIN
                      then ((ERROR_NOTHING_RECEIVED, receiveData), w)
                      else ((ERROR_SYSTEM, receiveData), w)
              else if recv_res = 0 then ((ERROR_PEER_DISCONNECTED, receiveData), w)
              else ((RR_OK, take (nat recv_res) rec_data), w))"

definition WinSocket_receive ::
  "'w WinSys \<Rightarrow> bytes \<Rightarrow> socket \<Rightarrow> 'w \<Rightarrow> (ReceiveResult \<times> bytes) \<times> socket \<times> 'w" where
  "WinSocket_receive S receiveData so w =
     (let ((result, receiveData), w) = Win_receive_body S receiveData so w
      in if result = ERROR_SYSTEM
         then let (so, w) = WinSocket_close S so w
              in ((result, receiveData), WinSocket_setErrno S w so, w)
         else ((result, receiveData), Socket_clearErrno so, w))"

definition WinSocket_send :: "'w WinSys \<Rightarrow> bytes \<Rightarrow> socket \<Rightarrow> 'w \<Rightarrow> u64 \<times> socket \<times> 'w" where
  "WinSocket_send S dataToSend so w =
     (if Socket_isConnected so \<and> \<not> Socket_isListener so
      then let (bytes_sent, w) = win_send S (SOCKET_of_int (m_socket_fd so)) dataToSend
                 (int_of_size (of_nat (length dataToSend))) w
           in if 0 \<le> bytes_sent then (word_of_int bytes_sent, Socket_clearErrno so, w)
              else (0, WinSocket_setErrno S w so, w)
      else (0, so, w))"

section \<open>Peer addresses\<close>

text \<open>
  The buffer is an array of 128 bytes set to zero, so every field lies inside it and has a
  value. \<open>win_storage\<close> is the array after \<open>getpeername\<close> has stored \<open>st\<close> in it.
\<close>

definition win_storage :: "bytes \<Rightarrow> bytes" where
  "win_storage st = take 128 (st @ replicate 128 0)"

definition win_field :: "nat \<Rightarrow> nat \<Rightarrow> bytes \<Rightarrow> bytes" where
  "win_field off n storage = take n (drop off storage)"

definition win_family :: "bytes \<Rightarrow> int" where
  "win_family storage = uint (storage ! 0) + 256 * uint (storage ! 1)"

definition win_ntohs_port :: "bytes \<Rightarrow> u16" where
  "win_ntohs_port storage = word_of_int (256 * uint (storage ! 2) + uint (storage ! 3))"

definition WinSocket_peerIpAddress :: "'w WinSys \<Rightarrow> socket \<Rightarrow> 'w \<Rightarrow> (string \<times> 'w) option" where
  "WinSocket_peerIpAddress S so w =
     (if \<not> Socket_isListener so \<and> Socket_isConnected so
      then let ((r, st, len), w) = win_getpeername S (SOCKET_of_int (m_socket_fd so)) 128 w;
               storage = win_storage st
           in if r \<noteq> SOCKET_ERROR
              then Some (if win_family storage = AF_INET
                         then win_inet_ntop S AF_INET (win_field 4 4 storage)
                         else win_inet_ntop S WIN_AF_INET6 (win_field 8 16 storage), w)
              else Some ([], w)
      else Some ([], w))"

definition WinSocket_peerPort :: "'w WinSys \<Rightarrow> socket \<Rightarrow> 'w \<Rightarrow> (u16 \<times> 'w) option" where
  "WinSocket_peerPort S so w =
     (if \<not> Socket_isListener so \<and> Socket_isConnected so
      then let ((r, st, len), w) = win_getpeername S (SOCKET_of_int (m_socket_fd so)) 128 w;
               storage = win_storage st
           in if r \<noteq> SOCKET_ERROR
              then Some (if win_family storage = AF_INET then win_ntohs_port storage
                         else if win_family storage = WIN_AF_INET6 then win_ntohs_port storage
                         else 0, w)
              else Some (0, w)
      else Some (0, w))"

definition WinSocket_ownIpAddress :: "'w WinSys \<Rightarrow> socket \<Rightarrow> 'w \<Rightarrow> string \<times> 'w" where
  "WinSocket_ownIpAddress S so w =
     (let ((r, c_string), w) = win_gethostname S 100 w
      in if r \<noteq> -1 then (c_string, w) else ([], w))"

text \<open>\<open>getnameinfo\<close> is given the reported length, which must not exceed the array.\<close>

definition WinSocket_peerName :: "'w WinSys \<Rightarrow> socket \<Rightarrow> 'w \<Rightarrow> (string \<times> 'w) option" where
  "WinSocket_peerName S so w =
     (if \<not> Socket_isListener so \<and> Socket_isConnected so
      then let ((r, st, len), w) = win_getpeername S (SOCKET_of_int (m_socket_fd so)) 128 w;
               storage = win_storage st
           in if r = 0
              then if len \<le> 128
                   then let ((name_info_result, host_name), w) =
                              win_getnameinfo S (win_field 0 len storage) w
                        in Some (if name_info_result = 0 then host_name else [], w)
                   else None
              else Some ([], w)
      else Some ([], w))"

section \<open>The vtable\<close>

text \<open>A member function that does not touch the static member, in the world that has it.\<close>

definition member ::
  "(socket \<Rightarrow> 'w \<Rightarrow> 'a \<times> socket \<times> 'w) \<Rightarrow> socket \<Rightarrow> 'w winworld \<Rightarrow> 'a \<times> socket \<times> 'w winworld" where
  "member f so w = (let (x, so, os) = f so (win_os w) in (x, so, w\<lparr>win_os := os\<rparr>))"

definition query :: "('w \<Rightarrow> ('a \<times> 'w) option) \<Rightarrow> 'w winworld \<Rightarrow> ('a \<times> 'w winworld) option" where
  "query f w = map_option (\<lambda>(x, os). (x, w\<lparr>win_os := os\<rparr>)) (f (win_os w))"

definition WinSocket_vt :: "'w WinSys \<Rightarrow> (socket, 'w winworld) ISocket" where
  "WinSocket_vt S =
     \<lparr>vlisten = (\<lambda>port ver. member (WinSocket_listen S port ver)),
      vconnect = (\<lambda>ip port. member (WinSocket_connect S ip port)),
      vclose = (\<lambda>so. on_os (WinSocket_close S so)),
      vaccept = WinSocket_accept S,
      vreceive = (\<lambda>d. member (WinSocket_receive S d)),
      vsend = (\<lambda>d. member (WinSocket_send S d)),
      vsocketNumber = Socket_socketNumber,
      visListener = Socket_isListener,
      vlistenPort = Socket_listenPort,
      visConnected = Socket_isConnected,
      visListening = Socket_isListening,
      vpeerIpAddress = (\<lambda>so. query (WinSocket_peerIpAddress S so)),
      vpeerPort = (\<lambda>so. query (WinSocket_peerPort S so)),
      vownIpAddress = (\<lambda>so. on_os (WinSocket_ownIpAddress S so)),
      vpeerName = (\<lambda>so. query (WinSocket_peerName S so)),
      vsetReceiveBufferSize = Socket_setReceiveBufferSize,
      vreceiveBufferSize = Socket_receiveBufferSize,
      vsetSleepTime = Socket_setSleepTime,
      vsleepTime = Socket_sleepTime,
      vgetLastErrno = Socket_getLastErrno,
      vgetLastErrnoString = WinSocket_getLastErrnoString S,
      vdestroy = WinSocket_dtor S\<rparr>"

text \<open>\<open>TcpNodePrivate::defaultNewSocket\<close> in the Windows build.\<close>

definition win_defaultNewSocket :: "'w WinSys \<Rightarrow> 'w winworld \<Rightarrow> socket option \<times> 'w winworld" where
  "win_defaultNewSocket S w = (let (so, w) = WinSocket_ctor S w in (Some so, w))"

end
