(* ===== verification/SocketWinProps.thy ===== *)
theory SocketWinProps
  imports SocketWin NodeInv
begin

text \<open>
  Correctness of \<open>spw::Socket\<close> in its Windows build: the flag invariant and the contracts of
  \<^verbatim>\<open>ISocket\<close>, handle accounting without leaks, addresses that are always defined, and the life
  time of Winsock, which the static counter controls as long as one thread at a time changes it.
\<close>

section \<open>Flags\<close>

lemma WinSocket_close_eq:
  "WinSocket_close S so w =
     (so\<lparr>m_is_connected := False, m_is_listening := False, m_is_listener := False,
         m_socket_fd := -1\<rparr>, win_closesocket S (SOCKET_of_int (m_socket_fd so)) w)"
  by (simp add: WinSocket_close_def Win_closeSocket_def Let_def)

lemmas win_errno_defs = WinSocket_setErrno_def Socket_clearErrno_def Socket_getLastErrno_def

lemma Win_listen_loop_frame:
  "Win_listen_loop S port ais so w = (b, so', w') \<Longrightarrow>
     m_is_connected so' = m_is_connected so \<and> m_is_listening so' = m_is_listening so \<and>
     m_receive_buffer_size so' = m_receive_buffer_size so \<and>
     (if b then m_is_listener so' \<and> m_socket_fd so' \<noteq> -1 \<and> m_listen_port so' = port
      else m_is_listener so' = m_is_listener so \<and> m_listen_port so' = m_listen_port so)"
proof (induction ais arbitrary: so w)
  case Nil
  then show ?case by simp
next
  case (Cons ai ais)
  from Cons.prems show ?case
    by (auto simp: Let_def split: prod.splits if_splits dest!: Cons.IH)
qed

lemma WinSocket_listen_flags:
  assumes "WinSocket_listen S port ver so w = (b, so', w')"
  shows "m_is_listener so' = b" and "m_is_listening so' = b" and "\<not> m_is_connected so'"
    and "b \<Longrightarrow> m_listen_port so' = port \<and> m_socket_fd so' \<noteq> -1"
    and "m_receive_buffer_size so' = m_receive_buffer_size so"
  using assms
  by (auto simp: WinSocket_listen_def WinSocket_close_eq Let_def win_errno_defs
      split: prod.splits if_splits dest!: Win_listen_loop_frame)

lemma Win_setNonBlocking_fd:
  assumes S: "win_ioctl_checks S" and n: "Win_setNonBlocking S fd w = (True, w')"
  shows "fd \<noteq> -1"
proof
  assume "fd = -1"
  with n have "fst (win_ioctlsocket_FIONBIO S INVALID_SOCKET 1 w) = 0"
    by (simp add: Win_setNonBlocking_def Let_def split_beta)
  with S show False by (simp add: win_ioctl_checks_def)
qed

lemma Win_connect_first_frame:
  "Win_connect_first S ai so w = (b, so', w') \<Longrightarrow>
     m_is_connected so' = m_is_connected so \<and> m_is_listening so' = m_is_listening so \<and>
     m_is_listener so' = m_is_listener so \<and>
     m_receive_buffer_size so' = m_receive_buffer_size so \<and>
     (win_ioctl_checks S \<longrightarrow> b \<longrightarrow> m_socket_fd so' \<noteq> -1)"
  by (auto simp: Win_connect_first_def Let_def split: prod.splits if_splits
      dest: Win_setNonBlocking_fd)

lemma WinSocket_connect_flags:
  assumes "WinSocket_connect S ip port so w = (b, so', w')"
  shows "m_is_connected so' = b" and "\<not> m_is_listener so'" and "\<not> m_is_listening so'"
    and "m_receive_buffer_size so' = m_receive_buffer_size so"
    and "win_ioctl_checks S \<Longrightarrow> b \<Longrightarrow> m_socket_fd so' \<noteq> -1" and "\<not> b \<Longrightarrow> m_socket_fd so' = -1"
  using assms
  by (auto simp: WinSocket_connect_def WinSocket_close_eq Let_def win_errno_defs
      split: prod.splits if_splits list.splits dest!: Win_connect_first_frame)

lemma WinSocket_accept_cases:
  assumes "WinSocket_accept S so w = (r, so', w')"
  shows "so' = so \<and> (\<forall>n. r = Some n \<longrightarrow> m_is_listener so \<and>
           (\<exists>fd. fd \<noteq> -1 \<and> n = Socket_new\<lparr>m_socket_fd := fd, m_is_connected := True\<rparr>)) \<and>
           (r = None \<longrightarrow> \<not> m_is_listener so) \<or>
         r = None \<and> m_is_listener so \<and> so' = so\<lparr>m_last_errno := 0\<rparr>"
  using assms
  by (auto simp: WinSocket_accept_def WinSocket_ctor_def Let_def win_errno_defs
      split: prod.splits if_splits)

section \<open>The contracts of ISocket\<close>

text \<open>The invariant of an object that holds without assumptions on the system.\<close>

definition flags_ok :: "socket \<Rightarrow> bool" where
  "flags_ok so \<longleftrightarrow>
     m_is_listening so = m_is_listener so \<and> \<not> (m_is_connected so \<and> m_is_listener so)"

lemma win_vt_simps [simp]:
  "vlisten (WinSocket_vt S) = (\<lambda>port ver. member (WinSocket_listen S port ver))"
  "vconnect (WinSocket_vt S) = (\<lambda>ip port. member (WinSocket_connect S ip port))"
  "vclose (WinSocket_vt S) = (\<lambda>so. on_os (WinSocket_close S so))"
  "vaccept (WinSocket_vt S) = WinSocket_accept S"
  "vreceive (WinSocket_vt S) = (\<lambda>d. member (WinSocket_receive S d))"
  "visListener (WinSocket_vt S) = m_is_listener" "vlistenPort (WinSocket_vt S) = m_listen_port"
  "visConnected (WinSocket_vt S) = m_is_connected" "visListening (WinSocket_vt S) = m_is_listening"
  "vpeerIpAddress (WinSocket_vt S) = (\<lambda>so. query (WinSocket_peerIpAddress S so))"
  "vpeerPort (WinSocket_vt S) = (\<lambda>so. query (WinSocket_peerPort S so))"
  "vpeerName (WinSocket_vt S) = (\<lambda>so. query (WinSocket_peerName S so))"
  "vreceiveBufferSize (WinSocket_vt S) = m_receive_buffer_size"
  "vgetLastErrno (WinSocket_vt S) = Socket_getLastErrno"
  "vgetLastErrnoString (WinSocket_vt S) = WinSocket_getLastErrnoString S"
  "vdestroy (WinSocket_vt S) = WinSocket_dtor S"
  by (simp_all add: WinSocket_vt_def fun_eq_iff)

lemma member_eq: "member f so w = (x, so', w') \<longleftrightarrow>
    (\<exists>os. f so (win_os w) = (x, so', os) \<and> w' = w\<lparr>win_os := os\<rparr>)"
  by (auto simp: member_def Let_def split: prod.splits)

lemma on_os_eq: "on_os f w = (x, w') \<longleftrightarrow> (\<exists>os. f (win_os w) = (x, os) \<and> w' = w\<lparr>win_os := os\<rparr>)"
  by (auto simp: on_os_def Let_def split: prod.splits)

interpretation win_socket:
  stream_socket "WinSocket_vt S" m_last_errno "\<lambda>e. win_FormatMessage S e 256" flags_ok
    SPW_DEF_RECBUF_SIZE
  for S :: "'w WinSys"
proof unfold_locales
  fix so so' n :: socket and w w' :: "'w winworld" and b :: bool and ver p ip d r
  show "fst (vgetLastErrno (WinSocket_vt S) so) = m_last_errno so"
    "m_last_errno (snd (vgetLastErrno (WinSocket_vt S) so)) = 0"
    "fst (vgetLastErrnoString (WinSocket_vt S) so) =
       (if m_last_errno so = 0 then [] else win_FormatMessage S (m_last_errno so) 256)"
    "m_last_errno (snd (vgetLastErrnoString (WinSocket_vt S) so)) = 0"
    by (simp_all add: Socket_getLastErrno_def WinSocket_getLastErrnoString_def Let_def)
  show "flags_ok so' \<and> \<not> visConnected (WinSocket_vt S) so' \<and> \<not> visListener (WinSocket_vt S) so' \<and>
      \<not> visListening (WinSocket_vt S) so'"
    if "vclose (WinSocket_vt S) so w = (so', w')"
    using that by (auto simp: WinSocket_close_eq flags_ok_def on_os_eq)
  show "flags_ok so' \<and> visListener (WinSocket_vt S) so' \<and> visListening (WinSocket_vt S) so' \<and>
      vlistenPort (WinSocket_vt S) so' = p \<and> \<not> visConnected (WinSocket_vt S) so'"
    if "vlisten (WinSocket_vt S) p ver so w = (True, so', w')"
    using WinSocket_listen_flags [of S p ver so "win_os w" True so'] that
    by (auto simp: flags_ok_def member_eq)
  show "flags_ok so' \<and> \<not> visListener (WinSocket_vt S) so' \<and> \<not> visListening (WinSocket_vt S) so' \<and>
      \<not> visConnected (WinSocket_vt S) so'"
    if "vlisten (WinSocket_vt S) p ver so w = (False, so', w')"
    using WinSocket_listen_flags [of S p ver so "win_os w" False so'] that
    by (auto simp: flags_ok_def member_eq)
  show "flags_ok so' \<and> visConnected (WinSocket_vt S) so' = b \<and>
      \<not> visListener (WinSocket_vt S) so' \<and> \<not> visListening (WinSocket_vt S) so' \<and>
      vreceiveBufferSize (WinSocket_vt S) so' = vreceiveBufferSize (WinSocket_vt S) so"
    if "vconnect (WinSocket_vt S) ip p so w = (b, so', w')"
    using WinSocket_connect_flags [of S ip p so "win_os w" b so'] that
    by (auto simp: flags_ok_def member_eq)
  show "flags_ok n \<and> visConnected (WinSocket_vt S) n \<and> \<not> visListener (WinSocket_vt S) n \<and>
      vreceiveBufferSize (WinSocket_vt S) n = SPW_DEF_RECBUF_SIZE"
    if "vaccept (WinSocket_vt S) so w = (Some n, so', w')"
    using WinSocket_accept_cases [of S so w "Some n" so' w'] that
    by (auto simp: flags_ok_def Socket_new_def socket.defs)
  show "visListener (WinSocket_vt S) so' = visListener (WinSocket_vt S) so \<and>
      visListening (WinSocket_vt S) so' = visListening (WinSocket_vt S) so \<and>
      (flags_ok so \<longrightarrow> flags_ok so')"
    if "vaccept (WinSocket_vt S) so w = (r, so', w')"
    using WinSocket_accept_cases [of S so w r so' w'] that by (auto simp: flags_ok_def)
  show "m_last_errno so' = 0"
    if "vaccept (WinSocket_vt S) so w = (None, so', w')" "visListener (WinSocket_vt S) so"
    using WinSocket_accept_cases [of S so w None so' w'] that by auto
  show "fst (fst (vreceive (WinSocket_vt S) d so w)) = ERROR_IS_LISTENER"
    if "visListener (WinSocket_vt S) so"
    using that by (simp add: WinSocket_receive_def Win_receive_body_def member_def Let_def)
  show "fst (fst (vreceive (WinSocket_vt S) d so w)) = ERROR_NO_CONNECTION"
    if "\<not> visListener (WinSocket_vt S) so" "\<not> visConnected (WinSocket_vt S) so"
    using that by (simp add: WinSocket_receive_def Win_receive_body_def member_def Let_def)
  show "\<not> (visConnected (WinSocket_vt S) so \<and> visListener (WinSocket_vt S) so)" if "flags_ok so"
    using that by (auto simp: flags_ok_def)
qed

text \<open>With the descriptor: an object that listens or is connected holds one.\<close>

lemma WinSocket_receive_ok:
  "WinSocket_receive S rd so w = ((r, d), so', w') \<Longrightarrow> socket_ok so \<Longrightarrow> socket_ok so'"
  by (auto simp: WinSocket_receive_def WinSocket_close_eq win_errno_defs socket_ok_def Let_def
      split: prod.splits if_splits)

lemma WinSocket_send_ok: "WinSocket_send S d so w = (n, so', w') \<Longrightarrow> socket_ok so \<Longrightarrow> socket_ok so'"
  by (auto simp: WinSocket_send_def win_errno_defs socket_ok_def Let_def
      split: prod.splits if_splits)

lemma win_calls_ok:
  assumes S: "win_ioctl_checks S" and ok: "socket_ok so"
  shows "case WinSocket_listen S p ver so w of (b, so', w') \<Rightarrow>
      socket_ok so' \<and> m_is_listening so' = b \<and> (b \<longrightarrow> m_listen_port so' = p)"
    and "case WinSocket_connect S ip p so w of (b, so', w') \<Rightarrow> socket_ok so' \<and> m_is_connected so' = b"
    and "case WinSocket_accept S so ww of (r, so', w') \<Rightarrow> socket_ok so' \<and>
      (case r of None \<Rightarrow> True | Some n \<Rightarrow> socket_ok n \<and> m_is_connected n)"
    and "case WinSocket_receive S d so w of (r, so', w') \<Rightarrow> socket_ok so'"
    and "case WinSocket_send S d so w of (n, so', w') \<Rightarrow> socket_ok so'"
    and "case WinSocket_close S so w of (so', w') \<Rightarrow>
      socket_ok so' \<and> \<not> m_is_connected so' \<and> \<not> m_is_listening so' \<and> m_socket_fd so' = -1"
proof -
  show "case WinSocket_listen S p ver so w of (b, so', w') \<Rightarrow>
      socket_ok so' \<and> m_is_listening so' = b \<and> (b \<longrightarrow> m_listen_port so' = p)"
    using WinSocket_listen_flags [of S p ver so w]
    by (cases "WinSocket_listen S p ver so w") (auto simp: socket_ok_def)
  show "case WinSocket_connect S ip p so w of (b, so', w') \<Rightarrow> socket_ok so' \<and> m_is_connected so' = b"
    using WinSocket_connect_flags [of S ip p so w] S
    by (cases "WinSocket_connect S ip p so w") (auto simp: socket_ok_def)
  show "case WinSocket_accept S so ww of (r, so', w') \<Rightarrow> socket_ok so' \<and>
      (case r of None \<Rightarrow> True | Some n \<Rightarrow> socket_ok n \<and> m_is_connected n)"
  proof -
    obtain r so' w' where a: "WinSocket_accept S so ww = (r, so', w')" by (metis surj_pair)
    show ?thesis
      using win_socket.accept_new [of S so ww] WinSocket_accept_cases [OF a] ok a
      by (cases r) (auto simp: socket_ok_def Socket_new_def socket.defs)
  qed
  show "case WinSocket_receive S d so w of (r, so', w') \<Rightarrow> socket_ok so'"
    using WinSocket_receive_ok [of S d so w] ok by (cases "WinSocket_receive S d so w") fastforce
  show "case WinSocket_send S d so w of (n, so', w') \<Rightarrow> socket_ok so'"
    using WinSocket_send_ok [of S d so w] ok by (cases "WinSocket_send S d so w") simp
  show "case WinSocket_close S so w of (so', w') \<Rightarrow>
      socket_ok so' \<and> \<not> m_is_connected so' \<and> \<not> m_is_listening so' \<and> m_socket_fd so' = -1"
    by (simp add: WinSocket_close_eq socket_ok_def)
qed

section \<open>Handle accounting\<close>

abbreviation handle :: "socket \<Rightarrow> SOCKET" where
  "handle so \<equiv> SOCKET_of_int (m_socket_fd so)"

lemma win_handlesD:
  assumes "win_handles S hs"
  shows "hs (win_closesocket S h w) = hs w - {h}"
    and "win_ioctlsocket_FIONBIO S h n w = (r, w') \<Longrightarrow> hs w' = hs w"
    and "win_getaddrinfo S nm sv hints w = (ra, w') \<Longrightarrow> hs w' = hs w"
    and "hs (win_freeaddrinfo S ais w) = hs w"
    and "win_setsockopt_reuseaddr S h y w = (r, w') \<Longrightarrow> hs w' = hs w"
    and "win_bind S h a w = (r, w') \<Longrightarrow> hs w' = hs w"
    and "win_listen S h bl w = (r, w') \<Longrightarrow> hs w' = hs w"
    and "win_connect S h a w = (r, w') \<Longrightarrow> hs w' = hs w"
    and "win_getsockopt_error S h w = (rs, w') \<Longrightarrow> hs w' = hs w"
    and "hs (win_Sleep S ms w) = hs w"
    and "win_socket S f t p w = (s, w') \<Longrightarrow> opens_handle hs w (s, w')"
  using assms unfolding win_handles_def by (metis snd_conv)+

lemma Win_setNonBlocking_handles:
  "win_handles S hs \<Longrightarrow> Win_setNonBlocking S fd w = (b, w') \<Longrightarrow> hs w' = hs w"
  by (auto simp: Win_setNonBlocking_def Let_def split: prod.splits dest: win_handlesD(2))

lemma Win_listen_prepare_handles:
  assumes "win_handles S hs" and "Win_listen_prepare S fd ai w = (b, w')"
  shows "hs w' = hs w"
  using assms(2)
  by (auto simp: Win_listen_prepare_def Let_def split: prod.splits if_splits
      dest!: win_handlesD(5-7) [OF assms(1)])

lemma Win_connect_first_handles:
  assumes S: "win_handles S hs" and c: "Win_connect_first S ai so w = (b, so', w')"
  obtains s w1 where "win_socket S (ai_family ai) (ai_socktype ai) (ai_protocol ai) w = (s, w1)"
    "m_socket_fd so' = int_of_SOCKET s" "hs w' = hs w1"
proof -
  obtain s w1 where s: "win_socket S (ai_family ai) (ai_socktype ai) (ai_protocol ai) w = (s, w1)"
    by (metis surj_pair)
  with c have "m_socket_fd so' = int_of_SOCKET s \<and> hs w' = hs w1"
    by (auto simp: Win_connect_first_def Let_def win_handlesD(10) [OF S] split: prod.splits if_splits
        dest!: Win_setNonBlocking_handles [OF S] win_handlesD(8,9) [OF S])
  with s that show thesis by blast
qed

text \<open>\<open>listen\<close> closes every handle it gives up, also one that cannot be made non-blocking.\<close>

lemma Win_listen_loop_handles:
  assumes S: "win_handles S hs"
  shows "Win_listen_loop S port ais so w = (b, so', w') \<Longrightarrow>
    (if b then handle so' \<notin> hs w \<and> hs w' = insert (handle so') (hs w) else hs w' = hs w)"
proof (induction ais arbitrary: so w)
  case Nil
  then show ?case by simp
next
  case (Cons ai ais)
  obtain s w1 where s: "win_socket S (ai_family ai) (ai_socktype ai) (ai_protocol ai) w = (s, w1)"
    by (metis surj_pair)
  let ?fd = "int_of_SOCKET s"
  obtain p w2 where l: "Win_listen_prepare S ?fd ai w1 = (p, w2)" by (metis surj_pair)
  obtain nb w3 where n: "Win_setNonBlocking S ?fd w2 = (nb, w3)" by (metis surj_pair)
  have w: "hs w2 = hs w1" "hs w3 = hs w1"
    using Win_listen_prepare_handles [OF S l] Win_setNonBlocking_handles [OF S n] by auto
  note o = win_handlesD(11) [OF S s, unfolded opens_handle_def fst_conv snd_conv]
  show ?case
  proof (cases "s = INVALID_SOCKET")
    case True
    then show ?thesis
      using Cons.prems Cons.IH [of "so\<lparr>m_socket_fd := -1\<rparr>" w1] s o by (auto simp: Let_def)
  next
    case False
    then have h: "SOCKET_of_int ?fd = s" "s \<notin> hs w" "hs w1 = insert s (hs w)" and "?fd \<noteq> -1"
      using o handle_valid by auto
    let ?so = "so\<lparr>m_socket_fd := -1\<rparr>"
    have r: "Win_listen_loop S port (ai # ais) so w =
        (if p \<and> nb then (True, so\<lparr>m_socket_fd := ?fd, m_is_listener := True, m_listen_port := port\<rparr>, w3)
         else Win_listen_loop S port ais ?so (win_closesocket S s (if p then w3 else w2)))"
      using s l n h(1) \<open>?fd \<noteq> -1\<close> by (simp add: Win_closeSocket_def Let_def)
    have "hs (win_closesocket S s (if p then w3 else w2)) = hs w"
      using w h(2,3) by (simp add: win_handlesD(1) [OF S])
    then show ?thesis
      using Cons.prems Cons.IH [of ?so "win_closesocket S s (if p then w3 else w2)"] w h
      unfolding r by (auto split: if_splits)
  qed
qed

lemma WinSocket_listen_handles:
  assumes S: "win_handles S hs" and c: "WinSocket_listen S port ver so w = (b, so', w')"
  shows "if b then handle so' \<notin> hs w - {handle so} \<and>
              hs w' = insert (handle so') (hs w - {handle so})
         else hs w' = hs w - {handle so}"
proof (cases "port = 0")
  case True
  with c show ?thesis
    by (auto simp: WinSocket_listen_def WinSocket_close_eq Let_def win_handlesD(1) [OF S])
next
  case False
  let ?so = "so\<lparr>m_is_connected := False, m_is_listening := False, m_is_listener := False,
      m_socket_fd := -1\<rparr>"
  obtain rc ais w1 where g: "win_getaddrinfo S None (to_string_u16 port) (Win_listen_hints ver)
      (win_closesocket S (handle so) w) = ((rc, ais), w1)" by (metis surj_pair)
  have w1: "hs w1 = hs w - {handle so}"
    using win_handlesD(3) [OF S g] by (simp add: win_handlesD(1) [OF S])
  obtain b2 so2 w2 where f: "Win_listen_loop S port ais ?so w1 = (b2, so2, w2)"
    by (metis prod_cases3)
  have "b = (rc = 0 \<and> b2) \<and> hs w' = (if rc = 0 then hs w2 else hs w1) \<and>
      (b \<longrightarrow> m_socket_fd so' = m_socket_fd so2)"
    using c g f False
    by (auto simp: WinSocket_listen_def WinSocket_close_eq Let_def win_errno_defs
        win_handlesD(4) [OF S] split: if_splits)
  then show ?thesis using Win_listen_loop_handles [OF S f] w1 by (auto split: if_splits)
qed

lemma WinSocket_connect_handles:
  assumes S: "win_handles S hs" and I: "win_ioctl_checks S" and inv: "INVALID_SOCKET \<notin> hs w"
    and c: "WinSocket_connect S ip port so w = (b, so', w')"
  shows "if b then handle so' \<notin> hs w - {handle so} \<and>
              hs w' = insert (handle so') (hs w - {handle so})
         else hs w' = hs w - {handle so}"
proof -
  let ?so = "so\<lparr>m_is_connected := False, m_is_listening := False, m_is_listener := False,
      m_socket_fd := -1\<rparr>"
  obtain rc ais w1 where g: "win_getaddrinfo S (Some ip) (to_string_u16 port) connect_hints
      (win_closesocket S (handle so) w) = ((rc, ais), w1)" by (metis surj_pair)
  have w1: "hs w1 = hs w - {handle so}" "INVALID_SOCKET \<notin> hs w1"
    using win_handlesD(3) [OF S g] inv by (simp_all add: win_handlesD(1) [OF S])
  show ?thesis
  proof (cases "rc = 0 \<and> ais \<noteq> []")
    case False
    then have "\<not> b \<and> hs w' = hs w1 - {INVALID_SOCKET}"
      using c g
      by (cases "rc = 0") (simp_all add: WinSocket_connect_def WinSocket_close_eq Let_def
          win_errno_defs, (elim conjE, hypsubst, simp add: win_handlesD(1) [OF S])+)
    with w1 show ?thesis by simp
  next
    case True
    then obtain ai rest where ais: "ais = ai # rest" by (cases ais) auto
    obtain b2 so2 w2 where f: "Win_connect_first S ai ?so w1 = (b2, so2, w2)"
      by (metis prod_cases3)
    obtain s w3 where s: "win_socket S (ai_family ai) (ai_socktype ai) (ai_protocol ai) w1 = (s, w3)"
      "m_socket_fd so2 = int_of_SOCKET s" "hs w2 = hs w3"
      using Win_connect_first_handles [OF S f] by blast
    note o = win_handlesD(11) [OF S s(1), unfolded opens_handle_def fst_conv snd_conv]
    have "b = b2 \<and> (if b then m_socket_fd so' = m_socket_fd so2 \<and> hs w' = hs w2
        else hs w' = hs w2 - {handle so2})"
      using c g ais True f
      by (auto simp: WinSocket_connect_def WinSocket_close_eq Let_def win_errno_defs
          win_handlesD(1,4) [OF S] split: if_splits)
    moreover have "b2 \<Longrightarrow> m_socket_fd so2 \<noteq> -1" using Win_connect_first_frame [OF f] I by simp
    moreover have "handle so2 = s" using o s(2) by auto
    moreover have "if s = INVALID_SOCKET then hs w2 = hs w1 else s \<notin> hs w1 \<and> hs w2 = insert s (hs w1)"
      using o s(3) by auto
    moreover from this have "hs w2 - {s} = hs w1" using w1(2) by (auto split: if_splits)
    moreover have "s \<noteq> INVALID_SOCKET" if "m_socket_fd so2 \<noteq> -1" using that s(2) by auto
    ultimately show ?thesis unfolding w1(1) [symmetric] by (cases b) simp_all
  qed
qed

section \<open>Addresses\<close>

lemma win_storage_length: "length (win_storage st) = 128"
  by (simp add: win_storage_def)

lemma win_names_defined:
  assumes "win_lengths S"
  shows "names_defined (WinSocket_vt S)"
proof -
  have "WinSocket_peerName S so w \<noteq> None" for so w
  proof -
    obtain r st len w1 where g: "win_getpeername S (handle so) 128 w = ((r, st, len), w1)"
      by (metis surj_pair)
    then have "r = 0 \<Longrightarrow> len \<le> 128" using assms unfolding win_lengths_def by blast
    with g show ?thesis by (simp add: WinSocket_peerName_def Let_def split: prod.splits)
  qed
  moreover have "WinSocket_peerIpAddress S so w \<noteq> None" "WinSocket_peerPort S so w \<noteq> None" for so w
    by (simp_all add: WinSocket_peerIpAddress_def WinSocket_peerPort_def Let_def split: prod.splits)
  ultimately show ?thesis by (simp add: names_defined_def query_def)
qed

text \<open>The bytes of an IPv6 address structure as \<open>getpeername\<close> stores them.\<close>

definition win_sockaddr_in6 :: "u16 \<Rightarrow> bytes \<Rightarrow> bytes" where
  "win_sockaddr_in6 port a =
     [23, 0, word_of_int (uint port div 256), word_of_int (uint port mod 256)] @
     replicate 4 0 @ a @ replicate 4 0"

lemma win_port:
  "st ! 2 = word_of_int (uint port div 256) \<Longrightarrow> st ! 3 = word_of_int (uint port mod 256) \<Longrightarrow>
     length st \<ge> 4 \<Longrightarrow> win_ntohs_port (win_storage st) = port"
  unfolding win_ntohs_port_def win_storage_def by (simp add: nth_append port_bytes)

lemma win_storage_fields:
  assumes "length a = 16"
  shows "win_family (win_storage (win_sockaddr_in6 port a)) = WIN_AF_INET6"
    and "win_field 8 16 (win_storage (win_sockaddr_in6 port a)) = a"
    and "win_ntohs_port (win_storage (win_sockaddr_in6 port a)) = port"
    and "win_field 0 28 (win_storage (win_sockaddr_in6 port a)) = win_sockaddr_in6 port a"
proof -
  show "win_family (win_storage (win_sockaddr_in6 port a)) = WIN_AF_INET6"
    by (simp add: win_family_def win_storage_def win_sockaddr_in6_def)
  show "win_field 8 16 (win_storage (win_sockaddr_in6 port a)) = a"
    using assms by (simp add: win_field_def win_storage_def win_sockaddr_in6_def numeral_eq_Suc)
  show "win_ntohs_port (win_storage (win_sockaddr_in6 port a)) = port"
    by (rule win_port) (simp_all add: win_sockaddr_in6_def)
  show "win_field 0 28 (win_storage (win_sockaddr_in6 port a)) = win_sockaddr_in6 port a"
    using assms by (simp add: win_field_def win_storage_def win_sockaddr_in6_def)
qed

lemma win_storage_ipv4:
  assumes "length a = 4"
  shows "win_family (win_storage (sockaddr_in port a)) = AF_INET"
    and "win_field 4 4 (win_storage (sockaddr_in port a)) = a"
    and "win_ntohs_port (win_storage (sockaddr_in port a)) = port"
    and "win_field 0 16 (win_storage (sockaddr_in port a)) = sockaddr_in port a"
proof -
  show "win_family (win_storage (sockaddr_in port a)) = AF_INET"
    by (simp add: win_family_def win_storage_def sockaddr_in_def)
  show "win_field 4 4 (win_storage (sockaddr_in port a)) = a"
    using assms by (simp add: win_field_def win_storage_def sockaddr_in_def)
  show "win_ntohs_port (win_storage (sockaddr_in port a)) = port"
    by (rule win_port) (simp_all add: sockaddr_in_def)
  show "win_field 0 16 (win_storage (sockaddr_in port a)) = sockaddr_in port a"
    using assms by (simp add: win_field_def win_storage_def sockaddr_in_def)
qed

section \<open>The life time of Winsock\<close>

text \<open>A sequence of constructions and destructions, and how many objects live after it.\<close>

datatype lifetime = Construct | Destruct socket

fun lifetimes :: "'w WinSys \<Rightarrow> lifetime list \<Rightarrow> 'w winworld \<Rightarrow> 'w winworld" where
  "lifetimes S [] w = w"
| "lifetimes S (Construct # xs) w = lifetimes S xs (snd (WinSocket_ctor S w))"
| "lifetimes S (Destruct so # xs) w = lifetimes S xs (WinSocket_dtor S so w)"

fun living :: "lifetime list \<Rightarrow> nat \<Rightarrow> nat option" where
  "living [] n = Some n"
| "living (Construct # xs) n = living xs (Suc n)"
| "living (Destruct so # xs) n = (case n of 0 \<Rightarrow> None | Suc m \<Rightarrow> living xs m)"

text \<open>The counter counts the living objects, and Winsock is on exactly while there is one.\<close>

definition winsock_inv :: "('w \<Rightarrow> int) \<Rightarrow> nat \<Rightarrow> 'w winworld \<Rightarrow> bool" where
  "winsock_inv startups n w \<longleftrightarrow>
     m_socket_counter w = of_nat n \<and> startups (win_os w) = (if n = 0 then 0 else 1)"

lemma of_nat_u64:
  assumes "n < 2 ^ 64" and "k < 2 ^ 64"
  shows "(of_nat n :: u64) = of_nat k \<longleftrightarrow> n = k"
  using assms by (auto simp: word_of_nat_eq_iff take_bit_nat_eq_self)

lemma ctor_inv:
  assumes S: "win_startups S startups" and w: "winsock_inv startups n w" and n: "n < 2 ^ 64 - 1"
  shows "winsock_inv startups (Suc n) (snd (WinSocket_ctor S w))"
  using assms of_nat_u64 [of n 0]
  by (auto simp: winsock_inv_def WinSocket_ctor_def winsockInit_def win_startups_def Let_def add.commute)

lemma dtor_inv:
  assumes S: "win_startups S startups" and w: "winsock_inv startups (Suc n) w" and n: "n < 2 ^ 64 - 1"
  shows "winsock_inv startups n (WinSocket_dtor S so w)"
  using assms of_nat_u64 [of "Suc n" 1]
  by (auto simp: winsock_inv_def WinSocket_dtor_def winsockDeInit_def WinSocket_close_eq on_os_def
      win_startups_def Let_def)

lemma lifetimes_inv:
  assumes S: "win_startups S startups"
  shows "winsock_inv startups n w \<Longrightarrow> living xs n = Some m \<Longrightarrow> n + length xs < 2 ^ 64 \<Longrightarrow>
    winsock_inv startups m (lifetimes S xs w)"
proof (induction xs arbitrary: n w)
  case Nil
  then show ?case by simp
next
  case (Cons x xs)
  show ?case
  proof (cases x)
    case Construct
    have "winsock_inv startups (Suc n) (snd (WinSocket_ctor S w))"
      by (rule ctor_inv [OF S Cons.prems(1)]) (use Cons.prems(3) in simp)
    from Cons.IH [OF this] Cons.prems(2,3) show ?thesis by (simp add: Construct)
  next
    case (Destruct so)
    obtain k where n: "n = Suc k" "living xs k = Some m"
      using Cons.prems(2) by (auto simp: Destruct split: nat.splits)
    have "winsock_inv startups k (WinSocket_dtor S so w)"
      by (rule dtor_inv [OF S]) (use Cons.prems(1,3) n(1) in auto)
    from Cons.IH [OF this n(2)] Cons.prems(3) n(1) show ?thesis by (simp add: Destruct)
  qed
qed

text \<open>
  The counter is an ordinary variable, and the connect thread constructs objects while it holds
  no lock. The constructor and the destructor cut into their accesses to shared memory; every
  thread has one register for the value it has read.
\<close>

datatype counter_op = Init_if_0 | Read | Write_inc | Deinit_if_1 | Write_dec

definition ctor_ops :: "counter_op list" where
  "ctor_ops = [Init_if_0, Read, Write_inc]"

definition dtor_ops :: "counter_op list" where
  "dtor_ops = [Deinit_if_1, Read, Write_dec]"

record shared =
  counter :: u64
  winsock_on :: int
  registers :: "u64 list"
  programs :: "counter_op list list"

fun counter_effect :: "counter_op \<Rightarrow> nat \<Rightarrow> shared \<Rightarrow> shared" where
  "counter_effect Init_if_0 i s =
     (if counter s = 0 then s\<lparr>winsock_on := winsock_on s + 1\<rparr> else s)"
| "counter_effect Read i s = s\<lparr>registers := (registers s)[i := counter s]\<rparr>"
| "counter_effect Write_inc i s = s\<lparr>counter := registers s ! i + 1\<rparr>"
| "counter_effect Deinit_if_1 i s =
     (if counter s = 1 then s\<lparr>winsock_on := winsock_on s - 1\<rparr> else s)"
| "counter_effect Write_dec i s = s\<lparr>counter := registers s ! i - 1\<rparr>"

definition shared_move :: "nat \<Rightarrow> shared \<Rightarrow> shared option" where
  "shared_move i s =
     (if i < length (programs s)
      then (case programs s ! i of
              [] \<Rightarrow> None
            | op # ops \<Rightarrow> Some (counter_effect op i (s\<lparr>programs := (programs s)[i := ops]\<rparr>)))
      else None)"

fun shared_moves :: "nat list \<Rightarrow> shared \<Rightarrow> shared option" where
  "shared_moves [] s = Some s"
| "shared_moves (i # is) s = do { s \<leftarrow> shared_move i s; shared_moves is s }"

text \<open>Without interleaving, the accesses do what the constructor and the destructor do.\<close>

lemma ctor_ops_alone:
  assumes "win_startups S startups"
  shows "shared_moves [0, 0, 0] \<lparr>counter = m_socket_counter w, winsock_on = startups (win_os w),
      registers = [r], programs = [ctor_ops]\<rparr> =
    (let w' = snd (WinSocket_ctor S w)
     in Some \<lparr>counter = m_socket_counter w', winsock_on = startups (win_os w'),
          registers = [m_socket_counter w], programs = [[]]\<rparr>)"
  using assms
  by (simp add: shared_move_def ctor_ops_def WinSocket_ctor_def winsockInit_def win_startups_def Let_def)

lemma dtor_ops_alone:
  assumes "win_startups S startups"
  shows "shared_moves [0, 0, 0] \<lparr>counter = m_socket_counter w, winsock_on = startups (win_os w),
      registers = [r], programs = [dtor_ops]\<rparr> =
    (let w' = WinSocket_dtor S so w
     in Some \<lparr>counter = m_socket_counter w', winsock_on = startups (win_os w'),
          registers = [m_socket_counter w], programs = [[]]\<rparr>)"
  using assms
  by (simp add: shared_move_def dtor_ops_def WinSocket_dtor_def winsockDeInit_def WinSocket_close_eq
      on_os_def win_startups_def Let_def)

text \<open>One object lives, and two threads are about to construct and destroy one each.\<close>

definition two_threads :: shared where
  "two_threads = \<lparr>counter = 1, winsock_on = 1, registers = [0, 0],
     programs = [ctor_ops @ dtor_ops, ctor_ops @ dtor_ops]\<rparr>"

lemma counter_race:
  "\<exists>is s. shared_moves is two_threads = Some s \<and>
     programs s = [[], []] \<and> counter s = 0 \<and> winsock_on s = 0"
proof -
  have "ensures (shared_moves [0, 0, 1, 1, 0, 1, 0, 0, 0, 1, 1, 1] two_threads) (\<lambda>s.
      programs s = [[], []] \<and> counter s = 0 \<and> winsock_on s = 0)"
    by (simp add: two_threads_def ctor_ops_def dtor_ops_def shared_move_def)
  then show ?thesis by (rule ensuresE) blast
qed

text \<open>One after the other the threads leave Winsock on for the object that lives besides.\<close>

lemma counter_without_race:
  "ensures (shared_moves (replicate 6 0 @ replicate 6 1) two_threads) (\<lambda>s.
     programs s = [[], []] \<and> counter s = 1 \<and> winsock_on s = 1)"
  by (simp add: two_threads_def ctor_ops_def dtor_ops_def shared_move_def numeral_eq_Suc)

end
