(* ===== verification/LoopbackWin.thy ===== *)
theory LoopbackWin
  imports Loopback SocketWinProps
begin

text \<open>
  A small executable Winsock, on which the properties of the Windows build are tried: the open
  handles, the last error, the calls of \<open>WSAStartup\<close> that are not undone. All peers have the
  IPv6 address ::1 and the port 4242.
\<close>

record wl =
  wl_handles :: "SOCKET list"
  wl_error :: int
  wl_startups :: int

definition wl_start :: wl where
  "wl_start = \<lparr>wl_handles = [], wl_error = 0, wl_startups = 0\<rparr>"

definition wl_candidates :: "SOCKET list" where
  "wl_candidates = [4, 8, 12, 16, 20, 24]"

definition wl_open :: "wl \<Rightarrow> SOCKET \<times> wl" where
  "wl_open w =
     (case find (\<lambda>h. h \<notin> set (wl_handles w)) wl_candidates of
        None \<Rightarrow> (INVALID_SOCKET, w\<lparr>wl_error := 10024\<rparr>)
      | Some h \<Rightarrow> (h, w\<lparr>wl_handles := h # wl_handles w\<rparr>))"

definition wl_check :: "SOCKET \<Rightarrow> wl \<Rightarrow> int \<times> wl" where
  "wl_check h w =
     (if h \<noteq> INVALID_SOCKET \<and> h \<in> set (wl_handles w) then (0, w) else (-1, w\<lparr>wl_error := 10038\<rparr>))"

definition ipv6_localhost :: bytes where
  "ipv6_localhost = replicate 15 0 @ [1]"

definition winloop :: "wl WinSys" where
  "winloop =
     \<lparr>win_WSAGetLastError = wl_error,
      win_WSAStartup = (\<lambda>w. w\<lparr>wl_startups := wl_startups w + 1\<rparr>),
      win_WSACleanup = (\<lambda>w. w\<lparr>wl_startups := wl_startups w - 1\<rparr>),
      win_closesocket = (\<lambda>h w. (snd (wl_check h w))\<lparr>wl_handles := removeAll h (wl_handles w)\<rparr>),
      win_ioctlsocket_FIONBIO = (\<lambda>h n w. wl_check h w),
      win_getaddrinfo = (\<lambda>n s hints w.
        ((0, [\<lparr>ai_family = 23, ai_socktype = 1, ai_protocol = 6,
               ai_addr = win_sockaddr_in6 4242 ipv6_localhost\<rparr>]), w)),
      win_freeaddrinfo = (\<lambda>ais w. w), win_socket = (\<lambda>f t p w. wl_open w),
      win_setsockopt_reuseaddr = (\<lambda>h y w. wl_check h w), win_bind = (\<lambda>h a w. wl_check h w),
      win_listen = (\<lambda>h b w. wl_check h w), win_connect = (\<lambda>h a w. wl_check h w),
      win_getsockopt_error = (\<lambda>h w. ((0, 0), w)), win_accept = (\<lambda>h w. wl_open w),
      win_recv = (\<lambda>h n w. ((-1, []), w\<lparr>wl_error := WSAEWOULDBLOCK\<rparr>)),
      win_send = (\<lambda>h d n w. (n, w)),
      win_getpeername = (\<lambda>h n w.
        if n < 28 then ((-1, [], 0), w\<lparr>wl_error := 10014\<rparr>)
        else ((0, win_sockaddr_in6 4242 ipv6_localhost, 28), w)),
      win_inet_ntop = (\<lambda>af a. ''::1''), win_getnameinfo = (\<lambda>a w. ((0, ''localhost''), w)),
      win_gethostname = (\<lambda>n w. ((0, ''host''), w)), win_FormatMessage = (\<lambda>e n. take n ''error''),
      win_Sleep = (\<lambda>ms w. w)\<rparr>"

lemma wl_candidates_ok:
  "h \<in> set wl_candidates \<Longrightarrow> h \<noteq> INVALID_SOCKET \<and> SOCKET_of_int (int_of_SOCKET h) = h"
proof -
  have "list_all (\<lambda>h. h \<noteq> INVALID_SOCKET \<and> SOCKET_of_int (int_of_SOCKET h) = h) wl_candidates"
    by code_simp
  then show "h \<in> set wl_candidates \<Longrightarrow> h \<noteq> INVALID_SOCKET \<and> SOCKET_of_int (int_of_SOCKET h) = h"
    by (simp add: list_all_iff)
qed

lemma wl_open_opens: "opens_handle (\<lambda>w. set (wl_handles w)) w (wl_open w)"
proof (cases "find (\<lambda>h. h \<notin> set (wl_handles w)) wl_candidates")
  case None
  then show ?thesis by (simp add: wl_open_def opens_handle_def)
next
  case (Some h)
  then have "h \<in> set wl_candidates" "h \<notin> set (wl_handles w)"
    by (auto simp: find_Some_iff)
  with Some wl_candidates_ok show ?thesis by (simp add: wl_open_def opens_handle_def)
qed

lemma winloop_handles: "win_handles winloop (\<lambda>w. set (wl_handles w))"
  using wl_open_opens by (simp add: win_handles_def winloop_def wl_check_def set_removeAll)

lemma winloop_ioctl: "win_ioctl_checks winloop"
  by (simp add: win_ioctl_checks_def winloop_def wl_check_def)

lemma winloop_lengths: "win_lengths winloop"
  by (simp add: win_lengths_def winloop_def)

lemma winloop_startups: "win_startups winloop wl_startups"
  by (simp add: win_startups_def winloop_def wl_check_def)

lemma winloop_getpeername:
  "win_getpeername winloop h 128 w = ((0, win_sockaddr_in6 4242 ipv6_localhost, 28), w)"
  by (simp add: winloop_def)

lemma ipv6_localhost_length: "length ipv6_localhost = 16"
  by (simp add: ipv6_localhost_def)

text \<open>A node on it, in a process without other sockets.\<close>

definition win_node :: "(socket, wl winworld) node" where
  "win_node = TcpNodePrivate_new (win_defaultNewSocket winloop) IPV6 (\<lambda>_. None) 0
     \<lparr>win_os = wl_start, m_socket_counter = 0\<rparr> 0"

lemma win_initial: "initial win_node"
  unfolding win_node_def
  by (rule initialI) (simp_all add: creates_sockets_def win_defaultNewSocket_def split_beta)

definition win_clock :: "int \<Rightarrow> wl winworld \<Rightarrow> int \<times> wl winworld" where
  "win_clock ms w = (max 1 (ms * 1000000), w)"

text \<open>The node listens over IPv6 and accepts a connection.\<close>

definition win_accepted :: "(socket, wl winworld) action list" where
  "win_accepted = [Call (OnAccept (Some 1)), Call (DoListen 5 IPV6)] @ replicate 5 Listen_thread"

lemma win_accepted_runs:
  "ensures (run_schedule (WinSocket_vt winloop) win_clock win_accepted win_node)
     (\<lambda>s. length (m_peers s) = 1)"
  by code_simp

lemma win_accepted_reachable:
  assumes "run_schedule (WinSocket_vt winloop) win_clock win_accepted win_node = Some s"
  shows "reachable (WinSocket_vt winloop) win_clock s"
proof -
  have "list_all action_allowed win_accepted" by (simp add: win_accepted_def list_all_iff)
  from run_reachable [OF reachable.init [OF win_initial] this assms] show ?thesis .
qed

end
