(* ===== verification/Locks.thy ===== *)
theory Locks
  imports Prelude
begin

text \<open>
  The two mutexes of \<open>TcpNodePrivate\<close>, \<open>m_data_access\<close> and \<open>m_callback_access\<close>: for each piece
  of a thread and each member function, the sequence in which it acquires and releases them,
  with the callbacks it invokes in between. The other theories take a piece as one step; here
  the pieces interleave at every lock operation.
\<close>

section \<open>Lock operations\<close>

datatype mutex = Data | Callback

datatype lock_op = Acquire mutex | Release mutex

text \<open>
  A callback is given by the lock operations its body performs, \<open>None\<close> when it is not set.
  \<open>unlocked m c\<close> is the code's idiom around a callback: unlock \<open>m\<close>, invoke, lock \<open>m\<close>.
\<close>

type_synonym closure = "lock_op list option"

definition unlocked :: "mutex \<Rightarrow> closure \<Rightarrow> lock_op list" where
  "unlocked m c = (case c of None \<Rightarrow> [] | Some body \<Rightarrow> Release m # body @ [Acquire m])"

definition invoke :: "closure \<Rightarrow> lock_op list" where
  "invoke c = (case c of None \<Rightarrow> [] | Some body \<Rightarrow> body)"

text \<open>A block \<open>Lock lck(m_callback_access); if(cb) { lck.unlock(); cb(...); lck.lock(); }\<close>.\<close>

definition callback_block :: "closure \<Rightarrow> lock_op list" where
  "callback_block c = Acquire Callback # unlocked Callback c @ [Release Callback]"

section \<open>The pieces of the threads\<close>

definition listen_start_path :: "closure \<Rightarrow> lock_op list" where
  "listen_start_path c = Acquire Data # callback_block c @ [Release Data]"

text \<open>The listener is switched off: the data mutex is unlocked, not the callback mutex.\<close>

definition listen_stop_path :: "closure \<Rightarrow> lock_op list" where
  "listen_stop_path c =
     [Acquire Data, Acquire Callback] @ unlocked Data c @ [Release Callback, Release Data]"

text \<open>A wait on a condition variable that is woken \<open>n\<close> times before its condition holds.\<close>

definition wait_path :: "nat \<Rightarrow> lock_op list" where
  "wait_path n =
     Acquire Data # concat (replicate n [Release Data, Acquire Data]) @ [Release Data]"

text \<open>
  Accepting, receiving and deleting under one lock, with one callback block for the accept, for
  each connection and for the deletion, as far as they occur.
\<close>

definition poll_path :: "closure list \<Rightarrow> lock_op list" where
  "poll_path cs = Acquire Data # concat (map callback_block cs) @ [Release Data]"

definition connect_target_path :: "lock_op list" where
  "connect_target_path = [Acquire Data, Release Data]"

definition connect_failed_path :: "closure \<Rightarrow> lock_op list" where
  "connect_failed_path c = Acquire Callback # invoke c @ [Release Callback]"

definition connect_done_path :: "closure \<Rightarrow> lock_op list" where
  "connect_done_path c =
     [Acquire Data, Release Data, Acquire Callback] @ invoke c @ [Release Callback]"

text \<open>Sending the front, with a callback block when data was sent or the peer is unknown.\<close>

definition send_path :: "closure list \<Rightarrow> lock_op list" where
  "send_path cs = Acquire Data # concat (map callback_block cs) @ [Release Data]"

section \<open>The member functions\<close>

text \<open>The functions that work under the data mutex, and the registrations.\<close>

definition data_path :: "lock_op list" where
  "data_path = [Acquire Data, Release Data]"

definition register_path :: "lock_op list" where
  "register_path = [Acquire Callback, Release Callback]"

definition send_unknown_path :: "closure \<Rightarrow> lock_op list" where
  "send_unknown_path c =
     [Acquire Data, Acquire Callback] @ invoke c @ [Release Callback, Release Data]"

section \<open>Interleaving\<close>

text \<open>Which thread holds each mutex, and what the threads still have to do.\<close>

type_synonym lock_state = "(mutex \<Rightarrow> nat option) \<times> lock_op list list"

fun lock_move :: "nat \<Rightarrow> lock_state \<Rightarrow> lock_state option" where
  "lock_move i (h, ps) =
     (if i < length ps
      then (case ps ! i of
              Acquire m # p \<Rightarrow> if h m = None then Some (h(m := Some i), ps[i := p]) else None
            | Release m # p \<Rightarrow> if h m = Some i then Some (h(m := None), ps[i := p]) else None
            | [] \<Rightarrow> None)
      else None)"

definition lock_step :: "lock_state \<Rightarrow> lock_state \<Rightarrow> bool" where
  "lock_step c c' \<longleftrightarrow> (\<exists>i. lock_move i c = Some c')"

definition all_free :: "lock_op list list \<Rightarrow> lock_state" where
  "all_free ps = ((\<lambda>_. None), ps)"

definition finished :: "lock_state \<Rightarrow> bool" where
  "finished c \<longleftrightarrow> (\<forall>p\<in>set (snd c). p = [])"

text \<open>Nothing can move although something is left to do.\<close>

definition deadlocked :: "lock_state \<Rightarrow> bool" where
  "deadlocked c \<longleftrightarrow>
     \<not> finished c \<and> list_all (\<lambda>i. Option.is_none (lock_move i c)) [0..<length (snd c)]"

fun run_moves :: "nat list \<Rightarrow> lock_state \<Rightarrow> lock_state option" where
  "run_moves [] c = Some c"
| "run_moves (i # is) c = do { c \<leftarrow> lock_move i c; run_moves is c }"

lemma run_moves_steps: "run_moves is c = Some c' \<Longrightarrow> lock_step\<^sup>*\<^sup>* c c'"
proof (induction "is" arbitrary: c)
  case (Cons i "is")
  then obtain c1 where "lock_move i c = Some c1" "lock_step\<^sup>*\<^sup>* c1 c'"
    by (auto simp: bind_eq_Some_conv)
  then show ?case by (meson converse_rtranclp_into_rtranclp lock_step_def)
qed simp

section \<open>The lock order\<close>

text \<open>
  \<open>ordered d c p\<close>: a thread that holds the data mutex if \<open>d\<close> and the callback mutex if \<open>c\<close> can
  run \<open>p\<close> without locking a mutex it holds, without locking the data mutex while it holds the
  callback mutex, and releases in the end what it has locked.
\<close>

fun ordered :: "bool \<Rightarrow> bool \<Rightarrow> lock_op list \<Rightarrow> bool" where
  "ordered d c [] \<longleftrightarrow> \<not> d \<and> \<not> c"
| "ordered d c (Acquire Data # p) \<longleftrightarrow> \<not> d \<and> \<not> c \<and> ordered True c p"
| "ordered d c (Acquire Callback # p) \<longleftrightarrow> \<not> c \<and> ordered d True p"
| "ordered d c (Release Data # p) \<longleftrightarrow> d \<and> ordered False c p"
| "ordered d c (Release Callback # p) \<longleftrightarrow> c \<and> ordered d False p"

lemma ordered_append: "ordered d c p \<Longrightarrow> ordered False False q \<Longrightarrow> ordered d c (p @ q)"
  by (induction d c p rule: ordered.induct) auto

lemma ordered_concat: "\<forall>p\<in>set ps. ordered False False p \<Longrightarrow> ordered False False (concat ps)"
  by (induction ps) (auto intro: ordered_append)

definition lock_inv :: "lock_state \<Rightarrow> bool" where
  "lock_inv c \<longleftrightarrow>
     (\<forall>i < length (snd c).
        ordered (fst c Data = Some i) (fst c Callback = Some i) (snd c ! i)) \<and>
     (\<forall>m j. fst c m = Some j \<longrightarrow> j < length (snd c))"

lemma lock_inv_free: "\<forall>p\<in>set ps. ordered False False p \<Longrightarrow> lock_inv (all_free ps)"
  by (simp add: lock_inv_def all_free_def)

lemma lock_move_inv:
  assumes "lock_move i c = Some c'" and inv: "lock_inv c"
  shows "lock_inv c'"
proof -
  obtain h ps where c: "c = (h, ps)" by fastforce
  then have i: "i < length ps" using assms(1) by (auto split: if_splits)
  note oi = inv [unfolded lock_inv_def c, simplified, THEN conjunct1, rule_format, OF i]
  obtain x p where p: "ps ! i = x # p" using assms(1) i c by (auto split: list.splits)
  show ?thesis
  proof (cases x)
    case (Acquire m)
    then have c': "h m = None" "c' = (h(m := Some i), ps[i := p])"
      using assms(1) i p c by (auto split: if_splits)
    with oi inv show ?thesis
      unfolding lock_inv_def c p Acquire
      by (cases m) (auto simp: i nth_list_update)
  next
    case (Release m)
    then have c': "h m = Some i" "c' = (h(m := None), ps[i := p])"
      using assms(1) i p c by (auto split: if_splits)
    with oi inv show ?thesis
      unfolding lock_inv_def c p Release
      by (cases m) (auto simp: i nth_list_update)
  qed
qed

lemma lock_steps_inv: "lock_step\<^sup>*\<^sup>* c c' \<Longrightarrow> lock_inv c \<Longrightarrow> lock_inv c'"
  by (induction rule: rtranclp_induct) (auto simp: lock_step_def dest: lock_move_inv)

text \<open>The holder of the callback mutex can always move; so can then a holder of the data mutex.\<close>

lemma callback_holder_moves:
  assumes inv: "lock_inv (h, ps)" and i: "h Callback = Some i"
  shows "lock_move i (h, ps) \<noteq> None"
proof -
  have l: "i < length ps" and o: "ordered (h Data = Some i) True (ps ! i)"
    using inv i unfolding lock_inv_def fst_conv snd_conv by metis+
  show ?thesis
  proof (cases "ps ! i")
    case Nil
    with o show ?thesis by simp
  next
    case (Cons x p)
    with o l i show ?thesis
      by (cases x; cases "case x of Acquire m \<Rightarrow> m | Release m \<Rightarrow> m") auto
  qed
qed

lemma free_callback_moves:
  assumes "ordered d False (ps ! i)" and "ps ! i \<noteq> []" and "i < length ps"
    and "h Callback = None" and "d = (h Data = Some i)" and "\<not> d \<longrightarrow> h Data = None"
  shows "lock_move i (h, ps) \<noteq> None"
proof (cases "ps ! i")
  case (Cons x p)
  with assms show ?thesis
    by (cases x; cases "case x of Acquire m \<Rightarrow> m | Release m \<Rightarrow> m"; cases d) auto
qed (use assms in simp)

lemma lock_progress:
  assumes inv: "lock_inv c"
  shows "\<not> deadlocked c"
proof
  assume dead: "deadlocked c"
  obtain h ps where c: "c = (h, ps)" by fastforce
  have stuck: "lock_move i (h, ps) = None" if "i < length ps" for i
    using dead that
    by (simp add: deadlocked_def c list_all_iff Option.is_none_def del: lock_move.simps)
  have holder: "i < length ps" if "h m = Some i" for m i
    using inv that by (auto simp: lock_inv_def c)
  have o: "ordered (h Data = Some i) (h Callback = Some i) (ps ! i)" if "i < length ps" for i
    using inv that by (auto simp: lock_inv_def c)
  have cb: "h Callback = None"
    using callback_holder_moves [OF inv [unfolded c]] stuck holder [of Callback]
    by (cases "h Callback") auto
  have data: "h Data = None"
  proof (cases "h Data")
    case (Some i)
    then have "ordered True False (ps ! i)" using o [OF holder [OF Some]] cb by simp
    moreover from this have "ps ! i \<noteq> []" by auto
    ultimately show ?thesis
      using free_callback_moves [of True ps i h] stuck [OF holder [OF Some]] holder [OF Some] cb Some
      by simp
  qed
  obtain i where i: "i < length ps" "ps ! i \<noteq> []"
    using dead by (auto simp: deadlocked_def finished_def c in_set_conv_nth)
  with free_callback_moves [of False ps i h] o [OF i(1)] stuck [OF i(1)] cb data show False by simp
qed

text \<open>Every step takes one operation off a program, so no run is longer than all of them together.\<close>

definition work :: "lock_state \<Rightarrow> nat" where
  "work c = sum_list (map length (snd c))"

lemma lock_move_work: "lock_move i c = Some c' \<Longrightarrow> work c = Suc (work c')"
proof -
  assume m: "lock_move i c = Some c'"
  obtain h ps where c: "c = (h, ps)" by fastforce
  obtain x p h' where p: "i < length ps" "ps ! i = x # p" "c' = (h', ps[i := p])"
    using m c by (auto split: if_splits list.splits lock_op.splits)
  have "ps = take i ps @ (x # p) # drop (Suc i) ps"
    using id_take_nth_drop [OF p(1)] by (simp only: p(2))
  then have "sum_list (map length ps) =
      sum_list (map length (take i ps)) + Suc (length p) + sum_list (map length (drop (Suc i) ps))"
    by (metis (no_types) add.assoc length_Cons list.simps(9) map_append sum_list.Cons sum_list_append)
  then show ?thesis using p by (simp add: work_def c upd_conv_take_nth_drop)
qed

section \<open>The paths of the code\<close>

text \<open>A callback that is not set, or that calls no function of the node.\<close>

fun quiet :: "closure \<Rightarrow> bool" where
  "quiet None = True"
| "quiet (Some body) = (body = [])"

text \<open>
  The paths the threads and the owner take with quiet callbacks, all but one: the listener's
  switching off with a callback set.
\<close>

inductive quiet_path :: "lock_op list \<Rightarrow> bool" where
  "quiet c \<Longrightarrow> quiet_path (listen_start_path c)"
| "quiet_path (listen_stop_path None)"
| "quiet_path (wait_path n)"
| "list_all quiet cs \<Longrightarrow> quiet_path (poll_path cs)"
| "quiet_path connect_target_path"
| "quiet c \<Longrightarrow> quiet_path (connect_failed_path c)"
| "quiet c \<Longrightarrow> quiet_path (connect_done_path c)"
| "list_all quiet cs \<Longrightarrow> quiet_path (send_path cs)"
| "quiet_path data_path"
| "quiet_path register_path"
| "quiet c \<Longrightarrow> quiet_path (send_unknown_path c)"

lemma quiet_blocks:
  "list_all quiet cs \<Longrightarrow> ordered True False (concat (map callback_block cs) @ p) = ordered True False p"
proof (induction cs)
  case (Cons c cs)
  then show ?case by (cases c) (auto simp: callback_block_def unlocked_def)
qed simp

lemma waits_ordered:
  "ordered True False (concat (replicate n [Release Data, Acquire Data]) @ p) = ordered True False p"
  by (induction n) auto

lemma quiet_path_ordered: "quiet_path p \<Longrightarrow> ordered False False p"
proof (induction rule: quiet_path.induct)
  case (1 c)
  then show ?case
    by (cases c) (auto simp: listen_start_path_def callback_block_def unlocked_def)
next
  case (6 c)
  then show ?case by (cases c) (auto simp: connect_failed_path_def invoke_def)
next
  case (7 c)
  then show ?case by (cases c) (auto simp: connect_done_path_def invoke_def)
next
  case (11 c)
  then show ?case by (cases c) (auto simp: send_unknown_path_def invoke_def)
qed (auto simp: listen_stop_path_def unlocked_def wait_path_def poll_path_def send_path_def
       connect_target_path_def data_path_def register_path_def quiet_blocks waits_ordered)

text \<open>A thread that locks a mutex it holds itself waits for ever.\<close>

lemma self_blocked_step:
  assumes "lock_step c c'" and "fst c m = Some i" and "snd c ! i = Acquire m # p"
  shows "fst c' m = Some i \<and> snd c' ! i = Acquire m # p"
proof -
  obtain h ps where c: "c = (h, ps)" by fastforce
  obtain j where j: "lock_move j (h, ps) = Some c'" using assms(1) c by (auto simp: lock_step_def)
  with assms(2,3) have "j \<noteq> i" by (auto simp: c split: if_splits)
  with j assms(2,3) show ?thesis
    by (auto simp: c split: if_splits list.splits lock_op.splits)
qed

lemma self_blocked:
  assumes "lock_step\<^sup>*\<^sup>* c c'" and "fst c m = Some i" and "snd c ! i = Acquire m # p"
  shows "fst c' m = Some i \<and> snd c' ! i = Acquire m # p"
  using assms(1)
proof (induction rule: rtranclp_induct)
  case (step y z)
  then show ?case by (intro self_blocked_step [OF step(2)]) auto
qed (use assms in simp)

section \<open>Runs\<close>

lemma quiet_concat_ordered: "list_all quiet_path qs \<Longrightarrow> ordered False False (concat qs)"
  by (rule ordered_concat) (auto simp: list_all_iff quiet_path_ordered)

lemma relpow_work: "(lock_step ^^ n) c c' \<Longrightarrow> n + work c' = work c"
proof (induction n arbitrary: c')
  case (Suc n)
  then obtain c1 where "(lock_step ^^ n) c c1" "lock_step c1 c'" by auto
  moreover from this have "work c1 = Suc (work c')" by (auto simp: lock_step_def dest: lock_move_work)
  ultimately show ?case using Suc.IH [of c1] by simp
qed simp

lemma run_moves_relpow: "run_moves is c = Some c' \<Longrightarrow> (lock_step ^^ length is) c c'"
proof (induction "is" arbitrary: c)
  case (Cons i "is")
  then obtain c1 where c1: "lock_move i c = Some c1" "(lock_step ^^ length is) c1 c'"
    by (auto simp: bind_eq_Some_conv)
  then have "lock_step c c1" by (auto simp: lock_step_def)
  from relpowp_Suc_I2 [OF this c1(2)] show ?case by simp
qed simp

text \<open>A run to a state in which a thread waits for its own mutex is a run that never finishes.\<close>

definition self_waiting :: "nat \<Rightarrow> mutex \<Rightarrow> lock_state \<Rightarrow> bool" where
  "self_waiting i m c \<longleftrightarrow> i < length (snd c) \<and> fst c m = Some i \<and>
     (case snd c ! i of Acquire m' # p \<Rightarrow> m' = m | _ \<Rightarrow> False)"

lemma lock_step_length: "lock_step c c' \<Longrightarrow> length (snd c') = length (snd c)"
proof -
  assume s: "lock_step c c'"
  obtain h ps where c: "c = (h, ps)" by fastforce
  with s show ?thesis by (auto simp: lock_step_def split: if_splits list.splits lock_op.splits)
qed

lemma self_waiting_forever:
  assumes "ensures (run_moves is c0) (self_waiting i m)"
  shows "\<exists>c. lock_step\<^sup>*\<^sup>* c0 c \<and> (\<forall>c'. lock_step\<^sup>*\<^sup>* c c' \<longrightarrow> \<not> finished c')"
proof -
  obtain c where c: "run_moves is c0 = Some c" "self_waiting i m c"
    using assms by (auto elim: ensuresE)
  then obtain p where p: "i < length (snd c)" "fst c m = Some i" "snd c ! i = Acquire m # p"
    by (auto simp: self_waiting_def split: list.splits lock_op.splits)
  have "\<not> finished c'" if s: "lock_step\<^sup>*\<^sup>* c c'" for c'
  proof -
    have "length (snd c') = length (snd c)"
      using s by (induction rule: rtranclp_induct) (auto simp: lock_step_length)
    then have "snd c' ! i \<in> set (snd c')" using p(1) by simp
    with self_blocked [OF s p(2,3)] show ?thesis by (auto simp: finished_def)
  qed
  with run_moves_steps [OF c(1)] show ?thesis by blast
qed

lemma deadlock_reached:
  "ensures (run_moves is c0) deadlocked \<Longrightarrow> \<exists>c. lock_step\<^sup>*\<^sup>* c0 c \<and> deadlocked c"
  by (auto elim!: ensuresE dest: run_moves_steps)

end
