(* ===== verification/Wakeups.thy ===== *)
theory Wakeups
  imports Prelude
begin

text \<open>
  The condition variables of \<open>TcpNodePrivate\<close>: a thread that waits for a condition under a
  mutex, and any number of threads that make the condition true and notify it, interleaved at
  every operation on the mutex, the condition and the condition variable. Each condition
  variable has one waiting thread, which waits again and again.
\<close>

section \<open>The waiting thread\<close>

text \<open>
  \<open>wait(lck, pred)\<close> of the three \<open>_pauseUntil\<close> functions: lock, test the condition, and while it
  is false go to sleep, which unlocks, and lock again when woken. Between the test and the sleep
  the mutex stays locked. Outside the function the thread does its work, ends when it is told
  to, and otherwise comes back.
\<close>

datatype waiter_pc = W_Enter | W_Test | W_Decided | W_Asleep | W_Leave | W_Out | W_Ended

datatype actor = Waiter | Thread nat

datatype notify_op = N_Lock | N_Set | N_Unlock | N_Stop | N_Notify | N_Join

record monitor =
  holder :: "actor option"
  cond :: bool
  running :: bool
  waiter :: waiter_pc
  todo :: "notify_op list list"

definition waiter_move :: "monitor \<Rightarrow> monitor option" where
  "waiter_move s =
     (case waiter s of
        W_Enter \<Rightarrow> if holder s = None then Some (s\<lparr>holder := Some Waiter, waiter := W_Test\<rparr>) else None
      | W_Test \<Rightarrow> Some (s\<lparr>waiter := if cond s then W_Leave else W_Decided\<rparr>)
      | W_Decided \<Rightarrow> Some (s\<lparr>holder := None, waiter := W_Asleep\<rparr>)
      | W_Asleep \<Rightarrow> None
      | W_Leave \<Rightarrow> Some (s\<lparr>holder := None, waiter := W_Out\<rparr>)
      | W_Out \<Rightarrow> Some (s\<lparr>waiter := if running s then W_Enter else W_Ended\<rparr>)
      | W_Ended \<Rightarrow> None)"

text \<open>\<open>notify_one\<close> makes a sleeping thread lock and test again, and otherwise has no effect.\<close>

definition wake :: "monitor \<Rightarrow> monitor" where
  "wake s = (if waiter s = W_Asleep then s\<lparr>waiter := W_Enter\<rparr> else s)"

text \<open>The other threads: the next operation of thread \<open>i\<close>. A join waits for the end of the thread.\<close>

definition perform_op :: "nat \<Rightarrow> notify_op \<Rightarrow> monitor \<Rightarrow> monitor option" where
  "perform_op i x s =
     (case x of
        N_Lock \<Rightarrow> if holder s = None then Some (s\<lparr>holder := Some (Thread i)\<rparr>) else None
      | N_Set \<Rightarrow> Some (s\<lparr>cond := True\<rparr>)
      | N_Unlock \<Rightarrow> if holder s = Some (Thread i) then Some (s\<lparr>holder := None\<rparr>) else None
      | N_Stop \<Rightarrow> Some (s\<lparr>running := False\<rparr>)
      | N_Notify \<Rightarrow> Some (wake s)
      | N_Join \<Rightarrow> if waiter s = W_Ended then Some s else None)"

definition thread_move :: "nat \<Rightarrow> monitor \<Rightarrow> monitor option" where
  "thread_move i s =
     (if i < length (todo s)
      then (case todo s ! i of
              [] \<Rightarrow> None
            | x # ops \<Rightarrow> perform_op i x (s\<lparr>todo := (todo s)[i := ops]\<rparr>))
      else None)"

definition moves :: "actor \<Rightarrow> monitor \<Rightarrow> monitor option" where
  "moves a s = (case a of Waiter \<Rightarrow> waiter_move s | Thread i \<Rightarrow> thread_move i s)"

text \<open>
  The interleavings. The waiting thread's work between two waits can make the condition false
  again. A sleeping thread may also be woken spuriously.
\<close>

inductive monitor_step :: "monitor \<Rightarrow> monitor \<Rightarrow> bool" where
  acts: "moves a s = Some s' \<Longrightarrow> monitor_step s s'"
| consumes: "waiter s = W_Out \<Longrightarrow> monitor_step s (s\<lparr>cond := False\<rparr>)"
| spurious: "monitor_step s (wake s)"

definition monitor_start :: "notify_op list list \<Rightarrow> monitor" where
  "monitor_start ts =
     \<lparr>holder = None, cond = False, running = True, waiter = W_Enter, todo = ts\<rparr>"

text \<open>The condition is true, the thread sleeps, and no notification is on its way.\<close>

definition overslept :: "monitor \<Rightarrow> bool" where
  "overslept s \<longleftrightarrow>
     cond s \<and> waiter s = W_Asleep \<and> (\<forall>ops \<in> set (todo s). N_Notify \<notin> set ops)"

section \<open>The notifying functions\<close>

text \<open>What each function does to the condition its thread waits for.\<close>

definition doListen_ops :: "notify_op list" where
  "doListen_ops = [N_Lock, N_Set, N_Unlock, N_Notify]"

definition connectTo_ops :: "notify_op list" where
  "connectTo_ops = [N_Lock, N_Set, N_Unlock, N_Notify]"

definition sendData_ops :: "notify_op list" where
  "sendData_ops = [N_Lock, N_Set, N_Unlock, N_Notify]"

definition connected_ops :: "notify_op list" where
  "connected_ops = [N_Lock, N_Set, N_Unlock, N_Notify]"

text \<open>\<open>stopListening\<close> and the destructor set their flags without the mutex.\<close>

definition stopListening_ops :: "notify_op list" where
  "stopListening_ops = [N_Set, N_Notify]"

definition destructor_ops :: "notify_op list" where
  "destructor_ops = [N_Set, N_Stop, N_Notify, N_Join]"

inductive locked_ops :: "notify_op list \<Rightarrow> bool" where
  "locked_ops doListen_ops"
| "locked_ops connectTo_ops"
| "locked_ops sendData_ops"
| "locked_ops connected_ops"

section \<open>No wake-up is lost under the mutex\<close>

text \<open>
  \<open>disciplined h ops\<close>: a thread that holds the mutex if \<open>h\<close> sets the condition only while it
  holds the mutex, and notifies after it has set it.
\<close>

fun disciplined :: "bool \<Rightarrow> notify_op list \<Rightarrow> bool" where
  "disciplined h [] \<longleftrightarrow> \<not> h"
| "disciplined h (N_Lock # ops) \<longleftrightarrow> \<not> h \<and> disciplined True ops"
| "disciplined h (N_Set # ops) \<longleftrightarrow> h \<and> N_Notify \<in> set ops \<and> disciplined h ops"
| "disciplined h (N_Unlock # ops) \<longleftrightarrow> h \<and> disciplined False ops"
| "disciplined h (N_Notify # ops) \<longleftrightarrow> disciplined h ops"
| "disciplined h (N_Stop # ops) \<longleftrightarrow> disciplined h ops"
| "disciplined h (N_Join # ops) \<longleftrightarrow> \<not> h \<and> disciplined h ops"

lemma disciplined_append: "disciplined h p \<Longrightarrow> disciplined False q \<Longrightarrow> disciplined h (p @ q)"
  by (induction h p rule: disciplined.induct) auto

lemma locked_disciplined: "list_all locked_ops os \<Longrightarrow> disciplined False (concat os)"
  by (induction os)
    (auto intro!: disciplined_append elim!: locked_ops.cases
      simp: doListen_ops_def connectTo_ops_def sendData_ops_def connected_ops_def)

text \<open>Who holds the mutex, and that a sleeper whose condition is true will be notified.\<close>

definition monitor_inv :: "monitor \<Rightarrow> bool" where
  "monitor_inv s \<longleftrightarrow>
     (holder s = Some Waiter \<longleftrightarrow> waiter s \<in> {W_Test, W_Decided, W_Leave}) \<and>
     (\<forall>i < length (todo s). disciplined (holder s = Some (Thread i)) (todo s ! i)) \<and>
     (waiter s = W_Decided \<longrightarrow> \<not> cond s) \<and>
     (waiter s = W_Asleep \<and> cond s \<longrightarrow> (\<exists>i < length (todo s). N_Notify \<in> set (todo s ! i)))"

lemma waiter_inv: "waiter_move s = Some s' \<Longrightarrow> monitor_inv s \<Longrightarrow> monitor_inv s'"
  by (cases "waiter s") (auto simp: waiter_move_def monitor_inv_def split: if_splits)

text \<open>A move of thread \<open>i\<close>, which leaves it the operations \<open>ops\<close>.\<close>

lemma monitor_invI:
  assumes inv: "monitor_inv s" and todo: "todo s' = (todo s)[i := ops]"
    and w: "waiter s' = waiter s \<or> waiter s = W_Asleep \<and> waiter s' = W_Enter"
    and h: "\<And>a. a \<noteq> Thread i \<Longrightarrow> (holder s' = Some a) = (holder s = Some a)"
    and d: "disciplined (holder s' = Some (Thread i)) ops"
    and c: "waiter s = W_Decided \<Longrightarrow> cond s' = cond s"
    and n: "waiter s' = W_Asleep \<Longrightarrow> cond s' \<Longrightarrow>
      \<exists>j < length (todo s). N_Notify \<in> set ((todo s)[i := ops] ! j)"
  shows "monitor_inv s'"
proof -
  have "disciplined (holder s' = Some (Thread j)) ((todo s)[i := ops] ! j)"
    if "j < length (todo s)" for j
    using that inv d h by (cases "j = i") (simp_all add: monitor_inv_def)
  moreover have "(holder s' = Some Waiter) = (waiter s' \<in> {W_Test, W_Decided, W_Leave})"
    using inv h w by (auto simp: monitor_inv_def)
  ultimately show ?thesis
    using inv w c n by (auto simp: monitor_inv_def todo)
qed

lemma thread_inv_step:
  assumes m: "thread_move i s = Some s'" and inv: "monitor_inv s"
  shows "monitor_inv s'"
proof -
  obtain x ops where i: "i < length (todo s)" "todo s ! i = x # ops"
    and p: "perform_op i x (s\<lparr>todo := (todo s)[i := ops]\<rparr>) = Some s'"
    using m by (auto simp: thread_move_def split: if_splits list.splits)
  have d: "disciplined (holder s = Some (Thread i)) (x # ops)"
    using inv i by (auto simp: monitor_inv_def)
  have keep: "\<exists>j < length (todo s). N_Notify \<in> set ((todo s)[i := ops] ! j)"
    if w: "waiter s = W_Asleep" "cond s" "x \<noteq> N_Notify"
  proof -
    obtain j where "j < length (todo s)" "N_Notify \<in> set (todo s ! j)"
      using inv w by (auto simp: monitor_inv_def)
    with i w show ?thesis by (intro exI [of _ j]) (auto simp: nth_list_update)
  qed
  have own: "\<exists>j < length (todo s). N_Notify \<in> set ((todo s)[i := ops] ! j)"
    if "N_Notify \<in> set ops"
    using i that by (intro exI [of _ i]) simp
  show ?thesis
  proof (cases x)
    case N_Set
    then have "holder s = Some (Thread i)" "N_Notify \<in> set ops" using d by simp_all
    moreover have "waiter s \<noteq> W_Decided" using inv calculation(1) by (auto simp: monitor_inv_def)
    ultimately show ?thesis
      using p d N_Set own by (intro monitor_invI [OF inv, of s' i ops]) (auto simp: perform_op_def)
  qed (rule monitor_invI [OF inv, of s' i ops];
      use p d keep in \<open>auto simp: perform_op_def wake_def split: if_splits\<close>)+
qed

lemma monitor_inv_step: "monitor_step s s' \<Longrightarrow> monitor_inv s \<Longrightarrow> monitor_inv s'"
proof (induction rule: monitor_step.induct)
  case (acts a s s')
  then show ?case by (cases a) (auto simp: moves_def intro: waiter_inv thread_inv_step)
next
  case (consumes s)
  then show ?case by (auto simp: monitor_inv_def)
next
  case (spurious s)
  then show ?case by (auto simp: monitor_inv_def wake_def)
qed

lemma monitor_inv_steps: "monitor_step\<^sup>*\<^sup>* s s' \<Longrightarrow> monitor_inv s \<Longrightarrow> monitor_inv s'"
  by (induction rule: rtranclp_induct) (auto intro: monitor_inv_step)

lemma monitor_inv_start: "list_all (disciplined False) ts \<Longrightarrow> monitor_inv (monitor_start ts)"
  by (simp add: monitor_inv_def monitor_start_def list_all_length)

lemma not_overslept: "monitor_inv s \<Longrightarrow> \<not> overslept s"
  by (auto simp: monitor_inv_def overslept_def)

section \<open>Runs\<close>

fun run_monitor :: "actor list \<Rightarrow> monitor \<Rightarrow> monitor option" where
  "run_monitor [] s = Some s"
| "run_monitor (a # as) s = do { s \<leftarrow> moves a s; run_monitor as s }"

lemma run_monitor_steps: "run_monitor as s = Some s' \<Longrightarrow> monitor_step\<^sup>*\<^sup>* s s'"
proof (induction as arbitrary: s)
  case (Cons a as)
  then show ?case
    by (auto simp: bind_eq_Some_conv intro: converse_rtranclp_into_rtranclp monitor_step.acts)
qed simp

lemma run_monitor_reached:
  "ensures (run_monitor as s) P \<Longrightarrow> \<exists>s'. monitor_step\<^sup>*\<^sup>* s s' \<and> P s'"
  by (auto elim!: ensuresE dest: run_monitor_steps)

text \<open>A sleeping thread, and one other thread that has nothing to do or waits for its end.\<close>

lemma overslept_stuck:
  assumes "overslept s" and "todo s = [ops]" and "ops = [] \<or> ops = [N_Join]"
  shows "moves a s = None"
  using assms
  by (cases a) (auto simp: moves_def overslept_def waiter_move_def thread_move_def perform_op_def)

end
