(* ===== verification/TestRuns.thy ===== *)
theory TestRuns
  imports Loopback
begin

text \<open>
  The tests of \<^verbatim>\<open>test/tst_tcpnode.hpp\<close>, run on the model. They give a node mock sockets
  (\<^verbatim>\<open>test/mock_socket.hpp\<close>) beside its own: the sockets of one node are then of two classes, and a
  call goes to the function of the object's class. \<open>either_vt\<close> is this dispatch for any two
  implementations of \<^verbatim>\<open>ISocket\<close>; what holds of a node for every implementation holds for it.
\<close>

section \<open>Sockets of two classes\<close>

definition left_of :: "('a \<times> 's \<times> 'w) \<Rightarrow> 'a \<times> ('s + 't) \<times> 'w" where
  "left_of = (\<lambda>(x, so, w). (x, Inl so, w))"

definition right_of :: "('a \<times> 't \<times> 'w) \<Rightarrow> 'a \<times> ('s + 't) \<times> 'w" where
  "right_of = (\<lambda>(x, so, w). (x, Inr so, w))"

definition either_vt :: "('s, 'w) ISocket \<Rightarrow> ('t, 'w) ISocket \<Rightarrow> ('s + 't, 'w) ISocket" where
  "either_vt A B =
     \<lparr>vlisten = (\<lambda>p v so w. case so of Inl a \<Rightarrow> left_of (vlisten A p v a w)
                                   | Inr b \<Rightarrow> right_of (vlisten B p v b w)),
      vconnect = (\<lambda>ip p so w. case so of Inl a \<Rightarrow> left_of (vconnect A ip p a w)
                                     | Inr b \<Rightarrow> right_of (vconnect B ip p b w)),
      vclose = (\<lambda>so w. case so of Inl a \<Rightarrow> map_prod Inl id (vclose A a w)
                              | Inr b \<Rightarrow> map_prod Inr id (vclose B b w)),
      vaccept = (\<lambda>so w. case so of
          Inl a \<Rightarrow> left_of (map_prod (map_option Inl) id (vaccept A a w))
        | Inr b \<Rightarrow> right_of (map_prod (map_option Inr) id (vaccept B b w))),
      vreceive = (\<lambda>d so w. case so of Inl a \<Rightarrow> left_of (vreceive A d a w)
                                  | Inr b \<Rightarrow> right_of (vreceive B d b w)),
      vsend = (\<lambda>d so w. case so of Inl a \<Rightarrow> left_of (vsend A d a w)
                               | Inr b \<Rightarrow> right_of (vsend B d b w)),
      vsocketNumber = case_sum (vsocketNumber A) (vsocketNumber B),
      visListener = case_sum (visListener A) (visListener B),
      vlistenPort = case_sum (vlistenPort A) (vlistenPort B),
      visConnected = case_sum (visConnected A) (visConnected B),
      visListening = case_sum (visListening A) (visListening B),
      vpeerIpAddress = case_sum (vpeerIpAddress A) (vpeerIpAddress B),
      vpeerPort = case_sum (vpeerPort A) (vpeerPort B),
      vownIpAddress = case_sum (vownIpAddress A) (vownIpAddress B),
      vpeerName = case_sum (vpeerName A) (vpeerName B),
      vsetReceiveBufferSize =
        (\<lambda>n. map_sum (vsetReceiveBufferSize A n) (vsetReceiveBufferSize B n)),
      vreceiveBufferSize = case_sum (vreceiveBufferSize A) (vreceiveBufferSize B),
      vsetSleepTime = (\<lambda>n. map_sum (vsetSleepTime A n) (vsetSleepTime B n)),
      vsleepTime = case_sum (vsleepTime A) (vsleepTime B),
      vgetLastErrno = (\<lambda>so. case so of Inl a \<Rightarrow> map_prod id Inl (vgetLastErrno A a)
                                   | Inr b \<Rightarrow> map_prod id Inr (vgetLastErrno B b)),
      vgetLastErrnoString = (\<lambda>so. case so of Inl a \<Rightarrow> map_prod id Inl (vgetLastErrnoString A a)
                                         | Inr b \<Rightarrow> map_prod id Inr (vgetLastErrnoString B b)),
      vdestroy = case_sum (vdestroy A) (vdestroy B)\<rparr>"

lemma either_names: "names_defined A \<Longrightarrow> names_defined B \<Longrightarrow> names_defined (either_vt A B)"
  by (auto simp: names_defined_def either_vt_def split: sum.splits)

section \<open>The mock\<close>

text \<open>
  What a test expects of a mock: the constant answer of each function it names, and the sockets
  that \<open>accept\<close> hands out, one per call. A function without an expectation returns the default
  value of its type, as \<^verbatim>\<open>MOCK_METHOD\<close> documents.
\<close>

record answers =
  on_listen :: bool
  on_connect :: bool
  on_receive :: ReceiveResult
  on_send :: u64
  on_isListener :: bool
  on_isListening :: bool
  on_isConnected :: bool
  on_peerIpAddress :: string
  on_peerPort :: u16
  on_peerName :: string

definition no_answers :: answers where
  "no_answers = \<lparr>on_listen = False, on_connect = False, on_receive = RR_OK, on_send = 0,
     on_isListener = False, on_isListening = False, on_isConnected = False,
     on_peerIpAddress = [], on_peerPort = 0, on_peerName = []\<rparr>"

datatype MockSocket = MockSocket (answers: answers) (accepts: "MockSocket list")

definition Mock_vt :: "(MockSocket, 'w) ISocket" where
  "Mock_vt =
     \<lparr>vlisten = (\<lambda>p v so w. (on_listen (answers so), so, w)),
      vconnect = (\<lambda>ip p so w. (on_connect (answers so), so, w)),
      vclose = (\<lambda>so w. (so, w)),
      vaccept = (\<lambda>so w. case accepts so of
          [] \<Rightarrow> (None, so, w) | n # ns \<Rightarrow> (Some n, MockSocket (answers so) ns, w)),
      vreceive = (\<lambda>d so w. ((on_receive (answers so), d), so, w)),
      vsend = (\<lambda>d so w. (on_send (answers so), so, w)),
      vsocketNumber = (\<lambda>so. 0), visListener = on_isListener \<circ> answers, vlistenPort = (\<lambda>so. 0),
      visConnected = on_isConnected \<circ> answers, visListening = on_isListening \<circ> answers,
      vpeerIpAddress = (\<lambda>so w. Some (on_peerIpAddress (answers so), w)),
      vpeerPort = (\<lambda>so w. Some (on_peerPort (answers so), w)),
      vownIpAddress = (\<lambda>so w. ([], w)),
      vpeerName = (\<lambda>so w. Some (on_peerName (answers so), w)),
      vsetReceiveBufferSize = (\<lambda>n so. so), vreceiveBufferSize = (\<lambda>so. 0),
      vsetSleepTime = (\<lambda>n so. so), vsleepTime = (\<lambda>so. 0),
      vgetLastErrno = (\<lambda>so. (0, so)), vgetLastErrnoString = (\<lambda>so. ([], so)),
      vdestroy = (\<lambda>so w. w)\<rparr>"

lemma mock_names: "names_defined Mock_vt"
  by (simp add: names_defined_def Mock_vt_def)

section \<open>The runs\<close>

type_synonym test_node = "(socket + MockSocket, lw) node"

definition test_vt :: "(socket + MockSocket, lw) ISocket" where
  "test_vt = either_vt loop_vt Mock_vt"

definition test_start :: test_node where
  "test_start = TcpNodePrivate_new (\<lambda>w. (Some (Inl Socket_new), w)) IPV_ANY (\<lambda>_. None) 0 lw_start 0"

definition test_run :: "(socket + MockSocket, lw) action list \<Rightarrow> test_node \<Rightarrow> test_node option" where
  "test_run = run_schedule test_vt loop_clock"

lemma test_run_reachable:
  assumes "test_run xs test_start = Some s" and "list_all action_allowed xs"
  shows "reachable test_vt loop_clock s" and "node_inv s"
proof -
  have "initial test_start"
    unfolding test_start_def by (rule initialI) (simp_all add: creates_sockets_def)
  from run_reachable [OF reachable.init [OF this] assms(2)] assms(1)
  show r: "reachable test_vt loop_clock s" by (simp add: test_run_def)
  show "node_inv s"
    by (rule reachable_inv [OF r]) (simp add: test_vt_def either_names [OF loop_names mock_names])
qed

text \<open>\<^verbatim>\<open>canListen\<close>: the request is visible at once, and so is its end.\<close>

lemma canListen:
  "ensures (test_run [Call (SetListener (Inr (MockSocket (no_answers\<lparr>on_listen := True\<rparr>) [])))]
     test_start) (\<lambda>s. \<not> isListening s \<and>
     ensures (test_run (Call (DoListen 5432 IPV4) # replicate 6 Listen_thread) s) (\<lambda>s. isListening s \<and>
       ensures (test_run (Call StopListening # replicate 6 Listen_thread) s)
         (\<lambda>s. \<not> isListening s \<and> \<not> m_listener_available s)))"
  by code_simp

text \<open>The answers of a mock that stands for a connection, and of one that listens.\<close>

definition test_connection :: answers where
  "test_connection = no_answers\<lparr>on_connect := True, on_receive := ERROR_NOTHING_RECEIVED,
     on_isConnected := True, on_peerIpAddress := ''192.168.1.10'', on_peerPort := 4200,
     on_peerName := ''test''\<rparr>"

definition test_listener :: MockSocket where
  "test_listener = MockSocket
     (no_answers\<lparr>on_listen := True, on_isListener := True, on_isListening := True\<rparr>)
     [MockSocket test_connection []]"

definition is_test_peer :: "Peer \<Rightarrow> bool" where
  "is_test_peer pr \<longleftrightarrow> Peer_isValid pr \<and> 1 \<le> Peer_id pr \<and> Peer_ipAddress pr = ''192.168.1.10'' \<and>
     Peer_port pr = 4200 \<and> Peer_hostName pr = ''test''"

text \<open>\<^verbatim>\<open>canAccept\<close>: the callback was called with the peer, which is the latest and the only one.\<close>

fun accepted_peer :: "event list \<Rightarrow> Peer" where
  "accepted_peer (NewPeerConnected c pp # es) = Some pp"
| "accepted_peer (e # es) = accepted_peer es"
| "accepted_peer [] = None"

lemma canAccept:
  "ensures (test_run ([Call (SetListener (Inr test_listener)), Call (OnAccept (Some 1)),
       Call (OnListenError (Some 2)), Call (DoListen 5432 IPV4)] @ replicate 10 Listen_thread) test_start)
     (\<lambda>s. length (events s) = 1 \<and> is_test_peer (accepted_peer (events s)) \<and>
       ensures (latestPeer s) (\<lambda>p. Peer_eq p (accepted_peer (events s))) \<and> length (allPeers s) = 1)"
  by code_simp

text \<open>\<^verbatim>\<open>canConnect\<close>: a node told to create mocks connects, and its latest peer is that connection.\<close>

definition test_connect :: "answers \<Rightarrow> (socket + MockSocket, lw) action list" where
  "test_connect r =
     [Call (OnConnect (Some 1)), Call (SetSocketCreateFunction (Some (Pair (Some (Inr (MockSocket r [])))))),
      Call (ConnectTo ''192.168.1.10'' 4200)] @ replicate 7 Connect_thread @ replicate 7 Listen_thread"

lemma canConnect:
  "ensures (test_run (test_connect test_connection) test_start)
     (\<lambda>s. ensures (latestPeer s) is_test_peer)"
  by code_simp

text \<open>\<^verbatim>\<open>canReceive\<close>: \<open>receive\<close> returns \<open>OK\<close>, the default, and the callback is called, without data.\<close>

lemma canReceive:
  "ensures (test_run (Call (OnReceive (Some 2)) #
       test_connect (test_connection\<lparr>on_receive := RR_OK\<rparr>)) test_start)
     (\<lambda>s. (case events s of
        ConnectedToNewPeer c pp # Received k qq d # es \<Rightarrow>
          c = 1 \<and> k = 2 \<and> is_test_peer (Some pp) \<and> qq = pp \<and> d = []
      | _ \<Rightarrow> False))"
  by code_simp

text \<open>\<^verbatim>\<open>canSend\<close>: data sent to the latest peer is reported as sent, with its size.\<close>

lemma canSend:
  "ensures (test_run (Call (OnSend (Some 2)) # test_connect (test_connection\<lparr>on_send := 5\<rparr>)) test_start)
     (\<lambda>s. ensures (latestPeer s) (\<lambda>pr.
       ensures (test_run (Call (SendData pr (map of_char ''hello'')) # replicate 2 Send_thread) s)
         (\<lambda>s. (case last (events s) of Sent k pp n \<Rightarrow> k = 2 \<and> n = 5 \<and> Some pp = pr | _ \<Rightarrow> False))))"
  by code_simp

end
