(* ===== verification/Streams.thy ===== *)
theory Streams
  imports SocketProps "HOL-Library.Sublist"
begin

text \<open>
  The two sockets of a connection: what one sends and the other receives, along any sequence of
  calls. Partial sends, full and empty buffers and errors are part of the sequence.
\<close>

section \<open>Sequences of calls\<close>

datatype transfer = Sends bytes | Receives

text \<open>The bytes \<open>send\<close> says it has sent, and the bytes \<open>receive\<close> has delivered.\<close>

fun exchange ::
  "'w Sys \<Rightarrow> transfer list \<Rightarrow> socket \<Rightarrow> socket \<Rightarrow> 'w \<Rightarrow> (bytes \<times> bytes) \<times> socket \<times> socket \<times> 'w" where
  "exchange S [] x y w = (([], []), x, y, w)"
| "exchange S (Sends d # ts) x y w =
     (let (n, x, w) = Socket_send S d x w;
          ((sent, received), r) = exchange S ts x y w
      in ((take (unat n) d @ sent, received), r))"
| "exchange S (Receives # ts) x y w =
     (let ((r, d), y, w) = Socket_receive S [] y w;
          ((sent, received), r') = exchange S ts x y w
      in ((sent, (if r = RR_OK then d else []) @ received), r'))"

section \<open>One call\<close>

definition open_end :: "socket \<Rightarrow> bool" where
  "open_end so \<longleftrightarrow> m_is_connected so \<and> \<not> m_is_listener so"

lemma send_stream:
  assumes T: "posix_transfer S" and P: "posix_stream S linked a b pipe" and "linked w"
    and "open_end x" and "m_socket_fd x = a" and len: "length d < 2 ^ 64"
    and c: "Socket_send S d x w = (n, x', w')"
  shows "linked w' \<and> pipe w' = pipe w @ take (unat n) d \<and> open_end x' \<and> m_socket_fd x' = a"
proof -
  obtain r w1 where s: "sys_send S a d w = (r, w1)" by (metis surj_pair)
  have r: "-1 \<le> r" "r \<le> int (length d)" using T s unfolding posix_transfer_def by blast+
  have p: "linked w1" "pipe w1 = pipe w @ take (nat r) d"
    using P s assms(3) unfolding posix_stream_def by blast+
  have x': "open_end x' \<and> m_socket_fd x' = a"
    using Socket_send_ok [OF c] assms(4,5) by (metis (full_types) open_end_def socket.select_convs
        socket.surjective socket.update_convs(8))
  show ?thesis
  proof (cases "0 \<le> r")
    case True
    then have "n = word_of_int r \<and> w' = w1"
      using c s assms(4,5) by (simp add: Socket_send_def open_end_def)
    moreover have "unat (word_of_int r :: u64) = nat r"
      using True r len by (simp add: unat_eq_nat_uint uint_word_of_int)
    ultimately show ?thesis using p x' by simp
  next
    case False
    then have "n = 0 \<and> w' = w1" using c s assms(4,5) by (simp add: Socket_send_def open_end_def)
    then show ?thesis using False p x' by simp
  qed
qed

lemma receive_stream:
  assumes T: "posix_transfer S" and P: "posix_stream S linked a b pipe" and "linked w"
    and "open_end y" and "m_socket_fd y = b" and buf: "unat (m_receive_buffer_size y) < 2 ^ 31"
    and c: "Socket_receive S [] y w = ((r, d), y', w')"
  shows "if r = ERROR_SYSTEM then \<not> m_is_connected y'
    else linked w' \<and> pipe w = (if r = RR_OK then d else []) @ pipe w' \<and> open_end y' \<and>
      m_socket_fd y' = b \<and> m_receive_buffer_size y' = m_receive_buffer_size y"
proof -
  obtain k bs w1 where s: "sys_recv S b (unat (m_receive_buffer_size y)) w = ((k, bs), w1)"
    by (metis surj_pair)
  have k: "-1 \<le> k" "k \<le> int (unat (m_receive_buffer_size y))"
    using T s unfolding posix_transfer_def by blast+
  have "int (unat (m_receive_buffer_size y)) < 2 ^ 31"
    using buf by (metis of_nat_less_iff of_nat_numeral of_nat_power)
  with k have range: "- (2 ^ 31) \<le> k" "k < 2 ^ 31" by auto
  have p: "linked w1" "pipe w = take (nat k) bs @ pipe w1"
    using P s assms(3) unfolding posix_stream_def by blast+
  have y: "m_is_connected y" "\<not> m_is_listener y" using assms(4) by (simp_all add: open_end_def)
  have rcv: "Socket_receive S [] y w =
    (case receive_class S k w1 of
       RR_OK \<Rightarrow> ((RR_OK, take (nat k) bs), y\<lparr>m_last_errno := 0\<rparr>, w1)
     | ERROR_SYSTEM \<Rightarrow>
         (let (y', w') = Socket_close S y w1
          in ((ERROR_SYSTEM, []), y'\<lparr>m_last_errno := sys_errno S w'\<rparr>, w'))
     | e \<Rightarrow> ((e, []), y\<lparr>m_last_errno := 0\<rparr>, w1))"
    by (rule Socket_receive_connected [OF y _ range]) (simp add: assms(5) s)
  have none: "take (nat k) bs = []" if "receive_class S k w1 \<noteq> RR_OK"
    using that by (auto simp: receive_class_def split: if_splits)
  show ?thesis
  proof (cases "receive_class S k w1 = ERROR_SYSTEM")
    case True
    with c rcv have "r = ERROR_SYSTEM" "\<not> m_is_connected y'" by (auto simp: Socket_close_eq)
    then show ?thesis by simp
  next
    case False
    then have "r = receive_class S k w1 \<and> y' = y\<lparr>m_last_errno := 0\<rparr> \<and> w' = w1 \<and>
        d = (if r = RR_OK then take (nat k) bs else [])"
      using c rcv by (cases "receive_class S k w1") auto
    with False none p y assms(5) show ?thesis by (simp add: open_end_def)
  qed
qed

section \<open>All calls\<close>

lemma exchange_closed:
  "\<not> m_is_connected y \<Longrightarrow> exchange S ts x y w = ((sent, received), x', y', w') \<Longrightarrow>
     received = [] \<and> \<not> m_is_connected y'"
proof (induction ts arbitrary: x y w sent received)
  case (Cons t ts)
  show ?case
  proof (cases t)
    case (Sends d)
    obtain n x1 w1 where c: "Socket_send S d x w = (n, x1, w1)" by (metis surj_pair)
    obtain se re rest where e: "exchange S ts x1 y w1 = ((se, re), rest)" by (metis surj_pair)
    have "received = re" "rest = (x', y', w')" using Cons.prems(2) Sends c e by simp_all
    with Cons.IH [OF Cons.prems(1)] e show ?thesis by simp
  next
    case Receives
    obtain r d y1 w1 where c: "Socket_receive S [] y w = ((r, d), y1, w1)" by (metis surj_pair)
    obtain se re rest where e: "exchange S ts x y1 w1 = ((se, re), rest)" by (metis surj_pair)
    have "r \<noteq> RR_OK \<and> \<not> m_is_connected y1"
      using c Cons.prems(1)
      by (auto simp: Socket_receive_def receive_body_def errno_defs Let_def split: if_splits)
    moreover from this have "received = re" "rest = (x', y', w')"
      using Cons.prems(2) Receives c e by simp_all
    ultimately show ?thesis using Cons.IH [of y1 x w1 se re] e by simp
  qed
qed simp

lemma exchange_stream:
  assumes T: "posix_transfer S" and P: "posix_stream S linked a b pipe"
  shows "linked w \<Longrightarrow> open_end x \<Longrightarrow> m_socket_fd x = a \<Longrightarrow> open_end y \<Longrightarrow> m_socket_fd y = b \<Longrightarrow>
    unat (m_receive_buffer_size y) < 2 ^ 31 \<Longrightarrow>
    \<forall>d. Sends d \<in> set ts \<longrightarrow> length d < 2 ^ 64 \<Longrightarrow>
    exchange S ts x y w = ((sent, received), x', y', w') \<Longrightarrow>
    prefix received (pipe w @ sent) \<and>
    (m_is_connected y' \<longrightarrow> received @ pipe w' = pipe w @ sent)"
proof (induction ts arbitrary: x y w sent received)
  case Nil
  then show ?case by simp
next
  case (Cons t ts)
  note pre = Cons.prems
  show ?case
  proof (cases t)
    case (Sends d)
    obtain n x1 w1 where c: "Socket_send S d x w = (n, x1, w1)" by (metis surj_pair)
    obtain se re rest where e: "exchange S ts x1 y w1 = ((se, re), rest)" by (metis surj_pair)
    have r: "sent = take (unat n) d @ se" "received = re" "rest = (x', y', w')"
      using pre(8) Sends c e by simp_all
    from pre(7) Sends have "length d < 2 ^ 64" by simp
    note s = send_stream [OF T P pre(1-3) this c]
    show ?thesis
      using Cons.IH [OF _ _ _ pre(4-6) _ e [unfolded r(3)]] s pre(7) r by auto
  next
    case Receives
    obtain k d y1 w1 where c: "Socket_receive S [] y w = ((k, d), y1, w1)" by (metis surj_pair)
    obtain se re rest where e: "exchange S ts x y1 w1 = ((se, re), rest)" by (metis surj_pair)
    have r: "sent = se" "received = (if k = RR_OK then d else []) @ re" "rest = (x', y', w')"
      using pre(8) Receives c e by simp_all
    note s = receive_stream [OF T P pre(1,4,5,6) c]
    show ?thesis
    proof (cases "k = ERROR_SYSTEM")
      case True
      with s have "\<not> m_is_connected y1" by simp
      from exchange_closed [OF this e [unfolded r(3)]] True r show ?thesis by simp
    next
      case False
      with s have y1: "linked w1" "open_end y1" "m_socket_fd y1 = b"
        "m_receive_buffer_size y1 = m_receive_buffer_size y"
        "pipe w = (if k = RR_OK then d else []) @ pipe w1" by simp_all
      from Cons.IH [OF y1(1) pre(2,3) y1(2,3) _ _ e [unfolded r(3)]] pre(6,7) y1(4,5) r
      show ?thesis by auto
    qed
  qed
qed

end
