(* ===== verification/Network.thy ===== *)
theory Network
  imports Streams Loopback DemoText
begin

text \<open>
  An executable operating system with connections between its own sockets, over IPv4 and IPv6:
  the tests of \<^verbatim>\<open>test/tst_socket.hpp\<close> run on it, and two nodes talk to each other. It satisfies
  the hypotheses of \<open>Posix\<close> on transfers, streams and \<open>errno\<close>.
\<close>

section \<open>The system\<close>

text \<open>
  Open descriptors, the addresses they are bound to, those that listen, connections not accepted
  yet (the listening descriptor and the other end), the ends of connections, the data that has
  arrived at an end, and the addresses \<open>getpeername\<close> reports.
\<close>

record nw =
  nw_fds :: "int list"
  nw_errno :: int
  nw_bound :: "(int \<times> bytes) list"
  nw_listening :: "int list"
  nw_backlog :: "(int \<times> int) list"
  nw_peer :: "(int \<times> int) list"
  nw_inbox :: "(int \<times> bytes) list"
  nw_addr :: "(int \<times> bytes) list"

definition nw_start :: nw where
  "nw_start = \<lparr>nw_fds = [], nw_errno = 1, nw_bound = [], nw_listening = [], nw_backlog = [],
     nw_peer = [], nw_inbox = [], nw_addr = []\<rparr>"

definition nw_fail :: "int \<Rightarrow> nw \<Rightarrow> nw" where
  "nw_fail e w = w\<lparr>nw_errno := e\<rparr>"

definition nw_fresh :: "nw \<Rightarrow> int" where
  "nw_fresh w = foldr max (nw_fds w @ map snd (nw_backlog w)) 2 + 1"

definition nw_open :: "nw \<Rightarrow> int \<times> nw" where
  "nw_open w = (let fd = nw_fresh w in (fd, w\<lparr>nw_fds := fd # nw_fds w\<rparr>))"

definition nw_close :: "int \<Rightarrow> nw \<Rightarrow> nw" where
  "nw_close fd w =
     (let w' = w\<lparr>nw_fds := removeAll fd (nw_fds w), nw_listening := removeAll fd (nw_listening w),
                 nw_bound := AList.delete fd (nw_bound w),
                 nw_backlog := filter (\<lambda>(l, e). l \<noteq> fd) (nw_backlog w),
                 nw_inbox := AList.delete fd (nw_inbox w)\<rparr>
      in if fd < 0 \<or> fd \<notin> set (nw_fds w) then nw_fail EBADF w' else w')"

text \<open>Addresses: the family, the port and the loopback address.\<close>

definition nw_sockaddr :: "bool \<Rightarrow> int \<Rightarrow> bytes" where
  "nw_sockaddr v6 port =
     (if v6 then [10, 0, word_of_int (port div 256), word_of_int (port mod 256)] @ replicate 19 0 @
        [1] @ replicate 4 0
      else sockaddr_in (word_of_int port) [127, 0, 0, 1])"

definition nw_info :: "bool \<Rightarrow> int \<Rightarrow> AddrInfo" where
  "nw_info v6 port = \<lparr>ai_family = (if v6 then AF_INET6 else AF_INET), ai_socktype = 1,
     ai_protocol = 6, ai_addr = nw_sockaddr v6 port\<rparr>"

definition nw_getaddrinfo ::
  "string option \<Rightarrow> string \<Rightarrow> AddrHints \<Rightarrow> nw \<Rightarrow> (int \<times> AddrInfo list) \<times> nw" where
  "nw_getaddrinfo host service hints w =
     (let port = int (digits_value service);
          families =
            (if host = Some ''127.0.0.1'' \<or> hint_family hints = AF_INET then [False]
             else if hint_family hints = AF_INET6 then [True] else [True, False])
      in if host = None \<or> host = Some ''127.0.0.1'' \<or> host = Some ''localhost''
         then ((0, map (\<lambda>v6. nw_info v6 port) families), w) else ((-2, []), w))"

text \<open>A connection needs a listener bound to the port; its end is created and put in line.\<close>

definition nw_connect :: "int \<Rightarrow> bytes \<Rightarrow> nw \<Rightarrow> int \<times> nw" where
  "nw_connect fd a w =
     (case find (\<lambda>l. map_option (take 4) (map_of (nw_bound w) l) = Some (take 4 a)) (nw_listening w) of
        None \<Rightarrow> (-1, nw_fail 111 w)
      | Some l \<Rightarrow>
          let e = nw_fresh w; client = nw_sockaddr (take 1 a = [10]) (40000 + fd)
          in (0, w\<lparr>nw_backlog := nw_backlog w @ [(l, e)],
                   nw_peer := (fd, e) # (e, fd) # AList.delete fd (AList.delete e (nw_peer w)),
                   nw_inbox := (fd, []) # (e, []) # AList.delete fd (AList.delete e (nw_inbox w)),
                   nw_addr := (fd, a) # (e, client) # nw_addr w\<rparr>))"

definition nw_accept :: "int \<Rightarrow> nw \<Rightarrow> int \<times> nw" where
  "nw_accept fd w =
     (case find (\<lambda>(l, e). l = fd) (nw_backlog w) of
        None \<Rightarrow> (-1, nw_fail EAGAIN w)
      | Some (l, e) \<Rightarrow>
          (e, w\<lparr>nw_backlog := filter (\<lambda>p. p \<noteq> (l, e)) (nw_backlog w), nw_fds := e # nw_fds w\<rparr>))"

definition nw_alive :: "nw \<Rightarrow> int \<Rightarrow> bool" where
  "nw_alive w e \<longleftrightarrow> e \<in> set (nw_fds w) \<or> e \<in> snd ` set (nw_backlog w)"

definition nw_waiting :: "nw \<Rightarrow> int \<Rightarrow> bytes" where
  "nw_waiting w fd = (case map_of (nw_inbox w) fd of None \<Rightarrow> [] | Some bs \<Rightarrow> bs)"

definition nw_send :: "int \<Rightarrow> bytes \<Rightarrow> nw \<Rightarrow> int \<times> nw" where
  "nw_send fd d w =
     (case map_of (nw_peer w) fd of
        None \<Rightarrow> (-1, nw_fail 107 w)
      | Some e \<Rightarrow>
          if nw_alive w e
          then (int (length d), w\<lparr>nw_inbox := AList.update e (nw_waiting w e @ d) (nw_inbox w)\<rparr>)
          else (-1, nw_fail 32 w))"

definition nw_recv :: "int \<Rightarrow> nat \<Rightarrow> nw \<Rightarrow> (int \<times> bytes) \<times> nw" where
  "nw_recv fd n w =
     (case nw_waiting w fd of
        [] \<Rightarrow> (case map_of (nw_peer w) fd of
                None \<Rightarrow> ((-1, []), nw_fail 107 w)
              | Some e \<Rightarrow> if nw_alive w e then ((-1, []), nw_fail EAGAIN w) else ((0, []), w))
      | b # bs \<Rightarrow>
          ((int (length (take n (b # bs))), take n (b # bs)),
           w\<lparr>nw_inbox := AList.update fd (drop n (b # bs)) (nw_inbox w)\<rparr>))"

definition nw_getpeername :: "int \<Rightarrow> nat \<Rightarrow> nw \<Rightarrow> (int \<times> bytes \<times> nat) \<times> nw" where
  "nw_getpeername fd n w =
     (case map_of (nw_addr w) fd of
        None \<Rightarrow> ((-1, [], 0), nw_fail 107 w)
      | Some a \<Rightarrow> ((0, take n a, length a), w))"

definition dotted :: "bytes \<Rightarrow> string" where
  "dotted a = concat (map (\<lambda>b. to_string_nat (unat b) @ ''.'') (butlast a)) @
     to_string_nat (unat (last a))"

definition network :: "nw Sys" where
  "network =
     \<lparr>sys_errno = nw_errno, sys_close = nw_close,
      sys_fcntl_getfl = (\<lambda>fd w. (2, w)), sys_fcntl_setfl = (\<lambda>fd fl w. (0, w)),
      sys_getaddrinfo = nw_getaddrinfo, sys_freeaddrinfo = (\<lambda>ais w. w),
      sys_socket = (\<lambda>f t p w. nw_open w), sys_setsockopt_reuseaddr = (\<lambda>fd y w. (0, w)),
      sys_bind = (\<lambda>fd a w. (0, w\<lparr>nw_bound := AList.update fd a (nw_bound w)\<rparr>)),
      sys_listen = (\<lambda>fd b w. (0, w\<lparr>nw_listening := fd # nw_listening w\<rparr>)),
      sys_connect = nw_connect, sys_getsockopt_error = (\<lambda>fd w. ((0, 0), w)),
      sys_accept = nw_accept, sys_recv = nw_recv, sys_send = nw_send,
      sys_getpeername = nw_getpeername,
      sys_inet_ntop = (\<lambda>af a. if af = AF_INET then dotted a else ''::1''),
      sys_getnameinfo = (\<lambda>a w. ((0, ''localhost''), w)),
      sys_gethostname = (\<lambda>n w. ((0, ''host''), w)), sys_strerror = (\<lambda>e. ''error''),
      sys_sleep = (\<lambda>ms w. w)\<rparr>"

section \<open>It is a POSIX system\<close>

lemmas nw_defs = nw_open_def nw_close_def nw_accept_def nw_send_def nw_recv_def nw_connect_def
  nw_getaddrinfo_def nw_fail_def Let_def

lemma network_transfer: "posix_transfer network"
  by (auto simp: posix_transfer_def network_def nw_defs split: list.splits option.splits if_splits)

lemma network_errno: "posix_errno network"
  by (auto simp: posix_errno_def posix_keeps_def network_def nw_defs
      split: list.splits option.splits if_splits)

definition nw_linked :: "int \<Rightarrow> int \<Rightarrow> nw \<Rightarrow> bool" where
  "nw_linked a b w \<longleftrightarrow> map_of (nw_peer w) a = Some b \<and> b \<in> set (nw_fds w)"

lemma take_min_length [simp]: "take (min (Suc (length xs)) n) (x # xs) = take n (x # xs)"
  by (simp add: min_def)

lemma network_stream: "posix_stream network (nw_linked a b) a b (\<lambda>w. nw_waiting w b)"
  by (auto simp: posix_stream_def network_def nw_linked_def nw_defs nw_alive_def nw_waiting_def
      update_conv' split: list.splits option.splits if_splits)

section \<open>The tests of the socket\<close>

text \<open>
  Server, client and the accepted socket, as every test sets them up (the tests use port 23100;
  a small number keeps the evaluation short).
\<close>

definition connected ::
  "IpVersion \<Rightarrow> string \<Rightarrow> ((bool \<times> bool) \<times> socket \<times> socket \<times> socket \<times> nw) option" where
  "connected ver host =
     (let (listenOk, server, w) = Socket_listen network 7 ver Socket_new nw_start;
          (connectOk, client, w) = Socket_connect network host 7 Socket_new w;
          (peer, server, w) = Socket_accept network server w
      in map_option (\<lambda>peer. ((listenOk, connectOk), server, client, peer, w)) peer)"

text \<open>\<^verbatim>\<open>canListenAndConnectIPv4\<close> and \<^verbatim>\<open>canListenAndConnectIPv6\<close>.\<close>

definition listen_and_connect :: "IpVersion \<Rightarrow> string \<Rightarrow> bool" where
  "listen_and_connect ver host =
     ensures (connected ver host) (\<lambda>((listenOk, connectOk), server, client, peer, w).
       listenOk \<and> Socket_isListener server \<and> Socket_isListening server \<and>
       Socket_listenPort server = 7 \<and> connectOk \<and> Socket_isConnected client \<and>
       \<not> Socket_isListener client \<and> \<not> Socket_isListening client \<and> Socket_isConnected peer \<and>
       \<not> Socket_isListener peer \<and> \<not> Socket_isListening peer \<and>
       (let (client, w) = Socket_close network client w;
            (peer, w) = Socket_close network peer w;
            (server, w) = Socket_close network server w
        in \<not> Socket_isConnected client \<and> \<not> Socket_isConnected peer \<and>
           \<not> Socket_isListening server \<and> \<not> Socket_isListener server))"

lemma canListenAndConnect:
  "listen_and_connect IPV4 ''127.0.0.1''" "listen_and_connect IPV6 ''localhost''"
  by code_simp+

text \<open>\<^verbatim>\<open>canSendAndReceiveIpV4\<close> and \<^verbatim>\<open>canSendAndReceiveIpV6\<close>.\<close>

definition test_data :: bytes where
  "test_data = [0xAA, 0xBB, 0xCC, 0xDD, 0xEE, 0xFF]"

definition send_and_receive :: "IpVersion \<Rightarrow> string \<Rightarrow> bool" where
  "send_and_receive ver host =
     ensures (connected ver host) (\<lambda>(oks, server, client, peer, w).
       let (sent, peer, w) = Socket_send network test_data peer w;
           ((res1, recv_data), client, w) = Socket_receive network [] client w;
           ((res2, recv_data2), client, w) = Socket_receive network recv_data client w;
           (peer, w) = Socket_close network peer w;
           ((res3, recv_data3), client, w) = Socket_receive network recv_data2 client w
       in sent \<noteq> 0 \<and> res1 = RR_OK \<and> recv_data = test_data \<and> res2 = ERROR_NOTHING_RECEIVED \<and>
          res3 = ERROR_PEER_DISCONNECTED)"

lemma canSendAndReceive:
  "send_and_receive IPV4 ''127.0.0.1''" "send_and_receive IPV6 ''localhost''"
  by code_simp+

text \<open>
  \<^verbatim>\<open>canShowIpAndPortIpV4\<close> holds; \<^verbatim>\<open>canShowIpAndPortIpV6\<close> asks for an address that is read past the
  end of the object that should hold it.
\<close>

definition shows_address :: "socket \<Rightarrow> nw \<Rightarrow> bool" where
  "shows_address so w =
     (ensures (Socket_peerIpAddress network so w) (\<lambda>(ip, w). ip \<noteq> []) \<and>
      ensures (Socket_peerPort network so w) (\<lambda>(port, w). port \<noteq> 0) \<and>
      ensures (Socket_peerName network so w) (\<lambda>(name, w). name \<noteq> []))"

lemma canShowIpAndPortIpV4:
  "ensures (connected IPV4 ''127.0.0.1'')
     (\<lambda>(oks, server, client, peer, w). shows_address client w \<and> shows_address peer w)"
  by code_simp

lemma canShowIpAndPortIpV6_undefined:
  "ensures (connected IPV6 ''localhost'') (\<lambda>(oks, server, client, peer, w).
     Socket_peerIpAddress network client w = None \<and> Socket_peerIpAddress network peer w = None)"
  by code_simp

section \<open>Two nodes\<close>

text \<open>
  Two nodes in one world: each action is one of the left (\<open>Inl\<close>) or the right node, and the other
  one sees what it did to the world.
\<close>

type_synonym nnode = "(socket, nw) node"

definition nw_clock :: "int \<Rightarrow> nw \<Rightarrow> int \<times> nw" where
  "nw_clock ms w = (max 1 (ms * 1000000), w)"

abbreviation nw_vt :: "(socket, nw) ISocket" where
  "nw_vt \<equiv> Socket_vt network"

fun talk ::
  "((socket, nw) action + (socket, nw) action) list \<Rightarrow> nnode \<times> nnode \<Rightarrow> (nnode \<times> nnode) option" where
  "talk [] p = Some p"
| "talk (Inl x # xs) (l, r) =
     do { l \<leftarrow> perform nw_vt nw_clock x l; talk xs (l, r\<lparr>world := world l\<rparr>) }"
| "talk (Inr x # xs) (l, r) =
     do { r \<leftarrow> perform nw_vt nw_clock x r; talk xs (l\<lparr>world := world r\<rparr>, r) }"

lemma talk_reachable:
  "talk xs (l, r) = Some (l', r') \<Longrightarrow> list_all (case_sum action_allowed action_allowed) xs \<Longrightarrow>
     reachable nw_vt nw_clock l \<Longrightarrow> reachable nw_vt nw_clock r \<Longrightarrow>
     reachable nw_vt nw_clock l' \<and> reachable nw_vt nw_clock r'"
proof (induction xs arbitrary: l r)
  case (Cons x xs)
  show ?case
  proof (cases x)
    case (Inl y)
    with Cons.prems(1) obtain l1 where l1: "perform nw_vt nw_clock y l = Some l1"
      "talk xs (l1, r\<lparr>world := world l1\<rparr>) = Some (l', r')" by (auto simp: bind_eq_Some_conv)
    have "reachable nw_vt nw_clock l1" "reachable nw_vt nw_clock (r\<lparr>world := world l1\<rparr>)"
      using Cons.prems(2-4) Inl
      by (auto intro: reachable.step [OF _ perform_step [OF l1(1)]] reachable.step [OF _ world_step])
    with Cons.IH [OF l1(2)] Cons.prems(2) show ?thesis by simp
  next
    case (Inr y)
    with Cons.prems(1) obtain r1 where r1: "perform nw_vt nw_clock y r = Some r1"
      "talk xs (l\<lparr>world := world r1\<rparr>, r1) = Some (l', r')" by (auto simp: bind_eq_Some_conv)
    have "reachable nw_vt nw_clock r1" "reachable nw_vt nw_clock (l\<lparr>world := world r1\<rparr>)"
      using Cons.prems(2-4) Inr
      by (auto intro: reachable.step [OF _ perform_step [OF r1(1)]] reachable.step [OF _ world_step])
    with Cons.IH [OF r1(2)] Cons.prems(2) show ?thesis by simp
  qed
qed simp

definition nw_node :: nnode where
  "nw_node = TcpNodePrivate_new defaultNewSocket IPV4 (\<lambda>_. None) 0 nw_start 0"

lemma nw_node_reachable: "reachable nw_vt nw_clock nw_node"
proof (rule reachable.init)
  show "initial nw_node"
    unfolding nw_node_def by (rule initialI) (simp_all add: creates_sockets_def)
qed

text \<open>The left node listens and the right one connects to it; then they exchange greetings.\<close>

definition meeting :: "((socket, nw) action + (socket, nw) action) list" where
  "meeting =
     map Inl ([Call (OnAccept (Some 1)), Call (OnReceive (Some 2)), Call (OnDisconnect (Some 3)),
               Call (DoListen 5 IPV4)] @ replicate 4 Listen_thread) @
     map Inr ([Call (OnConnect (Some 4)), Call (OnReceive (Some 5)), Call (OnClosedConnection (Some 6)),
               Call (ConnectTo ''127.0.0.1'' 5)] @ replicate 5 Connect_thread) @
     map Inl (replicate 6 Listen_thread)"

definition greetings :: "Peer \<Rightarrow> Peer \<Rightarrow> ((socket, nw) action + (socket, nw) action) list" where
  "greetings to_left to_right =
     map Inr [Call (SendData to_left (stringToBytes ''hello'')), Send_thread] @
     map Inl (replicate 4 Listen_thread) @
     map Inl [Call (SendData to_right (stringToBytes ''hi'')), Send_thread] @
     map Inr (replicate 4 Listen_thread @ [Call DisconnectAll] @ replicate 4 Listen_thread) @
     map Inl (replicate 8 Listen_thread)"

definition conversation :: "(nnode \<times> nnode) option" where
  "conversation =
     do { (l, r) \<leftarrow> talk meeting (nw_node, nw_node);
          to_left \<leftarrow> latestPeer r;
          to_right \<leftarrow> latestPeer l;
          talk (greetings to_left to_right) (l, r) }"

lemma conversation_reachable:
  assumes "conversation = Some (l, r)"
  shows "reachable nw_vt nw_clock l \<and> reachable nw_vt nw_clock r"
proof -
  obtain l1 r1 p q where 1: "talk meeting (nw_node, nw_node) = Some (l1, r1)"
    and 2: "talk (greetings p q) (l1, r1) = Some (l, r)"
    using assms by (auto simp: conversation_def bind_eq_Some_conv)
  have "list_all (case_sum action_allowed action_allowed) meeting"
    "list_all (case_sum action_allowed action_allowed) (greetings p q)"
    by (simp_all add: meeting_def greetings_def list_all_iff)
  with talk_reachable [OF 1 _ nw_node_reachable nw_node_reachable] talk_reachable [OF 2]
  show ?thesis by blast
qed

fun heard :: "event list \<Rightarrow> bytes list" where
  "heard [] = []"
| "heard (Received c pp d # es) = d # heard es"
| "heard (_ # es) = heard es"

lemma conversation_runs:
  "ensures conversation (\<lambda>(l, r). heard (events l) = [stringToBytes ''hello''] \<and>
     heard (events r) = [stringToBytes ''hi''] \<and>
     length (events l) = 3 \<and> length (events r) = 3 \<and> m_peers l = [] \<and> m_peers r = [])"
  by code_simp

end
