(* ===== verification/WorkQueues.thy ===== *)
theory WorkQueues
  imports NodeSpec "HOL-Library.Sublist"
begin

text \<open>
  The two work queues of a node along a schedule, against the queues they should be: what the
  owner's calls put in (\<open>put_data\<close>, \<open>put_target\<close>), what the threads take out (\<open>take_data\<close>,
  \<open>take_target\<close>), and the reports of sent data.
\<close>

section \<open>What a step puts in and takes out\<close>

definition put_data :: "('s, 'w) action \<Rightarrow> ('s, 'w) node \<Rightarrow> OutBuffer list" where
  "put_data x s =
     (case x of
        Call (SendData pr dat) \<Rightarrow> if peerExists (Peer_id pr) s then [(Peer_id pr, dat)] else []
      | _ \<Rightarrow> [])"

definition put_target :: "('s, 'w) action \<Rightarrow> ('s, 'w) node \<Rightarrow> IpAndPort list" where
  "put_target x s = (case x of Call (ConnectTo ip port) \<Rightarrow> [(ip, port)] | _ \<Rightarrow> [])"

text \<open>The send thread handles the front of the list, the connect thread drops a target.\<close>

definition handles_front :: "('s, 'w) node \<Rightarrow> bool" where
  "handles_front s \<longleftrightarrow>
     m_sendThread s = S_Work \<or>
     m_sendThread s = S_Loop \<and> m_send_thread_running s \<and> 0 < to_send_count s"

definition take_data :: "('s, 'w) action \<Rightarrow> ('s, 'w) node \<Rightarrow> OutBuffer list" where
  "take_data x s =
     (case x of Send_thread \<Rightarrow> if handles_front s then take 1 (m_data_to_send s) else [] | _ \<Rightarrow> [])"

definition take_target :: "('s, 'w) action \<Rightarrow> ('s, 'w) node \<Rightarrow> IpAndPort list" where
  "take_target x s =
     (case x of
        Connect_thread \<Rightarrow> if m_connectThread s = C_Pop then take 1 (m_potential_peers s) else []
      | _ \<Rightarrow> [])"

text \<open>What the steps of a schedule contribute, one after the other.\<close>

fun along ::
  "(('s, 'w) action \<Rightarrow> ('s, 'w) node \<Rightarrow> 'a list) \<Rightarrow> ('s, 'w) ISocket \<Rightarrow>
     (int \<Rightarrow> 'w \<Rightarrow> int \<times> 'w) \<Rightarrow> ('s, 'w) action list \<Rightarrow> ('s, 'w) node \<Rightarrow> 'a list" where
  "along g V T [] s = []"
| "along g V T (x # xs) s =
     g x s @ (case perform V T x s of None \<Rightarrow> [] | Some s' \<Rightarrow> along g V T xs s')"

text \<open>The ids of the peers that data was reported sent to, in the order of the reports.\<close>

fun sent_to :: "event list \<Rightarrow> u64 list" where
  "sent_to [] = []"
| "sent_to (Sent c pp n # es) = m_connection_id pp # sent_to es"
| "sent_to (_ # es) = sent_to es"

lemma sent_to_append [simp]: "sent_to (es @ es') = sent_to es @ sent_to es'"
  by (induction es rule: sent_to.induct) simp_all

section \<open>Frames\<close>

definition outbox :: "('s, 'w) node \<Rightarrow> OutBuffer list \<times> IpAndPort list \<times> u64 list" where
  "outbox s = (m_data_to_send s, m_potential_peers s, sent_to (events s))"

lemma outbox_updates [simp]:
  "outbox (s\<lparr>world := w\<rparr>) = outbox s" "outbox (s\<lparr>objects := h\<rparr>) = outbox s"
  "outbox (s\<lparr>next_object := n\<rparr>) = outbox s" "outbox (s\<lparr>m_listener := l\<rparr>) = outbox s"
  "outbox (s\<lparr>m_portnumber := p\<rparr>) = outbox s" "outbox (s\<lparr>m_ip_version := v\<rparr>) = outbox s"
  "outbox (s\<lparr>m_connect_thread_running := b\<rparr>) = outbox s"
  "outbox (s\<lparr>m_send_thread_running := b\<rparr>) = outbox s"
  "outbox (s\<lparr>m_listen_thread_running := b\<rparr>) = outbox s"
  "outbox (s\<lparr>m_listening_enabled := b\<rparr>) = outbox s"
  "outbox (s\<lparr>m_destructor_called := b\<rparr>) = outbox s"
  "outbox (s\<lparr>m_listener_available := b\<rparr>) = outbox s"
  "outbox (s\<lparr>m_wakeup_listen_thread := b\<rparr>) = outbox s"
  "outbox (s\<lparr>m_changing_listener := b\<rparr>) = outbox s"
  "outbox (s\<lparr>m_connect_timeout := i\<rparr>) = outbox s" "outbox (s\<lparr>m_node_sleep_time := i\<rparr>) = outbox s"
  "outbox (s\<lparr>m_connectThread := cp\<rparr>) = outbox s" "outbox (s\<lparr>m_sendThread := sp\<rparr>) = outbox s"
  "outbox (s\<lparr>m_listenThread := lp\<rparr>) = outbox s" "outbox (s\<lparr>m_callbacks := c\<rparr>) = outbox s"
  "outbox (s\<lparr>m_createNewSocketFunction := f\<rparr>) = outbox s" "outbox (s\<lparr>m_peers := ps\<rparr>) = outbox s"
  "outbox (s\<lparr>m_connection_counter := k\<rparr>) = outbox s" "outbox (s\<lparr>m_owner := op\<rparr>) = outbox s"
  by (simp_all add: outbox_def)

lemma outbox_store [simp]: "outbox (store_object a so w s) = outbox s"
  by (simp add: store_object_def)

lemma outbox_update_peer [simp]: "outbox (update_peer k f s) = outbox s"
  by (simp add: update_peer_def)

lemma outbox_emit: "sent_to [e] = [] \<Longrightarrow> outbox (emit e s) = outbox s"
  by (simp add: outbox_def emit_def)

lemma outbox_fire: "(\<And>k. sent_to [e k] = []) \<Longrightarrow> outbox (fire c e s) = outbox s"
  by (simp add: fire_def outbox_emit split: option.split)

lemma outbox_notify [simp]: "outbox (notify_closed temp s) = outbox s"
  by (simp add: notify_closed_def Let_def outbox_fire)

lemma outbox_new [simp]: "new_object so s = (a, s') \<Longrightarrow> outbox s' = outbox s"
  by (auto simp: new_object_def)

lemma outbox_call: "call p f s = Some (x, s') \<Longrightarrow> outbox s' = outbox s"
  by (auto simp: call_def bind_eq_Some_conv split_beta)

lemma outbox_call_local: "call_local p f s = Some (x, s') \<Longrightarrow> outbox s' = outbox s"
  unfolding call_local_def by (rule outbox_call)

lemma outbox_query: "call_query p f s = Some (x, s') \<Longrightarrow> outbox s' = outbox s"
  by (auto simp: call_query_def bind_eq_Some_conv)

lemma outbox_delete: "delete_object V p s = Some s' \<Longrightarrow> outbox s' = outbox s"
  by (auto simp: delete_object_def bind_eq_Some_conv split: option.splits)

lemma outbox_message: "createErrorMessage V h b p s = Some (m, s') \<Longrightarrow> outbox s' = outbox s"
  by (auto simp: createErrorMessage_def Let_def bind_eq_Some_conv dest!: outbox_call_local
      split: if_splits)

lemma outbox_create: "create_socket s = (p, s') \<Longrightarrow> outbox s' = outbox s"
  by (auto simp: create_socket_def Let_def new_object_def split: prod.splits option.splits)

lemma outbox_make_peer: "make_peer V a k s = Some (pp, s') \<Longrightarrow> outbox s' = outbox s"
  by (auto simp: make_peer_def Let_def bind_eq_Some_conv dest!: outbox_query)

lemma outbox_destroy: "destroySocket V pp s = Some (pp', s') \<Longrightarrow> outbox s' = outbox s"
  by (auto simp: destroySocket_def bind_eq_Some_conv dest!: outbox_call outbox_delete
      split: if_splits)

lemmas outbox_dests = outbox_call outbox_call_local outbox_delete outbox_message outbox_make_peer
  outbox_destroy

section \<open>The listen thread\<close>

lemma outbox_start_listening: "start_listening V s = Some s' \<Longrightarrow> outbox s' = outbox s"
  by (auto simp: start_listening_def Let_def bind_eq_Some_conv outbox_emit dest!: outbox_dests
      split: if_splits option.splits)

lemma outbox_accepted_new: "accepted_new V so s = Some s' \<Longrightarrow> outbox s' = outbox s"
  by (cases "new_object so s")
    (auto simp: accepted_new_def Let_def bind_eq_Some_conv outbox_fire dest!: outbox_dests)

lemma outbox_accepted_none: "accepted_none V s = Some s' \<Longrightarrow> outbox s' = outbox s"
  by (auto simp: accepted_none_def bind_eq_Some_conv outbox_emit dest!: outbox_dests
      split: if_splits option.splits)

lemma outbox_accept: "accept_peer V s = Some s' \<Longrightarrow> outbox s' = outbox s"
  by (auto simp: accept_peer_def bind_eq_Some_conv
      dest!: outbox_accepted_new outbox_accepted_none outbox_dests split: if_splits option.splits)

lemma outbox_fail_peer: "fail_peer V k b p s = Some s' \<Longrightarrow> outbox s' = outbox s"
  by (auto simp: fail_peer_def Let_def bind_eq_Some_conv dest!: outbox_dests)

lemma outbox_received:
  assumes "(case recres of
       RR_OK \<Rightarrow> Some (fire (m_callbackReceived (m_callbacks s)) (\<lambda>c. Received c pp recdata) s)
     | ERROR_NO_CONNECTION \<Rightarrow> fail_peer V k ''Socket is not connected.'' None s
     | ERROR_IS_LISTENER \<Rightarrow> fail_peer V k ''Socket is a listener.'' None s
     | ERROR_PEER_DISCONNECTED \<Rightarrow>
         Some (update_peer k (scheduleDelete PEER_DISCONNECTED_THEMSELF) s)
     | ERROR_SYSTEM \<Rightarrow> fail_peer V k ''Failed to receive.'' p s
     | ERROR_NOTHING_RECEIVED \<Rightarrow> Some s) = Some s'"
  shows "outbox s' = outbox s"
  using assms by (cases recres) (auto simp: outbox_fire dest!: outbox_fail_peer)

lemma outbox_receive_peer: "receive_peer V k s = Some s' \<Longrightarrow> outbox s' = outbox s"
  by (auto simp: receive_peer_def Let_def bind_eq_Some_conv
      dest!: outbox_received outbox_fail_peer outbox_dests split: if_splits)

lemma outbox_receive_loop: "receive_loop V ks s = Some s' \<Longrightarrow> outbox s' = outbox s"
proof (induction ks arbitrary: s)
  case (Cons k ks)
  then show ?case by (auto simp: bind_eq_Some_conv dest: outbox_receive_peer)
qed simp

lemma outbox_delete_next: "delete_next V s = Some s' \<Longrightarrow> outbox s' = outbox s"
  by (auto simp: delete_next_def Let_def bind_eq_Some_conv dest!: outbox_dests
      split: option.splits prod.splits)

lemma outbox_listen: "listenThread_step V s = Some s' \<Longrightarrow> outbox s' = outbox s"
  by (auto simp: listenThread_step_def stop_listening_def poll_def Let_def bind_eq_Some_conv
      outbox_fire dest!: outbox_start_listening outbox_accept outbox_receive_loop outbox_delete_next
      outbox_dests split: listen_pc.splits)

section \<open>The connect thread\<close>

lemma outbox_begin: "begin_connect i n s = Some s' \<Longrightarrow> outbox s' = outbox s"
  by (auto simp: begin_connect_def Let_def bind_eq_Some_conv dest!: outbox_create
      split: prod.splits list.splits)

lemma outbox_try: "try_connect V T a ip port e s = Some (r, s') \<Longrightarrow> outbox s' = outbox s"
  by (auto simp: try_connect_def Let_def bind_eq_Some_conv split_beta dest!: outbox_dests)

lemma outbox_failed: "connect_failed V a ip port s = Some s' \<Longrightarrow> outbox s' = outbox s"
  by (auto simp: connect_failed_def bind_eq_Some_conv outbox_emit dest!: outbox_dests
      split: option.splits)

lemma outbox_done: "connect_done V a s = Some (pr, s') \<Longrightarrow> outbox s' = outbox s"
  by (auto simp: connect_done_def Let_def bind_eq_Some_conv dest!: outbox_dests)

lemma outbox_connect:
  assumes "connectThread_step V T s = Some s'"
  shows "m_data_to_send s' = m_data_to_send s \<and> sent_to (events s') = sent_to (events s) \<and>
    take_target Connect_thread s @ m_potential_peers s' = m_potential_peers s"
proof (cases "m_connectThread s = C_Pop")
  case True
  with assms show ?thesis
    by (auto simp: connectThread_step_def pop_potential_peer_def take_target_def bind_eq_Some_conv
        split: list.splits)
next
  case False
  with assms have "outbox s' = outbox s"
    by (auto simp: connectThread_step_def connect_notify_def Let_def bind_eq_Some_conv outbox_fire
        dest!: outbox_begin outbox_try outbox_failed outbox_done split: connect_pc.splits if_splits)
  with False show ?thesis by (simp add: outbox_def take_target_def)
qed

section \<open>The send thread\<close>

text \<open>What is reported about the front of the list, if it is reported sent.\<close>

lemma send_front_outbox:
  assumes f: "send_front V s = Some s'" and inv: "peers_inv (m_peers s)"
  shows "m_potential_peers s' = m_potential_peers s \<and>
    take 1 (m_data_to_send s) @ m_data_to_send s' = m_data_to_send s \<and>
    (sent_to (events s') = sent_to (events s) \<or>
     sent_to (events s') = sent_to (events s) @ map fst (take 1 (m_data_to_send s)))"
proof (cases "m_data_to_send s")
  case Nil
  with f show ?thesis by (simp add: send_front_def)
next
  case (Cons e rest)
  obtain k dat where e: "e = (k, dat)" by (cases e)
  define R :: "('a, 'b) node \<Rightarrow> bool" where
    "R s1 \<longleftrightarrow> m_potential_peers s1 = m_potential_peers s \<and>
      (sent_to (events s1) = sent_to (events s) \<or> sent_to (events s1) = sent_to (events s) @ [k])" for s1
  have keep: "R s1" if "outbox s1 = outbox s" for s1 using that by (simp add: R_def outbox_def)
  have pop [simp]: "R (s1\<lparr>m_data_to_send := d\<rparr>) = R s1" for s1 d by (simp add: R_def)
  have sent: "R (fire c (\<lambda>c. Sent c pp n) s1)"
    if "map_of (m_peers s) k = Some pp" "outbox s1 = outbox s" for c pp n s1
    using inv map_of_SomeD [OF that(1)] that(2)
    by (auto simp: R_def outbox_def peers_inv_def fire_def emit_def split: option.split)
  have "R s'"
  proof (cases "map_of (m_peers s) k")
    case None
    with f Cons e show ?thesis
      by (auto simp: send_front_def bind_eq_Some_conv keep outbox_emit dest!: outbox_message
          split: option.splits)
  next
    case (Some pp)
    show ?thesis
    proof (cases "m_to_be_deleted pp")
      case True
      with Some f Cons e show ?thesis by (auto simp: send_front_def keep)
    next
      case False
      obtain n s1 where c: "call (m_socket pp) (vsend V dat) s = Some (n, s1)"
        using False Some f Cons e by (auto simp: send_front_def bind_eq_Some_conv)
      note c1 = outbox_call [OF c]
      show ?thesis
        using False Some f Cons e c
        by (auto simp: send_front_def bind_eq_Some_conv keep c1 sent [OF Some c1]
            dest!: outbox_message split: if_splits)
    qed
  qed
  with send_front_pops [OF f] Cons e show ?thesis by (simp add: R_def)
qed

lemma outbox_send:
  assumes "sendThread_step V s = Some s'" and "peers_inv (m_peers s)" and "sendThread_enabled s"
  shows "m_potential_peers s' = m_potential_peers s \<and>
    take_data Send_thread s @ m_data_to_send s' = m_data_to_send s \<and>
    (sent_to (events s') = sent_to (events s) \<or>
     sent_to (events s') = sent_to (events s) @ map fst (take_data Send_thread s))"
  using assms
  by (auto simp: sendThread_step_def take_data_def handles_front_def sendThread_enabled_def
      bind_eq_Some_conv word_gt_0 split: send_pc.splits if_splits dest!: send_front_outbox)

section \<open>The owner\<close>

lemma outbox_connectTo:
  "connectTo ip port s = Some s' \<Longrightarrow>
     outbox s' = (m_data_to_send s, m_potential_peers s @ [(ip, port)], sent_to (events s))"
  by (auto simp: connectTo_def startListenThreadIfNotRunning_def Let_def bind_eq_Some_conv outbox_def
      split: if_splits)

lemma outbox_sendData:
  assumes "sendData V pr dat s = Some s'"
  shows "outbox s' = (m_data_to_send s @ put_data (Call (SendData pr dat)) s, m_potential_peers s,
    sent_to (events s))"
proof (cases "peerExists (Peer_id pr) s")
  case True
  with assms show ?thesis
    by (auto simp: sendData_def put_data_def bind_eq_Some_conv outbox_def Let_def split: if_splits)
next
  case False
  with assms have "outbox s' = outbox s"
    by (auto simp: sendData_def bind_eq_Some_conv outbox_emit dest!: outbox_message
        split: option.splits)
  with False show ?thesis by (simp add: put_data_def outbox_def)
qed

lemma outbox_doListen: "doListen port ipv s = Some s' \<Longrightarrow> outbox s' = outbox s"
  by (auto simp: doListen_def startListenThreadIfNotRunning_def Let_def split: if_splits)

lemma outbox_stopListening: "outbox (stopListening s) = outbox s"
  by (simp add: stopListening_def)

lemma outbox_setListener:
  assumes "setListener V p s = Some s'"
  shows "outbox s' = outbox s"
proof (cases p)
  case None
  with assms show ?thesis by (simp add: setListener_def)
next
  case (Some a)
  obtain s1 where c: "call (m_listener s) (\<lambda>so w. ((), vclose V so w)) s = Some ((), s1)"
    using assms Some
    by (cases "call (m_listener s) (\<lambda>so w. ((), vclose V so w)) s") (auto simp: setListener_def)
  obtain s2 where d: "delete_object V (m_listener s1) s1 = Some s2"
    using assms Some c by (cases "delete_object V (m_listener s1) s1") (simp_all add: setListener_def)
  have "outbox s' = outbox s2"
    using assms Some c d by (auto simp: setListener_def Let_def split: if_splits)
  then show ?thesis using outbox_call [OF c] outbox_delete [OF d] by simp
qed

lemma outbox_setReceiveBufferSize: "setReceiveBufferSize V n s = Some s' \<Longrightarrow> outbox s' = outbox s"
  by (auto simp: setReceiveBufferSize_def bind_eq_Some_conv dest!: outbox_dests split: if_splits)

lemma outbox_disconnect:
  "disconnectPeer pr s = Some s' \<Longrightarrow> outbox s' = outbox s" "outbox (disconnectAll s) = outbox s"
  by (auto simp: disconnectPeer_def disconnectAll_def bind_eq_Some_conv split: if_splits)

lemma outbox_create_function: "outbox (setSocketInterfaceCreateFunction f s) = outbox s"
  by (simp add: setSocketInterfaceCreateFunction_def split: option.split)

definition feeds :: "('s, 'w) api_call \<Rightarrow> bool" where
  "feeds c \<longleftrightarrow> (case c of ConnectTo ip port \<Rightarrow> True | SendData pr dat \<Rightarrow> True | _ \<Rightarrow> False)"

lemma put_nothing:
  "\<not> feeds c \<Longrightarrow> put_data (Call c) s = []" "\<not> feeds c \<Longrightarrow> put_target (Call c) s = []"
  by (cases c; simp add: feeds_def put_data_def put_target_def)+

lemma outbox_other_calls:
  assumes "api V c s = Some s'" and "\<not> feeds c"
  shows "outbox s' = outbox s"
proof (cases c)
  case (SetListener so)
  with assms show ?thesis
    by (cases "new_object so s") (auto simp: api_def dest!: outbox_setListener)
qed (use assms in \<open>auto simp: api_def feeds_def registrations outbox_stopListening outbox_disconnect
    outbox_create_function setConnectTimeout_def setSleepTime_def outbox_doListen
    outbox_setReceiveBufferSize\<close>)

lemma outbox_api:
  assumes "api V c s = Some s'"
  shows "outbox s' = (m_data_to_send s @ put_data (Call c) s,
    m_potential_peers s @ put_target (Call c) s, sent_to (events s))"
proof (cases "feeds c")
  case True
  then consider (connect) ip port where "c = ConnectTo ip port" | (send) pr dat where "c = SendData pr dat"
    by (auto simp: feeds_def split: api_call.splits)
  then show ?thesis
  proof cases
    case connect
    with assms show ?thesis
      by (auto simp: api_def put_data_def put_target_def dest!: outbox_connectTo)
  next
    case send
    with assms outbox_sendData [of V pr dat s s'] show ?thesis by (simp add: api_def put_target_def)
  qed
next
  case False
  with outbox_other_calls [OF assms] put_nothing [OF False, of s] show ?thesis
    by (simp add: outbox_def)
qed

section \<open>Along a schedule\<close>

text \<open>One action: what it takes out was in front, what it puts in goes to the end.\<close>

lemma perform_outbox:
  assumes p: "perform V T x s = Some s'" and inv: "peers_inv (m_peers s)"
  shows "take_data x s @ m_data_to_send s' = m_data_to_send s @ put_data x s \<and>
    take_target x s @ m_potential_peers s' = m_potential_peers s @ put_target x s \<and>
    (\<exists>ks. sent_to (events s') = sent_to (events s) @ ks \<and> subseq ks (map fst (take_data x s)))"
proof (cases x)
  case Listen_thread
  with p show ?thesis
    by (auto simp: perform_def take_data_def put_data_def take_target_def put_target_def outbox_def
        dest!: outbox_listen split: if_splits)
next
  case Connect_thread
  with p show ?thesis
    by (auto simp: perform_def take_data_def put_data_def put_target_def
        dest!: outbox_connect split: if_splits)
next
  case Send_thread
  with p outbox_send [OF _ inv, of V s'] show ?thesis
    by (auto simp: perform_def put_data_def take_target_def put_target_def split: if_splits)
next
  case (Call c)
  with p have "outbox s' = (m_data_to_send s @ put_data x s, m_potential_peers s @ put_target x s,
      sent_to (events s))"
    by (auto simp: perform_def dest!: outbox_api split: if_splits)
  with Call show ?thesis by (simp add: outbox_def take_data_def take_target_def)
next
  case Destroy
  with p have "outbox s' = outbox s"
    by (auto simp: perform_def dtor_begin_def dtor_send_def dtor_listen_def dtor_end_def
        disconnectAll_def Let_def bind_eq_Some_conv dest!: outbox_dests
        split: owner_pc.splits if_splits)
  with Destroy show ?thesis
    by (simp add: take_data_def put_data_def take_target_def put_target_def outbox_def)
next
  case (World f)
  with p show ?thesis
    by (auto simp: perform_def take_data_def put_data_def take_target_def put_target_def)
qed

lemma work_queues:
  assumes "run_schedule V T xs s = Some s'" and "list_all action_allowed xs"
    and "reachable V T s" and V: "names_defined V"
  shows "along take_data V T xs s @ m_data_to_send s' =
      m_data_to_send s @ along put_data V T xs s \<and>
    along take_target V T xs s @ m_potential_peers s' =
      m_potential_peers s @ along put_target V T xs s \<and>
    (\<exists>ks. sent_to (events s') = sent_to (events s) @ ks \<and>
       subseq ks (map fst (along take_data V T xs s)))"
  using assms(1-3)
proof (induction xs arbitrary: s)
  case Nil
  then show ?case by simp
next
  case (Cons x xs)
  then obtain s1 where s1: "perform V T x s = Some s1" "run_schedule V T xs s1 = Some s'"
    by (auto simp: bind_eq_Some_conv)
  have "peers_inv (m_peers s)"
    using node_invD(1) [OF reachable_inv [OF Cons.prems(3) V]] by (simp add: core_inv_def)
  note p = perform_outbox [OF s1(1) this]
  have "reachable V T s1"
    using Cons.prems(2,3) by (auto intro: reachable.step [OF _ perform_step [OF s1(1)]])
  note r = Cons.IH [OF s1(2) _ this]
  obtain ks where ks: "sent_to (events s1) = sent_to (events s) @ ks"
    "subseq ks (map fst (take_data x s))" using p by blast
  obtain ls where ls: "sent_to (events s') = sent_to (events s1) @ ls"
    "subseq ls (map fst (along take_data V T xs s1))" using r Cons.prems(2) by auto
  have "subseq (ks @ ls) (map fst (along take_data V T (x # xs) s))"
    using ks(2) ls(2) by (simp add: s1(1) list_emb_append_mono)
  moreover have "sent_to (events s') = sent_to (events s) @ (ks @ ls)" using ks(1) ls(1) by simp
  moreover have "along take_data V T (x # xs) s @ m_data_to_send s' =
      m_data_to_send s @ along put_data V T (x # xs) s"
    using p r Cons.prems(2) by (simp add: s1(1))
  moreover have "along take_target V T (x # xs) s @ m_potential_peers s' =
      m_potential_peers s @ along put_target V T (x # xs) s"
    using p r Cons.prems(2) by (simp add: s1(1))
  ultimately show ?case by blast
qed

end
