(* ===== verification/Delivery.thy ===== *)
theory Delivery
  imports Loopback
begin

text \<open>
  What the sockets deliver against what the callbacks are told. \<open>recording V\<close> is the class \<open>V\<close>
  with a history variable in every object: the bytes its \<open>receive\<close> has delivered since it was
  connected, and the positive results of its \<open>send\<close>. No call of \<open>V\<close> depends on it. The locale
  \<open>traffic_log\<close> states what such a history is, and the lemmas inside it show that a node with
  both callbacks set reports exactly the history of each connection's socket.
\<close>

section \<open>The history of a socket\<close>

type_synonym traffic = "bytes \<times> u64 list"

definition recording :: "('s, 'w) ISocket \<Rightarrow> ('s \<times> traffic, 'w) ISocket" where
  "recording V =
     \<lparr>vlisten = (\<lambda>p v (so, h) w. let (b, so', w') = vlisten V p v so w in (b, (so', h), w')),
      vconnect = (\<lambda>ip p (so, h) w.
        let (b, so', w') = vconnect V ip p so w in (b, (so', [], []), w')),
      vclose = (\<lambda>(so, h) w. let (so', w') = vclose V so w in ((so', h), w')),
      vaccept = (\<lambda>(so, h) w.
        let (n, so', w') = vaccept V so w in (map_option (\<lambda>n. (n, [], [])) n, (so', h), w')),
      vreceive = (\<lambda>d (so, ds, ns) w.
        let ((r, d'), so', w') = vreceive V d so w
        in ((r, d'), (so', if r = RR_OK then ds @ d' else ds, ns), w')),
      vsend = (\<lambda>d (so, ds, ns) w.
        let (n, so', w') = vsend V d so w
        in (n, (so', ds, if 0 < n then ns @ [n] else ns), w')),
      vsocketNumber = vsocketNumber V \<circ> fst,
      visListener = visListener V \<circ> fst,
      vlistenPort = vlistenPort V \<circ> fst,
      visConnected = visConnected V \<circ> fst,
      visListening = visListening V \<circ> fst,
      vpeerIpAddress = vpeerIpAddress V \<circ> fst,
      vpeerPort = vpeerPort V \<circ> fst,
      vownIpAddress = vownIpAddress V \<circ> fst,
      vpeerName = vpeerName V \<circ> fst,
      vsetReceiveBufferSize = (\<lambda>n (so, h). (vsetReceiveBufferSize V n so, h)),
      vreceiveBufferSize = vreceiveBufferSize V \<circ> fst,
      vsetSleepTime = (\<lambda>n (so, h). (vsetSleepTime V n so, h)),
      vsleepTime = vsleepTime V \<circ> fst,
      vgetLastErrno = (\<lambda>(so, h). let (e, so') = vgetLastErrno V so in (e, (so', h))),
      vgetLastErrnoString = (\<lambda>(so, h). let (m, so') = vgetLastErrnoString V so in (m, (so', h))),
      vdestroy = (\<lambda>(so, h) w. vdestroy V so w)\<rparr>"

text \<open>The laws of a history.\<close>

locale traffic_log =
  fixes V :: "('s, 'w) ISocket"
    and hist :: "'s \<Rightarrow> traffic"
  assumes hist_listen: "hist (fst (snd (vlisten V p ver so w))) = hist so"
    and hist_connect: "hist (fst (snd (vconnect V ip p so w))) = ([], [])"
    and hist_close: "hist (fst (vclose V so w)) = hist so"
    and hist_accept: "hist (fst (snd (vaccept V so w))) = hist so"
    and hist_accepted: "fst (vaccept V so w) = Some new \<Longrightarrow> hist new = ([], [])"
    and hist_receive:
      "vreceive V d so w = ((r, d'), so', w') \<Longrightarrow>
         hist so' = (fst (hist so) @ (if r = RR_OK then d' else []), snd (hist so))"
    and hist_send:
      "vsend V d so w = (n, so', w') \<Longrightarrow>
         hist so' = (fst (hist so), snd (hist so) @ (if 0 < n then [n] else []))"
    and hist_buffer: "hist (vsetReceiveBufferSize V n so) = hist so"
    and hist_errno: "hist (snd (vgetLastErrno V so)) = hist so"
    and hist_text: "hist (snd (vgetLastErrnoString V so)) = hist so"

interpretation recorded: traffic_log "recording V" snd
  by unfold_locales (auto simp: recording_def Let_def split: prod.splits)

lemma recording_names: "names_defined (recording V) = names_defined V"
  by (auto simp: names_defined_def recording_def)

section \<open>What the callbacks are told\<close>

fun received_data :: "event \<Rightarrow> bytes" where
  "received_data (Received c pp d) = d"
| "received_data _ = []"

fun sent_sizes :: "event \<Rightarrow> u64 list" where
  "sent_sizes (Sent c pp n) = [n]"
| "sent_sizes _ = []"

text \<open>The data and the sizes reported on a connection, in the order of the reports.\<close>

definition reported :: "event list \<Rightarrow> u64 option \<Rightarrow> traffic" where
  "reported es k =
     (let es = filter (\<lambda>e. ev_peer e = k) es
      in (concat (map received_data es), concat (map sent_sizes es)))"

fun tells :: "event \<Rightarrow> bool" where
  "tells (Received c pp d) = True"
| "tells (Sent c pp n) = True"
| "tells _ = False"

lemma reported_silent: "\<not> tells e \<Longrightarrow> reported (es @ [e]) = reported es"
  by (cases e) (simp_all add: reported_def fun_eq_iff Let_def)

lemma reported_nothing:
  assumes "\<forall>e \<in> set es. tells e \<longrightarrow> ev_peer e \<noteq> k"
  shows "reported es k = ([], [])"
proof -
  have "received_data e = [] \<and> sent_sizes e = []" if "e \<in> set es" "ev_peer e = k" for e
    using assms that by (cases e) auto
  then show ?thesis by (auto simp: reported_def Let_def)
qed

lemma reported_None: "reported es None = ([], [])"
  by (rule reported_nothing) (auto elim: tells.elims)

lemma reported_told:
  "reported (es @ [Received c pp d]) =
     (reported es)(Some (m_connection_id pp) :=
        (fst (reported es (Some (m_connection_id pp))) @ d, snd (reported es (Some (m_connection_id pp)))))"
  "reported (es @ [Sent c pp n]) =
     (reported es)(Some (m_connection_id pp) :=
        (fst (reported es (Some (m_connection_id pp))), snd (reported es (Some (m_connection_id pp))) @ [n]))"
  by (auto simp: reported_def fun_eq_iff Let_def)

section \<open>The accounts\<close>

text \<open>
  The sockets that are watched: those of the peers under their ids, and the one the connect
  thread has connected and not filed yet.
\<close>

fun connected_socket :: "connect_pc \<Rightarrow> ptr list" where
  "connected_socket (C_Connected i n a) = [Some a]"
| "connected_socket _ = []"

definition watched :: "('s, 'w) node \<Rightarrow> (u64 option \<times> ptr) list" where
  "watched s =
     map (Pair None) (connected_socket (m_connectThread s)) @
     map (\<lambda>(k, pp). (Some k, m_socket pp)) (m_peers s)"

definition accounts ::
  "('s \<Rightarrow> traffic) \<Rightarrow> ('s, 'w) node \<Rightarrow>
     (nat \<Rightarrow> traffic option) \<times> (u64 option \<times> ptr) set \<times> (u64 option \<Rightarrow> traffic)" where
  "accounts hist s =
     ((\<lambda>a. map_option hist (objects s a)), set (watched s), reported (events s))"

definition balanced ::
  "(nat \<Rightarrow> traffic option) \<times> (u64 option \<times> ptr) set \<times> (u64 option \<Rightarrow> traffic) \<Rightarrow> bool" where
  "balanced = (\<lambda>(h, ws, r). \<forall>k a. (k, Some a) \<in> ws \<longrightarrow> h a = Some (r k))"

text \<open>The watched sockets are among those the node owns, and no two are the same.\<close>

lemma watched_sockets:
  "map snd (watched s) = connected_socket (m_connectThread s) @ peer_sockets (m_peers s)"
  by (simp add: watched_def comp_def split_beta)

lemma connected_connecting:
  "connected_socket cp = [] \<or> connected_socket cp = connecting cp"
  by (cases cp) auto

lemma watched_distinct:
  assumes "core_inv s"
  shows "distinct (map snd (watched s))"
    "m_owner s \<noteq> O_Destroyed \<Longrightarrow> m_listener s \<notin> snd ` set (watched s)"
proof -
  have d: "distinct (owned s)" using assms by (simp add: core_inv_def own_inv_def)
  then show "distinct (map snd (watched s))"
    unfolding watched_sockets using connected_connecting [of "m_connectThread s"]
    by (auto simp: owned_def)
  show "m_listener s \<notin> snd ` set (watched s)" if "m_owner s \<noteq> O_Destroyed"
    using d that connected_connecting [of "m_connectThread s"] watched_sockets [of s]
    by (auto simp: owned_def listener_of_def simp flip: set_map)
qed

lemma watched_inj:
  "core_inv s \<Longrightarrow> (k, p) \<in> set (watched s) \<Longrightarrow> (k', p) \<in> set (watched s) \<Longrightarrow> k = k'"
  by (drule watched_distinct(1)) (fastforce simp: distinct_map inj_on_def)

lemma watched_peer:
  "map_of (m_peers s) k = Some pp \<Longrightarrow> (Some k, m_socket pp) \<in> set (watched s)"
  by (force simp: watched_def dest: map_of_SomeD)

lemma watched_id:
  assumes "core_inv s" and "(Some k, p) \<in> set (watched s)" and "(Some k, q) \<in> set (watched s)"
  shows "p = q"
proof -
  obtain pp qq where "(k, pp) \<in> set (m_peers s)" "p = m_socket pp" "(k, qq) \<in> set (m_peers s)"
    "q = m_socket qq" using assms(2,3) by (auto simp: watched_def)
  moreover have "distinct (keys_of (m_peers s))"
    using assms(1) by (simp add: core_inv_def peers_inv_def)
  ultimately show ?thesis by (metis eq_key_imp_eq_value)
qed

text \<open>The history of a watched socket.\<close>

lemma balancedD:
  "balanced (accounts hist s) \<Longrightarrow> (k, Some a) \<in> set (watched s) \<Longrightarrow> objects s a = Some so \<Longrightarrow>
     hist so = reported (events s) k"
  by (fastforce simp: balanced_def accounts_def)

section \<open>What leaves the accounts alone\<close>

lemma accounts_updates [simp]:
  "accounts hist (s\<lparr>world := w\<rparr>) = accounts hist s"
  "accounts hist (s\<lparr>next_object := i\<rparr>) = accounts hist s"
  "accounts hist (s\<lparr>m_listener := l\<rparr>) = accounts hist s"
  "accounts hist (s\<lparr>m_portnumber := p\<rparr>) = accounts hist s"
  "accounts hist (s\<lparr>m_ip_version := v\<rparr>) = accounts hist s"
  "accounts hist (s\<lparr>m_connect_thread_running := b\<rparr>) = accounts hist s"
  "accounts hist (s\<lparr>m_send_thread_running := b\<rparr>) = accounts hist s"
  "accounts hist (s\<lparr>m_listen_thread_running := b\<rparr>) = accounts hist s"
  "accounts hist (s\<lparr>m_listening_enabled := b\<rparr>) = accounts hist s"
  "accounts hist (s\<lparr>m_destructor_called := b\<rparr>) = accounts hist s"
  "accounts hist (s\<lparr>m_listener_available := b\<rparr>) = accounts hist s"
  "accounts hist (s\<lparr>m_wakeup_listen_thread := b\<rparr>) = accounts hist s"
  "accounts hist (s\<lparr>m_changing_listener := b\<rparr>) = accounts hist s"
  "accounts hist (s\<lparr>m_connect_timeout := t\<rparr>) = accounts hist s"
  "accounts hist (s\<lparr>m_node_sleep_time := t\<rparr>) = accounts hist s"
  "accounts hist (s\<lparr>m_potential_peers := q\<rparr>) = accounts hist s"
  "accounts hist (s\<lparr>m_data_to_send := d\<rparr>) = accounts hist s"
  "accounts hist (s\<lparr>m_sendThread := sp\<rparr>) = accounts hist s"
  "accounts hist (s\<lparr>m_listenThread := lp\<rparr>) = accounts hist s"
  "accounts hist (s\<lparr>m_callbacks := c\<rparr>) = accounts hist s"
  "accounts hist (s\<lparr>m_createNewSocketFunction := f\<rparr>) = accounts hist s"
  "accounts hist (s\<lparr>m_connection_counter := n\<rparr>) = accounts hist s"
  "accounts hist (s\<lparr>m_owner := op\<rparr>) = accounts hist s"
  by (simp_all add: accounts_def watched_def)

lemma watched_heap [simp]:
  "watched (s\<lparr>objects := h\<rparr>) = watched s" "watched (s\<lparr>world := w\<rparr>) = watched s"
  "watched (s\<lparr>next_object := n\<rparr>) = watched s"
  by (simp_all add: watched_def)

lemma accounts_connect [simp]:
  "connected_socket cp = connected_socket (m_connectThread s) \<Longrightarrow>
     accounts hist (s\<lparr>m_connectThread := cp\<rparr>) = accounts hist s"
  by (simp add: accounts_def watched_def)

lemma entries_map_entry:
  "(\<And>pp. m_socket (f pp) = m_socket pp) \<Longrightarrow>
     map (\<lambda>(k, pp). (Some k, m_socket pp)) (AList.map_entry k f ps) =
     map (\<lambda>(k, pp). (Some k, m_socket pp)) ps"
  by (induction ps) auto

lemma accounts_update_peer [simp]:
  "accounts hist (update_peer k (scheduleDelete dt) s) = accounts hist s"
  "accounts hist (update_peer k (setErrorMessage m) s) = accounts hist s"
  by (simp_all add: accounts_def watched_def update_peer_def entries_map_entry)

lemma accounts_emit: "\<not> tells e \<Longrightarrow> accounts hist (emit e s) = accounts hist s"
  by (simp add: accounts_def emit_def watched_def reported_silent)

lemma accounts_fire: "(\<And>k. \<not> tells (e k)) \<Longrightarrow> accounts hist (fire c e s) = accounts hist s"
  by (simp add: fire_def accounts_emit split: option.split)

lemma accounts_notify [simp]: "accounts hist (notify_closed temp s) = accounts hist s"
  by (simp add: notify_closed_def Let_def accounts_fire)

lemma accounts_query: "call_query p f s = Some (x, s') \<Longrightarrow> accounts hist s' = accounts hist s"
  by (auto simp: call_query_def bind_eq_Some_conv)

lemma accounts_make_peer: "make_peer V a k s = Some (pp, s') \<Longrightarrow> accounts hist s' = accounts hist s"
  by (auto simp: make_peer_def Let_def bind_eq_Some_conv
      dest!: accounts_query [where hist = hist])

text \<open>A call on a socket, whose history becomes \<open>h\<close>.\<close>

lemma accounts_store:
  "accounts hist (store_object a so w s) =
     (let (h, ws, r) = accounts hist s in (h(a \<mapsto> hist so), ws, r))"
  by (auto simp: accounts_def store_object_def watched_def)

lemma accounts_call:
  assumes "call p f s = Some (x, s')" and "\<And>so w. hist (fst (snd (f so w))) = hist so"
  shows "accounts hist s' = accounts hist s"
proof -
  obtain a so so' w' where a: "objects s a = Some so" and f: "f so (world s) = (x, so', w')"
    and s': "s' = store_object a so' w' s"
    using assms(1) by (auto simp: call_def bind_eq_Some_conv split_beta prod_eq_iff)
  have "hist so' = hist so" using assms(2) [of so "world s"] f by simp
  with a show ?thesis by (auto simp: s' accounts_store) (auto simp: accounts_def)
qed

text \<open>A new object, and the deletion of one that is not watched.\<close>

lemma accounts_new:
  assumes "new_object so s = (a, s')"
  shows "accounts hist s' = (let (h, ws, r) = accounts hist s in (h(a \<mapsto> hist so), ws, r))"
  using assms by (auto simp: new_object_def accounts_def watched_def)

lemma balanced_new:
  assumes "balanced (accounts hist s)" and "new_object so s = (a, s')" and "heap_ok s"
  shows "balanced (accounts hist s')"
proof -
  have "objects s a = None"
    using new_object_fresh [OF assms(3,2)] by (auto simp: live_def)
  then have "(k, Some a) \<notin> set (watched s)" for k
    using assms(1) by (fastforce simp: balanced_def accounts_def)
  with assms(1) show ?thesis
    by (auto simp: accounts_new [OF assms(2)]) (auto simp: balanced_def accounts_def)
qed

lemma balanced_delete:
  assumes "delete_object V p s = Some s'" and "balanced (accounts hist s)"
    and "p \<notin> snd ` set (watched s)"
  shows "balanced (accounts hist s')"
proof (cases p)
  case None
  with assms show ?thesis by (simp add: delete_object_def)
next
  case (Some a)
  then obtain w where s': "s' = s\<lparr>objects := (objects s)(a := None), world := w\<rparr>"
    using assms(1) by (auto simp: delete_object_def bind_eq_Some_conv)
  have "(k, Some a) \<notin> set (watched s)" for k using assms(3) Some by force
  with assms(2) show ?thesis unfolding s' by (auto simp: balanced_def accounts_def)
qed

text \<open>What one socket has delivered or sent is told under its id.\<close>

lemma balanced_told:
  assumes b: "balanced (accounts hist s)" and core: "core_inv s"
    and pp: "map_of (m_peers s) k = Some pp" "m_socket pp = Some a"
    and e: "reported (events s @ [e]) = (reported (events s))(Some k := hist so')"
  shows "balanced (accounts hist (emit e (store_object a so' w s)))"
proof -
  have m: "(Some k, Some a) \<in> set (watched s)" using watched_peer [OF pp(1)] pp(2) by simp
  have "map_option hist (((objects s)(a \<mapsto> so')) a') =
      Some (((reported (events s))(Some k := hist so')) k')"
    if w: "(k', Some a') \<in> set (watched s)" for k' a'
  proof (cases "a' = a")
    case True
    with w have "k' = Some k" using watched_inj [OF core _ m] by simp
    with True show ?thesis by simp
  next
    case False
    then have "k' \<noteq> Some k" using watched_id [OF core _ m] w by blast
    with False b w show ?thesis by (simp add: balanced_def accounts_def)
  qed
  then have "balanced (\<lambda>a'. map_option hist (((objects s)(a \<mapsto> so')) a'), set (watched s),
      (reported (events s))(Some k := hist so'))"
    unfolding balanced_def prod.case by blast
  moreover have "accounts hist (emit e (store_object a so' w s)) =
      (\<lambda>a'. map_option hist (((objects s)(a \<mapsto> so')) a'), set (watched s),
       (reported (events s))(Some k := hist so'))"
    by (simp add: accounts_def emit_def store_object_def watched_def e)
  ultimately show ?thesis by (simp only:)
qed

section \<open>The threads\<close>

context traffic_log
begin

abbreviation acc :: "('s, 'w) node \<Rightarrow>
    (nat \<Rightarrow> traffic option) \<times> (u64 option \<times> ptr) set \<times> (u64 option \<Rightarrow> traffic)" where
  "acc \<equiv> accounts hist"

lemma acc_calls:
  "call p (vlisten V port ver) s = Some (b, s') \<Longrightarrow> acc s' = acc s"
  "call p (\<lambda>so w. ((), vclose V so w)) s = Some (u, s') \<Longrightarrow> acc s' = acc s"
  "call p (vaccept V) s = Some (n, s') \<Longrightarrow> acc s' = acc s"
  "call_local p (vgetLastErrno V) s = Some (e, s') \<Longrightarrow> acc s' = acc s"
  "call_local p (vgetLastErrnoString V) s = Some (m, s') \<Longrightarrow> acc s' = acc s"
  "call_local p (\<lambda>so. ((), vsetReceiveBufferSize V sz so)) s = Some (u, s') \<Longrightarrow> acc s' = acc s"
  unfolding call_local_def
  by (erule accounts_call; simp add: hist_listen hist_close hist_accept hist_errno hist_text
      hist_buffer split_beta)+

lemma acc_message: "createErrorMessage V h b p s = Some (m, s') \<Longrightarrow> acc s' = acc s"
  by (auto simp: createErrorMessage_def Let_def bind_eq_Some_conv dest!: acc_calls split: if_splits)

lemmas acc_dests = acc_calls acc_message accounts_make_peer [where hist = hist]

lemma acc_start: "start_listening V s = Some s' \<Longrightarrow> acc s' = acc s"
  by (auto simp: start_listening_def bind_eq_Some_conv Let_def accounts_emit dest!: acc_dests
      split: if_splits option.splits)

lemma acc_stop: "stop_listening V s = Some (c, s') \<Longrightarrow> acc s' = acc s"
  by (auto simp: stop_listening_def bind_eq_Some_conv Let_def dest!: acc_dests)

lemma acc_accepted_none: "accepted_none V s = Some s' \<Longrightarrow> acc s' = acc s"
  by (auto simp: accepted_none_def bind_eq_Some_conv accounts_emit dest!: acc_dests
      split: if_splits option.splits)

lemma acc_fail_peer: "fail_peer V k b p s = Some s' \<Longrightarrow> acc s' = acc s"
  by (auto simp: fail_peer_def Let_def bind_eq_Some_conv dest!: acc_dests)

text \<open>An accepted connection is filed with an empty history, under an id nothing was reported on.\<close>

lemma fresh_reports:
  assumes "trace_inv s" and "m_connection_counter s \<noteq> - 1"
  shows "reported (events s) (Some (m_connection_counter s + 1)) = ([], [])"
proof (rule reported_nothing, intro ballI impI notI)
  fix e assume "e \<in> set (events s)" "ev_peer e = Some (m_connection_counter s + 1)"
  then have "m_connection_counter s + 1 \<le> m_connection_counter s"
    using assms(1) by (auto simp: trace_inv_def trace_ok_def)
  with counter_next [OF assms(2)] show False by simp
qed

lemma balanced_accepted:
  assumes a: "accepted_new V so s = Some s'" and core: "core_inv s" and t: "trace_inv s"
    and c: "m_connection_counter s \<noteq> - 1" and so: "hist so = ([], [])" and b: "balanced (acc s)"
  shows "balanced (acc s')"
proof -
  let ?c = "m_connection_counter s + 1"
  obtain a s0 where n: "new_object so s = (a, s0)" by fastforce
  then have s0: "m_connection_counter s0 = m_connection_counter s" "m_peers s0 = m_peers s"
    "events s0 = events s" "objects s0 a = Some so"
    by (auto simp: new_object_def)
  obtain pp s1 where m: "make_peer V a ?c (s0\<lparr>m_connection_counter := ?c\<rparr>) = Some (pp, s1)"
    and s': "s' = fire (m_callbackNewPeerConnected (m_callbacks s1)) (\<lambda>c. NewPeerConnected c pp)
      (s1\<lparr>m_peers := umap_insert ?c pp (m_peers s1)\<rparr>)"
    using a by (auto simp: accepted_new_def n Let_def bind_eq_Some_conv s0)
  have acc1: "acc s1 = acc s0" using accounts_make_peer [OF m, of hist] by simp
  have b1: "balanced (acc s1)"
    unfolding acc1 using core by (intro balanced_new [OF b n]) (simp add: core_inv_def own_inv_def)
  have ev: "events s1 = events s" using unloggedD(2) [OF make_peer_unlogged(1) [OF m]] s0 by simp
  have h: "map_option hist (objects s1 a) = Some ([], [])"
    using acc1 so s0(4) by (auto simp: accounts_def dest: fun_cong [where x = a])
  have "balanced (acc (s1\<lparr>m_peers := umap_insert ?c pp (m_peers s1)\<rparr>))"
    using b1 h make_peer_unlogged(5) [OF m] fresh_reports [OF t c] ev
    by (auto simp: balanced_def accounts_def watched_def umap_insert_def)
  then show ?thesis by (simp add: s' accounts_fire)
qed

lemma balanced_accept:
  assumes a: "accept_peer V s = Some s'" and core: "core_inv s" and t: "trace_inv s"
    and c: "m_connection_counter s \<noteq> - 1" and b: "balanced (acc s)" and own: "m_owner s \<noteq> O_Destroyed"
  shows "balanced (acc s')"
proof -
  have step: "balanced (acc s')"
    if s1: "call (m_listener s) (vaccept V) s = Some (n, s1)"
      and r: "(case n of None \<Rightarrow> accepted_none V s1 | Some so \<Rightarrow> accepted_new V so s1) = Some s'"
    for n s1
  proof (cases n)
    case None
    with r acc_accepted_none [of s1 s'] acc_calls(3) [OF s1] b show ?thesis by simp
  next
    case (Some so)
    note u = unloggedD [OF call_unlogged [OF s1]]
    obtain l where l: "m_listener s = Some l" "l \<in> live s" using listener_live [OF core own] by blast
    have "core_inv s1" using ensures_SomeD [OF call_same [OF core l(1,2)] s1] sameD(1) by auto
    moreover have "hist so = ([], [])"
    proof -
      obtain so0 w where "fst (vaccept V so0 w) = n"
        using s1 by (auto simp: call_def bind_eq_Some_conv split_beta)
      then show ?thesis using hist_accepted Some by metis
    qed
    ultimately show ?thesis
      using balanced_accepted [of so s1 s'] r Some u(3,4) t c b acc_calls(3) [OF s1] by simp
  qed
  show ?thesis
    using a b by (auto simp: accept_peer_def bind_eq_Some_conv split: if_splits intro: step)
qed

text \<open>Received data goes to the callback as it comes from the socket.\<close>

lemma balanced_receive:
  assumes r: "receive_peer V k s = Some s'" and core: "core_inv s"
    and cb: "m_callbackReceived (m_callbacks s) = Some c" and b: "balanced (acc s)"
  shows "balanced (acc s')"
proof -
  obtain pp where pp: "map_of (m_peers s) k = Some pp"
    using r by (auto simp: receive_peer_def bind_eq_Some_conv)
  obtain a where a: "m_socket pp = Some a" using peer_live [OF core pp] by blast
  have id: "m_connection_id pp = k"
    using core map_of_SomeD [OF pp] by (auto simp: core_inv_def peers_inv_def)
  have got: "balanced (acc s')"
    if s1: "call (Some a) (vreceive V []) s = Some ((res, d), s1)"
      and r': "(case res of
       RR_OK \<Rightarrow> Some (fire (m_callbackReceived (m_callbacks s1)) (\<lambda>c. Received c pp d) s1)
     | ERROR_NO_CONNECTION \<Rightarrow> fail_peer V k ''Socket is not connected.'' None s1
     | ERROR_IS_LISTENER \<Rightarrow> fail_peer V k ''Socket is a listener.'' None s1
     | ERROR_PEER_DISCONNECTED \<Rightarrow> Some (update_peer k (scheduleDelete PEER_DISCONNECTED_THEMSELF) s1)
     | ERROR_SYSTEM \<Rightarrow> fail_peer V k ''Failed to receive.'' (getSocket pp) s1
     | ERROR_NOTHING_RECEIVED \<Rightarrow> Some s1) = Some s'" for res d s1
  proof -
    obtain so so' w' where so: "objects s a = Some so"
      and f: "vreceive V [] so (world s) = ((res, d), so', w')" and e1: "s1 = store_object a so' w' s"
      using s1 by (auto simp: call_def bind_eq_Some_conv split_beta prod_eq_iff)
    have h: "hist so = reported (events s) (Some k)"
      using balancedD [OF b _ so] watched_peer [OF pp] a by simp
    show ?thesis
    proof (cases "res = RR_OK")
      case True
      then have "s' = emit (Received c pp d) (store_object a so' w' s)"
        using r' cb by (simp add: e1 fire_def)
      then show ?thesis
        using True hist_receive [OF f] by (simp add: balanced_told [OF b core pp a] reported_told id h)
    next
      case False
      have "hist so' = hist so" using hist_receive [OF f] False by simp
      then have "acc s1 = acc s" using so by (auto simp: e1 accounts_store) (auto simp: accounts_def)
      with False r' b show ?thesis by (cases res) (auto dest!: acc_fail_peer)
    qed
  qed
  show ?thesis
    using r b a pp
    by (auto simp: receive_peer_def bind_eq_Some_conv Let_def dest!: acc_fail_peer split: if_splits
        intro: got)
qed

lemma balanced_receive_loop:
  "receive_loop V ks s = Some s' \<Longrightarrow> core_inv s \<Longrightarrow> set ks \<subseteq> set (keys_of (m_peers s)) \<Longrightarrow>
     m_callbackReceived (m_callbacks s) = Some c \<Longrightarrow> balanced (acc s) \<Longrightarrow> balanced (acc s')"
proof (induction ks arbitrary: s)
  case (Cons k ks)
  obtain s1 where s1: "receive_peer V k s = Some s1" "receive_loop V ks s1 = Some s'"
    using Cons.prems(1) by (auto simp: bind_eq_Some_conv)
  have "keeps_keys s s1"
    using ensures_SomeD [OF receive_peer_ok [OF Cons.prems(2)] s1(1)] Cons.prems(3) by simp
  then have "core_inv s1" "m_callbacks s1 = m_callbacks s" "keys_of (m_peers s1) = keys_of (m_peers s)"
    by (auto simp: keeps_keys_def dest: keepsD)
  with Cons.IH [OF s1(2)] balanced_receive [OF s1(1) Cons.prems(2,4,5)] Cons.prems show ?case by simp
qed simp

text \<open>A connection that is closed leaves the watch together with its socket.\<close>

lemma balanced_delete_next:
  assumes d: "delete_next V s = Some s'" and core: "core_inv s" and b: "balanced (acc s)"
  shows "balanced (acc s')"
proof (cases "next_scheduled (m_peers s)")
  case None
  with d b show ?thesis by (simp add: delete_next_def)
next
  case (Some p)
  obtain k pp where p: "p = (k, pp)" by (cases p)
  have mem: "(k, pp) \<in> set (m_peers s)" using next_scheduled_mem Some p by blast
  then obtain a where a: "m_socket pp = Some a"
    using peer_live [OF core] core by (metis core_inv_def peers_inv_def map_of_eq_Some_iff)
  obtain s1 s2 where s1: "call (Some a) (\<lambda>so w. ((), vclose V so w)) s = Some ((), s1)"
    and s2: "delete_object V (Some a) s1 = Some s2"
    and s': "s' = notify_closed pp (s2\<lparr>m_peers := AList.delete k (m_peers s2)\<rparr>)"
    using d a by (auto simp: delete_next_def destroySocket_def Some p bind_eq_Some_conv Let_def)
  note u1 = unloggedD [OF call_unlogged [OF s1]] and u2 = unloggedD [OF delete_unlogged [OF s2]]
  obtain w where e2: "s2 = s1\<lparr>objects := (objects s1)(a := None), world := w\<rparr>"
    using s2 by (auto simp: delete_object_def bind_eq_Some_conv)
  have w: "watched s1 = watched s" using s1 by (auto simp: call_def bind_eq_Some_conv split_beta
      store_object_def)
  let ?s = "s2\<lparr>m_peers := AList.delete k (m_peers s2)\<rparr>"
  have "set (watched ?s) \<subseteq> set (watched s)"
    unfolding w [symmetric] by (auto simp: e2 watched_def set_umap_delete)
  moreover have "(k', Some a) \<notin> set (watched ?s)" for k'
  proof
    assume m: "(k', Some a) \<in> set (watched ?s)"
    have "(Some k, Some a) \<in> set (watched s)" using mem a by (force simp: watched_def)
    then have "k' = Some k" using watched_inj [OF core] m calculation by blast
    with m show False by (auto simp: watched_def set_umap_delete)
  qed
  moreover have "balanced (acc s1)" using b acc_calls(2) [OF s1] by simp
  ultimately have "balanced (acc ?s)"
    unfolding balanced_def accounts_def using w by (fastforce simp: e2)
  then show ?thesis by (simp add: s')
qed

lemma balanced_listen:
  assumes st: "listenThread_step V s = Some s'" and inv: "node_inv s" and t: "trace_inv s"
    and c: "m_connection_counter s \<noteq> - 1" and V: "names_defined V"
    and cb: "m_callbackReceived (m_callbacks s) = Some c'" and b: "balanced (acc s)"
    and run: "listenThread_enabled s"
  shows "balanced (acc s')"
proof -
  note core = node_invD(1) [OF inv]
  have own: "m_owner s \<noteq> O_Destroyed"
    using run by (auto intro!: not_destroyed(1) [OF inv]
        simp: listenThread_enabled_def listen_stopped_def)
  have poll: "balanced (acc s1)" if p: "poll V s = Some s1" for s1
  proof -
    obtain s2 s3 where s2: "accept_peer V s = Some s2"
      and s3: "receive_loop V (keys_of (m_peers s2)) s2 = Some s3" and s1: "delete_next V s3 = Some s1"
      using p by (auto simp: poll_def bind_eq_Some_conv)
    have k2: "keeps s s2" using ensures_SomeD [OF accept_peer_ok [OF core own V] s2] .
    have k3: "core_inv s3"
      using ensures_SomeD [OF receive_loop_ok [OF keepsD(1) [OF k2] subset_refl] s3]
      by (simp add: keeps_keys_def keeps_def)
    have "balanced (acc s3)"
      using balanced_receive_loop [OF s3 keepsD(1) [OF k2] subset_refl]
        balanced_accept [OF s2 core t c b own] keepsD(4) [OF k2] cb by simp
    then show ?thesis by (rule balanced_delete_next [OF s1 k3])
  qed
  show ?thesis
    using st b
    by (auto simp: listenThread_step_def bind_eq_Some_conv accounts_fire dest!: acc_start acc_stop
        dest: poll split: listen_pc.splits)
qed

text \<open>A connection the node opens: its socket's history starts anew, and it is filed with it.\<close>

lemma connecting_unwatched:
  assumes "core_inv s" and "connecting (m_connectThread s) = [Some a]"
    and "connected_socket (m_connectThread s) = []"
  shows "(k, Some a) \<notin> set (watched s)"
  using assms by (auto simp: core_inv_def own_inv_def owned_def watched_def)

lemma balanced_pc:
  assumes "balanced (acc s)" and "connected_socket (m_connectThread s) = []"
    and "connected_socket cp = [] \<or>
      connected_socket cp = [Some a] \<and> map_option hist (objects s a) = Some ([], [])"
  shows "balanced (acc (s\<lparr>m_connectThread := cp\<rparr>))"
  using assms by (auto simp: balanced_def accounts_def watched_def reported_None)

lemma balanced_begin:
  assumes "begin_connect i n s = Some s'" and "core_inv s" and "balanced (acc s)"
    and pc: "connected_socket (m_connectThread s) = []"
  shows "balanced (acc s')"
proof -
  obtain p s1 where p: "create_socket s = (p, s1)" by fastforce
  obtain a ip port where s': "s' = s1\<lparr>m_connectThread := C_Try i n a ip port 0\<rparr>"
    using assms(1) by (auto simp: begin_connect_def p Let_def bind_eq_Some_conv)
  have "heap_ok s" using assms(2) by (simp add: core_inv_def own_inv_def)
  then have "balanced (acc s1) \<and> m_connectThread s1 = m_connectThread s"
    using p assms(3) balanced_new [of hist "s\<lparr>world := w\<rparr>" so a' s1 for w so a']
    by (auto simp: create_socket_def Let_def split: prod.splits option.splits)
       (auto simp: new_object_def)
  then show ?thesis unfolding s' using pc by (intro balanced_pc) auto
qed

lemma balanced_try:
  assumes r: "try_connect V T a ip port e s = Some (x, s')" and core: "core_inv s"
    and pc: "m_connectThread s = C_Try i n a ip port e" and b: "balanced (acc s)"
  shows "balanced (acc s') \<and> map_option hist (objects s' a) = Some ([], []) \<and>
    m_connectThread s' = m_connectThread s"
proof -
  obtain b1 s1 e1 s2 w where s1: "call (Some a) (vconnect V ip port) s = Some (b1, s1)"
    and s2: "call_local (Some a) (vgetLastErrno V) s1 = Some (e1, s2)" and s': "s' = s2\<lparr>world := w\<rparr>"
    using r by (auto simp: try_connect_def bind_eq_Some_conv Let_def split_beta)
  obtain so so' w' where f: "vconnect V ip port so (world s) = (b1, so', w')"
    and e1: "s1 = store_object a so' w' s"
    using s1 by (auto simp: call_def bind_eq_Some_conv split_beta prod_eq_iff)
  have h: "hist so' = ([], [])" using hist_connect [of ip port so "world s"] f by simp
  have "(k, Some a) \<notin> set (watched s)" for k
    by (rule connecting_unwatched [OF core]) (simp_all add: pc)
  then have "balanced (acc s1)"
    using b by (auto simp: e1 accounts_store) (auto simp: balanced_def accounts_def)
  moreover have "acc s' = acc s1" using acc_calls(4) [OF s2] by (simp add: s')
  moreover have "map_option hist (objects s1 a) = Some ([], [])" by (simp add: e1 store_object_def h)
  moreover have "m_connectThread s' = m_connectThread s"
    using s2 by (auto simp: s' e1 call_local_def call_def bind_eq_Some_conv split_beta)
  ultimately show ?thesis by (auto simp: accounts_def dest: fun_cong [where x = a])
qed

lemma message_pc:
  "createErrorMessage V h b p s = Some (m, s') \<Longrightarrow> m_connectThread s' = m_connectThread s"
  by (auto simp: createErrorMessage_def call_local_def call_def Let_def bind_eq_Some_conv split_beta
      split: if_splits)

lemma balanced_failed:
  assumes r: "connect_failed V a ip port s = Some s'" and core: "core_inv s"
    and pc: "m_connectThread s = C_Failed i n a ip port" and b: "balanced (acc s)"
  shows "balanced (acc s') \<and> m_connectThread s' = m_connectThread s"
proof -
  obtain s1 where s1: "acc s1 = acc s" "m_connectThread s1 = m_connectThread s"
    and d: "delete_object V (Some a) s1 = Some s'"
  proof (cases "m_callbackConnectError (m_callbacks s)")
    case None
    with r that [of s] show thesis by (simp add: connect_failed_def)
  next
    case (Some c)
    then obtain m s1 where "createErrorMessage V ''Connect Error''
        (''Failed to connect to '' @ ip @ '':'' @ to_string_u16 port) (Some a) s = Some (m, s1)"
      and "delete_object V (Some a) (emit (ConnectError c m) s1) = Some s'"
      using r by (auto simp: connect_failed_def bind_eq_Some_conv)
    then show thesis
      using that [of "emit (ConnectError c m) s1"] acc_message message_pc
      by (simp add: accounts_emit) (simp add: emit_def)
  qed
  have "(k, Some a) \<notin> set (watched s)" for k
    by (rule connecting_unwatched [OF core]) (simp_all add: pc)
  then have "Some a \<notin> snd ` set (watched s1)" using s1(1) by (auto simp: accounts_def)
  with balanced_delete [OF d, of hist] s1 b d show ?thesis
    by (auto simp: delete_object_def bind_eq_Some_conv)
qed

lemma balanced_done:
  assumes d: "connect_done V a s = Some (pr, s')" and t: "trace_inv s"
    and c: "m_connection_counter s \<noteq> - 1" and pc: "m_connectThread s = C_Connected i n a"
    and b: "balanced (acc s)"
  shows "balanced (acc (s'\<lparr>m_connectThread := C_Notify i n pr\<rparr>))"
proof -
  let ?c = "m_connection_counter s + 1"
  obtain s1 where m: "make_peer V a ?c (s\<lparr>m_connection_counter := ?c\<rparr>) = Some (pr, s1)"
    and s': "s' = s1\<lparr>m_peers := umap_insert ?c pr (m_peers s1)\<rparr>"
    using d by (auto simp: connect_done_def Let_def bind_eq_Some_conv)
  have acc1: "acc s1 = acc s" using accounts_make_peer [OF m, of hist] by simp
  have ev: "events s1 = events s" using unloggedD(2) [OF make_peer_unlogged(1) [OF m]] by simp
  have "(None, Some a) \<in> set (watched s)" by (simp add: watched_def pc)
  then have "map_option hist (objects s a) = Some ([], [])"
    using b reported_None [of "events s"] by (fastforce simp: balanced_def accounts_def)
  moreover have "map_option hist (objects s1 a) = map_option hist (objects s a)"
    using acc1 by (auto simp: accounts_def dest: fun_cong [where x = a])
  ultimately have "map_option hist (objects s1 a) = Some ([], [])" by (simp only:)
  then show ?thesis
    using b make_peer_unlogged(5) [OF m] fresh_reports [OF t c] ev
    unfolding acc1 [symmetric] by (auto simp: s' balanced_def accounts_def watched_def umap_insert_def)
qed

lemma balanced_connect:
  assumes st: "connectThread_step V T s = Some s'" and core: "core_inv s" and t: "trace_inv s"
    and c: "m_connection_counter s \<noteq> - 1" and b: "balanced (acc s)"
  shows "balanced (acc s')"
proof (cases "m_connectThread s")
  case (C_For i n)
  with st b show ?thesis
    by (auto simp: connectThread_step_def balanced_begin [OF _ core b] split: if_splits)
next
  case (C_Try i n a ip port e)
  then obtain ok e' again s1 cp where "try_connect V T a ip port e s = Some ((ok, e', again), s1)"
    and s': "s' = s1\<lparr>m_connectThread := cp\<rparr>"
    and cp: "connected_socket cp = [] \<or> connected_socket cp = [Some a]"
    using st by (auto simp: connectThread_step_def bind_eq_Some_conv)
  from balanced_try [OF this(1) core C_Try b] cp show ?thesis
    unfolding s' by (intro balanced_pc [where a = a]) (auto simp: C_Try)
next
  case (C_Failed i n a ip port)
  then obtain s1 where "connect_failed V a ip port s = Some s1"
    and s': "s' = s1\<lparr>m_connectThread := C_For (i + 1) n\<rparr>"
    using st by (auto simp: connectThread_step_def bind_eq_Some_conv)
  from balanced_failed [OF this(1) core C_Failed b] show ?thesis by (simp add: s' C_Failed)
next
  case (C_Connected i n a)
  with st show ?thesis
    by (auto simp: connectThread_step_def bind_eq_Some_conv intro: balanced_done [OF _ t c _ b])
next
  case (C_Notify i n pr)
  then have "s' = (connect_notify pr s)\<lparr>m_connectThread := C_For (i + 1) n\<rparr>"
    using st by (simp add: connectThread_step_def)
  moreover have "m_connectThread (connect_notify pr s) = m_connectThread s"
    by (simp add: connect_notify_def fire_def emit_def split: option.split)
  moreover have "acc (connect_notify pr s) = acc s" by (simp add: connect_notify_def accounts_fire)
  ultimately show ?thesis using b C_Notify by simp
next
  case C_Pop
  with st b show ?thesis
    by (auto simp: connectThread_step_def bind_eq_Some_conv pop_potential_peer_def split: list.splits)
qed (use st b in \<open>auto simp: connectThread_step_def Let_def split: if_splits\<close>)

text \<open>What the socket has taken goes to the callback.\<close>

lemma balanced_send_front:
  assumes f: "send_front V s = Some s'" and core: "core_inv s"
    and cb: "m_callbackSent (m_callbacks s) = Some c" and b: "balanced (acc s)"
  shows "balanced (acc s')"
proof (cases "m_data_to_send s")
  case Nil
  with f b show ?thesis by (simp add: send_front_def)
next
  case (Cons e rest)
  obtain k dat where e: "e = (k, dat)" by (cases e)
  show ?thesis
  proof (cases "map_of (m_peers s) k")
    case None
    with f Cons e b show ?thesis
      by (auto simp: send_front_def bind_eq_Some_conv accounts_emit dest!: acc_message
          split: option.splits)
  next
    case (Some pp)
    obtain a where a: "m_socket pp = Some a" using peer_live [OF core Some] by blast
    have id: "m_connection_id pp = k"
      using core map_of_SomeD [OF Some] by (auto simp: core_inv_def peers_inv_def)
    show ?thesis
    proof (cases "m_to_be_deleted pp")
      case True
      with Some f Cons e b show ?thesis by (auto simp: send_front_def)
    next
      case False
      obtain n s1 where s1: "call (Some a) (vsend V dat) s = Some (n, s1)"
        using False Some f Cons e a by (auto simp: send_front_def bind_eq_Some_conv)
      obtain so so' w' where so: "objects s a = Some so"
        and v: "vsend V dat so (world s) = (n, so', w')" and e1: "s1 = store_object a so' w' s"
        using s1 by (auto simp: call_def bind_eq_Some_conv split_beta prod_eq_iff)
      have h: "hist so = reported (events s) (Some k)"
        using balancedD [OF b _ so] watched_peer [OF Some] a by simp
      show ?thesis
      proof (cases "0 < n")
        case True
        have "balanced (acc (emit (Sent c pp n) (store_object a so' w' s)))"
          by (rule balanced_told [OF b core Some a])
            (use True hist_send [OF v] in \<open>simp add: reported_told id h\<close>)
        moreover have "acc s' = acc (emit (Sent c pp n) (store_object a so' w' s))"
          using False Some f Cons e a True cb s1 by (auto simp: send_front_def fire_def e1)
        ultimately show ?thesis by simp
      next
        case n: False
        have "hist so' = hist so" using hist_send [OF v] n by simp
        then have "acc s1 = acc s" using so by (auto simp: e1 accounts_store) (auto simp: accounts_def)
        then show ?thesis
          using False Some f Cons e a n s1 b
          by (auto simp: send_front_def bind_eq_Some_conv Let_def dest!: acc_message split: if_splits)
      qed
    qed
  qed
qed

lemma balanced_send:
  assumes st: "sendThread_step V s = Some s'" and core: "core_inv s"
    and cb: "m_callbackSent (m_callbacks s) = Some c" and b: "balanced (acc s)"
  shows "balanced (acc s')"
  using st b balanced_send_front [OF _ core cb b]
  by (auto simp: sendThread_step_def bind_eq_Some_conv split: send_pc.splits if_splits)

text \<open>The owner: no call transfers data on a watched socket.\<close>

lemma acc_startListen: "startListenThreadIfNotRunning s = Some s' \<Longrightarrow> acc s' = acc s"
  by (auto simp: startListenThreadIfNotRunning_def Let_def split: if_splits)

lemma acc_doListen: "doListen port ipv s = Some s' \<Longrightarrow> acc s' = acc s"
  by (auto simp: doListen_def Let_def dest!: acc_startListen split: if_splits)

lemma acc_connectTo: "connectTo ip port s = Some s' \<Longrightarrow> acc s' = acc s"
  by (auto simp: connectTo_def Let_def bind_eq_Some_conv dest!: acc_startListen split: if_splits)

lemma acc_sendData: "sendData V pr d s = Some s' \<Longrightarrow> acc s' = acc s"
  by (auto simp: sendData_def Let_def bind_eq_Some_conv accounts_emit dest!: acc_message
      split: if_splits option.splits)

lemma acc_disconnectAll: "acc (disconnectAll s) = acc s"
proof -
  have "watched (disconnectAll s) = watched s"
    by (simp add: disconnectAll_def watched_def comp_def split_beta)
  then show ?thesis by (simp add: accounts_def) (simp add: disconnectAll_def)
qed

lemma balanced_setListener:
  assumes l: "setListener V p s = Some s'" and core: "core_inv s"
    and own: "m_owner s \<noteq> O_Destroyed" and b: "balanced (acc s)"
  shows "balanced (acc s')"
proof (cases p)
  case None
  with l b show ?thesis by (simp add: setListener_def)
next
  case (Some a)
  obtain s1 s2 where s1: "call (m_listener s) (\<lambda>so w. ((), vclose V so w)) s = Some ((), s1)"
    and s2: "delete_object V (m_listener s1) s1 = Some s2"
    and s': "s' = (let s = s2\<lparr>m_listener := p\<rparr>
      in if m_listening_enabled s then s\<lparr>m_changing_listener := True\<rparr> else s)"
    using l by (auto simp: setListener_def Some bind_eq_Some_conv Let_def)
  have w: "watched s1 = watched s" "m_listener s1 = m_listener s"
    using s1 by (auto simp: call_def bind_eq_Some_conv split_beta store_object_def)
  have "balanced (acc s2)"
    using balanced_delete [OF s2, of hist] watched_distinct(2) [OF core own] b acc_calls(2) [OF s1]
    by (simp add: w)
  then show ?thesis by (simp add: s' Let_def)
qed

lemma balanced_api:
  assumes a: "api V c s = Some s'" and core: "core_inv s"
    and own: "m_owner s \<noteq> O_Destroyed" and b: "balanced (acc s)"
  shows "balanced (acc s')"
proof (cases c)
  case (SetListener so)
  obtain p s0 where n: "new_object so s = (p, s0)" by fastforce
  have "m_owner s0 = m_owner s" using n by (auto simp: new_object_def)
  moreover have "balanced (acc s0)"
    using balanced_new [OF b n] core by (simp add: core_inv_def own_inv_def)
  ultimately show ?thesis
    using balanced_setListener [of "Some p" s0 s'] new_object_core(1) [OF core n] a own
    by (simp add: api_def SetListener n)
next
  case (SetSocketCreateFunction f)
  with a b show ?thesis by (auto simp: api_def setSocketInterfaceCreateFunction_def split: option.splits)
qed (use a b in \<open>auto simp: api_def registrations stopListening_def setConnectTimeout_def
    setSleepTime_def setReceiveBufferSize_def disconnectPeer_def acc_disconnectAll bind_eq_Some_conv
    dest!: acc_doListen acc_connectTo acc_sendData acc_calls split: if_splits\<close>)

lemma balanced_dtor_end:
  assumes d: "dtor_end V s = Some s'" and core: "core_inv s" and own: "m_owner s = O_JoinListen"
    and b: "balanced (acc s)"
  shows "balanced (acc s')"
proof -
  let ?s = "disconnectAll s"
  obtain s1 s2 where s1: "call (m_listener ?s) (\<lambda>so w. ((), vclose V so w)) ?s = Some ((), s1)"
    and s2: "delete_object V (m_listener s1) s1 = Some s2" and s': "s' = s2\<lparr>m_owner := O_Destroyed\<rparr>"
    using d by (auto simp: dtor_end_def Let_def bind_eq_Some_conv)
  have acc1: "acc s1 = acc s" using acc_calls(2) [OF s1] by (simp add: acc_disconnectAll)
  have l: "m_listener s1 = m_listener s"
    using s1 by (auto simp: call_def bind_eq_Some_conv split_beta disconnectAll_def)
  have "m_listener s \<notin> snd ` set (watched s)" using watched_distinct(2) [OF core] own by simp
  then have "m_listener s1 \<notin> snd ` set (watched s1)" using acc1 l by (simp add: accounts_def)
  with balanced_delete [OF s2, of hist] acc1 b show ?thesis by (simp add: s')
qed

lemma balanced_rehash:
  "mset ps = mset (m_peers s) \<Longrightarrow> balanced (acc s) \<Longrightarrow> balanced (acc (s\<lparr>m_peers := ps\<rparr>))"
  by (drule mset_eq_setD) (simp add: accounts_def watched_def)

end

section \<open>Along a run\<close>

text \<open>The runs of a node on which both callbacks are registered first and stay registered.\<close>

definition informed :: "('s, 'w) node \<Rightarrow> bool" where
  "informed s \<longleftrightarrow>
     m_callbackReceived (m_callbacks s) \<noteq> None \<and> m_callbackSent (m_callbacks s) \<noteq> None"

inductive informed_run ::
  "('s, 'w) ISocket \<Rightarrow> (int \<Rightarrow> 'w \<Rightarrow> int \<times> 'w) \<Rightarrow> ('s, 'w) node \<Rightarrow> bool"
  for V :: "('s, 'w) ISocket" and T :: "int \<Rightarrow> 'w \<Rightarrow> int \<times> 'w" where
  informed_init:
    "initial s \<Longrightarrow> m_connection_counter s \<noteq> - 1 \<Longrightarrow>
     informed_run V T (onSend (Some c') (onReceive (Some c) s))"
| informed_step:
    "informed_run V T s \<Longrightarrow> m_connection_counter s \<noteq> - 1 \<Longrightarrow> node_step V T s s' \<Longrightarrow> informed s' \<Longrightarrow>
     informed_run V T s'"

lemma informed_start:
  assumes "initial s" and "m_connection_counter s \<noteq> - 1"
  shows "unwrapped V T (onSend (Some c') (onReceive (Some c) s))"
proof -
  have own: "m_owner s = O_Running"
    using assms(1)
    by (auto simp: initial_def TcpNodePrivate_new_def create_socket_def new_object_def Let_def
        split: prod.splits option.splits)
  have "node_step V T s (onReceive (Some c) s)"
    by (rule api_step [where c = "OnReceive (Some c)"]) (use own in \<open>simp_all add: api_def\<close>)
  then have "unwrapped V T (onReceive (Some c) s)"
    by (rule unwrapped_step [OF unwrapped_init [OF assms(1)] assms(2)])
  moreover have "node_step V T (onReceive (Some c) s) (onSend (Some c') (onReceive (Some c) s))"
    by (rule api_step [where c = "OnSend (Some c')"])
      (use own in \<open>simp_all add: api_def onReceive_def\<close>)
  moreover have "m_connection_counter (onReceive (Some c) s) \<noteq> - 1"
    using assms(2) by (simp add: onReceive_def)
  ultimately show ?thesis by (blast intro: unwrapped_step)
qed

lemma informed_unwrapped: "informed_run V T s \<Longrightarrow> unwrapped V T s \<and> informed s"
proof (induction rule: informed_run.induct)
  case (informed_init s c' c)
  then show ?case using informed_start by (simp add: informed_def onSend_def onReceive_def)
qed (blast intro: unwrapped_step)

text \<open>A schedule that keeps the callbacks and does not wrap the counter.\<close>

fun stays_informed ::
  "('s, 'w) ISocket \<Rightarrow> (int \<Rightarrow> 'w \<Rightarrow> int \<times> 'w) \<Rightarrow> ('s, 'w) action list \<Rightarrow> ('s, 'w) node \<Rightarrow> bool"
where
  "stays_informed V T [] s = informed s"
| "stays_informed V T (x # xs) s =
     (informed s \<and> m_connection_counter s \<noteq> - 1 \<and>
        (case perform V T x s of None \<Rightarrow> False | Some s' \<Rightarrow> stays_informed V T xs s'))"

lemma stays_informed_start: "stays_informed V T xs s \<Longrightarrow> informed s"
  by (cases xs) simp_all

lemma run_informed:
  "informed_run V T s \<Longrightarrow> list_all action_allowed xs \<Longrightarrow> stays_informed V T xs s \<Longrightarrow>
     run_schedule V T xs s = Some s' \<Longrightarrow> informed_run V T s'"
proof (induction xs arbitrary: s)
  case (Cons x xs)
  from Cons.prems(4) obtain s1 where s1: "perform V T x s = Some s1" "run_schedule V T xs s1 = Some s'"
    by (auto simp: bind_eq_Some_conv)
  have "informed_run V T s1"
    using Cons.prems s1 perform_step [OF s1(1)]
    by (auto intro: informed_step dest: stays_informed_start)
  with Cons s1 show ?case by simp
qed simp

context traffic_log
begin

lemma balanced_step:
  assumes "node_step V T s s'" and inv: "node_inv s" and t: "trace_inv s"
    and c: "m_connection_counter s \<noteq> - 1" and V: "names_defined V"
    and i: "informed s" and b: "balanced (acc s)"
  shows "balanced (acc s')"
proof -
  note core = node_invD(1) [OF inv]
  from i obtain c1 c2 where cb: "m_callbackReceived (m_callbacks s) = Some c1"
    "m_callbackSent (m_callbacks s) = Some c2" by (auto simp: informed_def)
  from assms(1) show ?thesis
  proof cases
    case listen_step
    then show ?thesis by (intro balanced_listen [OF _ inv t c V cb(1) b])
  next
    case connect_step
    then show ?thesis by (intro balanced_connect [OF _ core t c b])
  next
    case send_step
    then show ?thesis by (intro balanced_send [OF _ core cb(2) b])
  next
    case (api_step c)
    then show ?thesis by (intro balanced_api [OF _ core _ b]) simp_all
  next
    case dtor_end_step
    then show ?thesis by (intro balanced_dtor_end [OF _ core _ b])
  next
    case (rehash_step ps)
    then show ?thesis using balanced_rehash b by simp
  qed (use b in \<open>simp_all add: dtor_begin_def dtor_send_def dtor_listen_def\<close>)
qed

lemma balanced_initial: "initial s \<Longrightarrow> balanced (acc s)"
  by (auto simp: initial_def TcpNodePrivate_new_def create_socket_def new_object_def Let_def
      balanced_def accounts_def watched_def split: prod.splits option.splits)

theorem accounts_balance:
  assumes "informed_run V T s" and "names_defined V"
  shows "balanced (acc s)"
  using assms(1)
proof induction
  case (informed_init s c' c)
  then show ?case using balanced_initial by (simp add: onSend_def onReceive_def)
next
  case (informed_step s s')
  note u = informed_unwrapped [OF informed_step.hyps(1)]
  show ?case
    using balanced_step [OF informed_step.hyps(3)] informed_step u
      reachable_inv [OF unwrapped_reachable assms(2)] unwrapped_trace assms(2) by blast
qed

end

section \<open>A run with traffic\<close>

text \<open>One accepted connection, on which two pieces of data arrive and two bytes are sent.\<close>

definition recorded_node :: "(socket \<times> traffic, lw) node" where
  "recorded_node =
     onSend (Some 4) (onReceive (Some 3)
       (TcpNodePrivate_new (\<lambda>w. (Some (Socket_new, [], []), w)) IPV4 (\<lambda>_. None) 0 lw_start 0))"

definition recorded_actions :: "(socket \<times> traffic, lw) action list" where
  "recorded_actions =
     [Call (DoListen 5 IPV4), World (\<lambda>w. w\<lparr>lw_backlog := 1, lw_inbox := [[1, 2], [3]]\<rparr>)] @
     replicate 5 Listen_thread @
     [Call (SendData loop_peer [7, 8]), Send_thread] @ replicate 4 Listen_thread"

lemma recorded_run:
  "stays_informed (recording loop_vt) loop_clock recorded_actions recorded_node"
  "ensures (run_schedule (recording loop_vt) loop_clock recorded_actions recorded_node) (\<lambda>s.
     map fst (m_peers s) = [1] \<and> reported (events s) (Some 1) = ([1, 2, 3], [2]))"
  by code_simp+

lemma recorded_informed:
  obtains s where "informed_run (recording loop_vt) loop_clock s" "map fst (m_peers s) = [1]"
    "reported (events s) (Some 1) = ([1, 2, 3], [2])"
proof -
  let ?s0 = "TcpNodePrivate_new (\<lambda>w. (Some (Socket_new, [], []), w)) IPV4 (\<lambda>_. None) 0 lw_start 0"
  have "initial ?s0" by (rule initialI) (simp_all add: creates_sockets_def)
  moreover have "m_connection_counter ?s0 \<noteq> - 1" by code_simp
  ultimately have "informed_run (recording loop_vt) loop_clock recorded_node"
    unfolding recorded_node_def by (rule informed_init)
  moreover have "list_all action_allowed recorded_actions"
    by (simp add: recorded_actions_def list_all_iff)
  ultimately show thesis using recorded_run that by (auto elim!: ensuresE dest: run_informed)
qed

end
