(* ===== verification/Spec2Isabelle.thy ===== *)
theory Spec2Isabelle
  imports NodeProgress DemoProps LoopbackWin Locks Wakeups TestRuns
    Network WorkQueues Delivery
begin

text \<open>
  \<^bold>\<open>simpwire\<close>, an asynchronous TCP library in C++ (\<^verbatim>\<open>src/src\<close>, \<^verbatim>\<open>src/include\<close>) with a command line
  client (\<^verbatim>\<open>src/demo/demo.cpp\<close>).

  \<^bold>\<open>The program.\<close> A \<open>TcpNode\<close> forwards to a \<open>TcpNodePrivate\<close>, which owns a listening socket, a
  table of peers, a queue of targets to connect to, a list of data to send, and three threads.
  The listen thread switches the listener on and off, accepts connections, receives from every
  peer and closes the connections that are scheduled for it; the connect thread works off the
  queue of targets; the send thread works off the list of data. They talk to the application
  through callbacks. All of them reach the network through the interface \<open>ISocket\<close>, which
  \<open>Socket\<close> implements on the system calls. A \<open>Peer\<close> is a handle with value semantics on a
  \<open>PeerPrivate\<close>, which holds the data of one connection.

  \<^bold>\<open>The theories\<close>, with the files they model:
  \<^item> \<open>Prelude\<close>: machine types, the outcome type (\<open>None\<close> is undefined behaviour or an uncaught
    exception), \<open>ensures\<close> (total correctness of a step), \<open>std::to_string\<close>, unordered maps.
  \<^item> \<open>Common\<close>: \<^verbatim>\<open>common.hpp\<close>. \<open>ISocket\<close>: \<^verbatim>\<open>ISocket.hpp\<close>, a record of functions, and its contracts
    as the locales \<open>errno_source\<close> and \<open>stream_socket\<close>.
  \<^item> \<open>Posix\<close>: the system calls as a record of functions over a world of any type, and what is
    assumed of them. \<open>Socket\<close>, \<open>SocketProps\<close>: \<^verbatim>\<open>Socket.cpp\<close>, the interpretation of the contracts.
    \<open>Streams\<close>: the two sockets of a connection, along any sequence of calls.
  \<^item> \<open>Winsock\<close>, \<open>SocketWin\<close>, \<open>SocketWinProps\<close>: the same for the \<^verbatim>\<open>_WIN32\<close> branches of \<^verbatim>\<open>Socket.cpp\<close>,
    over a record of Winsock calls, with the static counter that starts and stops Winsock.
  \<^item> \<open>SockHeap\<close>: the heap of socket objects, virtual calls, \<open>new\<close> and \<open>delete\<close>; a call through a
    null or dangling pointer and a double delete are \<open>None\<close>.
  \<^item> \<open>PeerPrivate\<close>, \<open>Peer\<close>: \<^verbatim>\<open>PeerPrivate.cpp\<close>, \<^verbatim>\<open>Peer.cpp\<close>; the locale \<open>value_objects\<close>.
  \<^item> \<open>NodeState\<close>, \<open>NodeApi\<close>: the members, construction, member functions and destructor of
    \<^verbatim>\<open>TcpNodePrivate.cpp\<close>; \<open>ListenThread\<close>, \<open>ConnectThread\<close>, \<open>SendThread\<close>: its three thread functions.
  \<^item> \<open>NodeInv\<close>, \<open>NodeSteps\<close>: the invariant of the node (who owns which socket, what the control
    points of the threads and the flags say about each other) and its preservation.
  \<^item> \<open>NodeSystem\<close>: the step relation of a node, reachable states, schedules. \<open>NodeTrace\<close>: the
    sequence of callbacks. \<open>NodeRefine\<close>: the table of connections as an abstract machine whose
    steps are labelled with what they do.
    \<open>NodeSpec\<close>, \<open>NodeProgress\<close>: what single operations do, and what the threads achieve.
    \<open>WorkQueues\<close>: the lists of data and of targets as queues, along a schedule. \<open>Delivery\<close>: what
    the sockets deliver, kept in a history variable, against what the callbacks are told.
  \<^item> \<open>Loopback\<close>, \<open>LoopbackWin\<close>: executable operating systems on which the properties are tried.
    \<open>TestRuns\<close>: the tests of the node with mock sockets (\<^verbatim>\<open>test/tst_tcpnode.hpp\<close>) as runs of the model.
    \<open>Network\<close>: an executable system with connections, on which the tests of the socket run
    (\<^verbatim>\<open>test/tst_socket.hpp\<close>) and two nodes talk to each other.
  \<^item> \<open>Locks\<close>: the order in which the code locks its two mutexes. \<open>Wakeups\<close>: its condition
    variables, each with its waiting thread and any number of threads that notify it.
  \<^item> \<open>TcpNode\<close>: \<^verbatim>\<open>TcpNode.cpp\<close>. \<open>DemoText\<close>, \<open>Demo\<close>, \<open>DemoProps\<close>: \<^verbatim>\<open>demo.cpp\<close>.

  \<^bold>\<open>State.\<close> The record \<open>node\<close> has the members of \<open>TcpNodePrivate\<close> under their names. A
  \<open>std::thread\<close> member holds the control point of its thread, with the locals that live across
  it; \<open>m_owner\<close> says how far the destructor has come. A callback is a number naming the
  closure; its invocations are recorded in \<open>events\<close>. The table of peers is an association list,
  its order the iteration order of the \<open>std::unordered_map\<close>, which \<open>rehash_step\<close> can change at
  any time. Static members and other nodes of the process are covered by \<open>other_nodes_step\<close>,
  which advances the connection counter.

  \<^bold>\<open>Steps.\<close> A thread function is cut where the code holds no lock, and each piece is one step;
  what a piece does while it holds \<open>m_data_access\<close> no other piece can see. Two callbacks that are
  invoked after \<open>m_data_access\<close> was released, those of a stopped listener (\<open>L_Stopped\<close>) and of a
  connection the node has opened (\<open>C_Notify\<close>), are pieces of their own. A wait on a
  condition variable is a step that is enabled when its condition holds. The owner's calls are
  steps of one thread; they may come between any two pieces. \<open>stopListening\<close> takes no lock, so
  its two writes are also steps of their own (\<open>stop_request_step\<close>, \<open>stop_wakeup_step\<close>). \<open>Locks\<close>
  looks inside the pieces: there every lock operation is a step; in \<open>Wakeups\<close> every operation on
  a condition and its condition variable is one.

  \<^bold>\<open>The properties.\<close> C1 to C21: the node in every reachable state (no undefined behaviour, who
  owns a socket, refinement of the abstract table of connections, order of callbacks), what
  each operation of the threads and the owner does on every branch, progress and termination of
  the threads, the data that goes through them, and the destructor. C22 to C25: the sockets on Linux, up to the
  stream of bytes between two of them; C26 to C29: on Windows, with the life time of Winsock. C30
  to C33: addresses, messages, buffer sizes and peer handles. C34 to C36: locking and waiting.
  C37 to C40: the client. Where the code does not do what its documentation or its own structure
  says, the property states what it does: late announcements (C5), targets tried several times
  (C14), a lost wake-up (C16), connections the destructor leaves open (C21), Winsock shut down
  under a socket (C29), errors that are lost (C31), deadlocks (C35) and others.

  \<^bold>\<open>Assumptions.\<close> The operating system is the record \<open>Sys\<close>, on Windows \<open>WinSys\<close>. Hypotheses on
  them are named in \<open>Posix\<close> and \<open>Winsock\<close>: what calls do to \<open>errno\<close> and to the set of open
  descriptors or handles (\<open>posix_errno\<close>, \<open>posix_fds\<close>, \<open>win_handles\<close>), the range of what \<open>recv\<close> and
  \<open>send\<close> return (\<open>posix_transfer\<close>) and what they do to the bytes on their way (\<open>posix_stream\<close>), that
  \<open>ioctlsocket\<close> fails on an invalid handle (\<open>win_ioctl_checks\<close>), the length \<open>getpeername\<close> reports
  (\<open>win_lengths\<close>), and that the system
  counts the starts of Winsock (\<open>win_startups\<close>). C1 to C3 hold for any implementation \<open>V\<close> of
  \<open>ISocket\<close> whose address queries are defined (\<open>names_defined\<close>); for \<open>Socket\<close> that means IPv4
  peers on Linux (C30) and any peer on Windows (C28). The clock \<open>T\<close> is a parameter, too; the
  time-out of C12 needs it to advance. No bound or fuel is used: the loops over finite lists are
  structural recursion, the thread loops and the retry loop are steps. C3, C4, C6 and C17 need that
  the 64-bit connection counter has not wrapped around (\<open>unwrapped\<close>, \<open>informed_run\<close>).
  C++ leaves open in which order the three queries of a new peer's address are evaluated, they
  are arguments of one call: the order is the compiler's, \<open>m_arg_order\<close>, which may differ from
  call to call, and every property of the node holds for all of them. A socket that is handed to
  the node, by \<open>setListener\<close> or by a creation function, must be owned by nobody else, because the
  node deletes it: in the model the object is new (\<open>api_call\<close>).

  \<^bold>\<open>Not modelled.\<close> Memory exhaustion, exceptions of the thread and mutex classes, and callbacks
  that throw. A callback that is registered, or a call that is made, while a piece of the listen
  thread runs takes effect before or after the piece. In the step relation of the node a wait
  always ends once its condition holds; that a notification can be missed is the subject of
  \<open>Wakeups\<close>. The destructor's first two writes, of \<open>m_destructor_called\<close> and of
  \<open>m_connect_thread_running\<close>, are one step of the node (they are two in \<open>Wakeups\<close>). The
  unsynchronised reads of \<open>m_callbackSendError\<close> and of the \<open>m_listening_enabled\<close>
  flags are steps of their own, not data races. The time between \<open>begin\<close> and \<open>end\<close> of a connect
  attempt is exact rather than a \<open>double\<close>. The test framework.
\<close>

section \<open>The node\<close>

text \<open>
  C1: Memory safety and totality of every piece. For any sockets whose address queries are
  defined (for those of the code on Linux: with IPv4 peers), in every reachable state of a node,
  each thread that is not waiting can take its next step, every member function the owner may
  call returns, and once the three threads have ended the last stage of the destructor can be
  taken: no null or dangling pointer is used, no object is deleted twice, no container access is
  out of range, no joinable thread is overwritten. That the threads end, and with that the joins
  of the destructor, is not part of it: see C12, C36.
\<close>

theorem node_never_fails:
  assumes "reachable V T s" and "names_defined V"
  shows "(listenThread_enabled s \<longrightarrow> listenThread_step V s \<noteq> None) \<and>
    (connectThread_enabled s \<longrightarrow> connectThread_step V T s \<noteq> None) \<and>
    (sendThread_enabled s \<longrightarrow> sendThread_step V s \<noteq> None) \<and>
    (m_owner s = O_Running \<and> api_allowed c \<longrightarrow> api V c s \<noteq> None) \<and>
    (m_owner s = O_JoinListen \<and> listen_stopped s \<longrightarrow> dtor_end V s \<noteq> None)"
proof -
  note inv = reachable_inv [OF assms]
  show ?thesis
    using ensures_defined [OF listenThread_step_ok [OF inv _ assms(2)]]
      ensures_defined [OF connectThread_step_ok [OF inv _ assms(2), of T]]
      ensures_defined [OF sendThread_step_ok [OF inv], of V]
      ensures_defined [OF api_ok [OF inv], of c V] ensures_defined [OF dtor_end_ok [OF inv], of V]
    by blast
qed

theorem node_never_fails_witness:
  "ensures (loop_run loop_accepted) (\<lambda>s. listenThread_enabled s \<and>
     listenThread_step loop_vt s \<noteq> None \<and> api loop_vt DisconnectAll s \<noteq> None)"
proof -
  have "ensures (loop_run loop_accepted) (\<lambda>s. listenThread_enabled s \<and> m_owner s = O_Running)"
    by code_simp
  then obtain s where "loop_run loop_accepted = Some s" "reachable loop_vt loop_clock s"
    "listenThread_enabled s \<and> m_owner s = O_Running"
    by (rule loop_reached) (rule loop_runs_allowed)
  with node_never_fails [OF _ loop_names, of loop_clock s DisconnectAll] show ?thesis by simp
qed

text \<open>
  C2: Ownership of sockets. In every reachable state the listener, the connect thread's new
  socket and the sockets of the peers are pairwise different live objects, and every peer is
  filed under its own id and valid.
\<close>

theorem sockets_owned_once:
  assumes "reachable V T s" and "names_defined V"
  shows "distinct (owned s) \<and> set (owned s) \<subseteq> Some ` live s \<and> peers_inv (m_peers s)"
  using node_invD(1) [OF reachable_inv [OF assms]] by (simp only: core_inv_def own_inv_def)

theorem sockets_owned_once_witness:
  "ensures (loop_run loop_accepted) (\<lambda>s. owned s = [Some 0, Some 1] \<and> distinct (owned s) \<and>
     set (owned s) \<subseteq> Some ` live s)"
proof -
  have "ensures (loop_run loop_accepted) (\<lambda>s. owned s = [Some 0, Some 1])" by code_simp
  then obtain s where "loop_run loop_accepted = Some s" "reachable loop_vt loop_clock s"
    "owned s = [Some 0, Some 1]"
    by (rule loop_reached) (rule loop_runs_allowed)
  with sockets_owned_once [OF _ loop_names, of loop_clock s] show ?thesis by simp
qed

text \<open>
  C3: Refinement. As long as the 64-bit connection counter does not wrap around, every step of
  the node is one step of the abstract table of connections, or leaves it as it is: open a
  connection under the next id of the counter, let an active one fail with a reason, close one or
  all of them on request; and it removes none. The round of the listen thread is the exception:
  there each of its parts is such a step. Accepting opens at most one connection, receiving only
  lets active connections fail, and deleting removes at most one, which was scheduled before. So
  an id that has been given out is never used for another connection.
\<close>

theorem node_refines_connections:
  assumes "unwrapped V T s" and "m_connection_counter s \<noteq> - 1" and "names_defined V"
    and "node_step V T s s'"
  shows "(if m_listenThread s = L_Poll \<and> listenThread_step V s = Some s'
     then \<exists>s1 s2 s3.
        accept_peer V s = Some s1 \<and> acts_as {Opens} s s1 \<and>
        receive_loop V (keys_of (m_peers s1)) s1 = Some s2 \<and> conn_failures (table s1) (table s2) \<and>
        delete_next V s2 = Some s3 \<and> acts_as (range Removes) s2 s3 \<and>
        s' = s3\<lparr>m_listenThread := L_Loop\<rparr>
     else \<exists>l. l \<notin> range Removes \<and> conn_step l (table s) (table s')) \<and>
    (\<forall>k \<le> m_connection_counter s. conns s k = None \<longrightarrow> conns s' k = None)"
proof -
  have "node_inv s" by (rule reachable_inv [OF unwrapped_reachable [OF assms(1)] assms(3)])
  note r = node_step_refines [OF assms(4) this assms(3) unwrapped_trace [OF assms(1)] assms(2)]
  show ?thesis
  proof
    show "\<forall>k \<le> m_connection_counter s. conns s k = None \<longrightarrow> conns s' k = None"
      using refines_no_reuse [OF r] by (simp add: no_reuse_def table_def)
  qed (use r in \<open>unfold refines_connections_def round_refines_def\<close>)
qed

theorem node_refines_connections_witness:
  "ensures (loop_run loop_accepted) (\<lambda>s. conns s 1 = Some Active \<and>
     (\<exists>l. l \<notin> range Removes \<and> conn_step l (table s) (table (disconnectAll s))))"
proof -
  have "ensures (loop_run loop_accepted) (\<lambda>s. conns s 1 = Some Active \<and> m_owner s = O_Running \<and>
      m_listenThread s = L_Loop \<and> m_connection_counter s \<noteq> - 1)"
    by code_simp
  then obtain s where s: "loop_run loop_accepted = Some s" "unwrapped loop_vt loop_clock s"
    "conns s 1 = Some Active \<and> m_owner s = O_Running \<and> m_listenThread s = L_Loop \<and>
      m_connection_counter s \<noteq> - 1"
    by (rule loop_unwrapped) (rule loop_runs_allowed loop_runs_below)+
  have "node_step loop_vt loop_clock s (disconnectAll s)"
    using s(3) by (intro api_step [where c = DisconnectAll]) (simp_all add: api_def)
  from node_refines_connections [OF s(2) _ loop_names this] s show ?thesis by simp
qed

text \<open>
  C4: The order of callbacks. As long as the 64-bit connection counter does not wrap around, a
  connection is announced at most once; the announcement of an accepted connection precedes
  every other event of it, and nothing but the announcement of a connection the node has opened
  itself follows its closing event. A connection that was reported closed is not in the table.
\<close>

theorem callbacks_in_order:
  assumes "unwrapped V T s"
  shows "sorted_wrt ev_order (events s) \<and>
    (\<forall>e \<in> set (events s). closes e \<longrightarrow> (\<forall>k \<in> set (keys_of (m_peers s)). ev_peer e \<noteq> Some k))"
  using unwrapped_trace [OF assms] unfolding trace_inv_def trace_ok_def by blast

theorem callbacks_in_order_witness:
  "ensures (loop_run loop_closed) (\<lambda>s. map ev_peer (events s) = [Some 1, Some 1] \<and>
     map closes (events s) = [False, True] \<and> sorted_wrt ev_order (events s))"
proof -
  have "ensures (loop_run loop_closed) (\<lambda>s. map ev_peer (events s) = [Some 1, Some 1] \<and>
     map closes (events s) = [False, True])" by code_simp
  then obtain s where "loop_run loop_closed = Some s" "unwrapped loop_vt loop_clock s"
    "map ev_peer (events s) = [Some 1, Some 1] \<and> map closes (events s) = [False, True]"
    by (rule loop_unwrapped) (rule loop_runs_allowed loop_runs_below)+
  with callbacks_in_order show ?thesis by auto
qed

text \<open>
  C5: A late announcement. The connect thread files a connection, unlocks, and invokes its
  callback later: on a connection the node has opened, data can be reported, and its closing,
  before the callback that says that it was established.
\<close>

theorem announcement_can_be_late:
  "\<exists>s. unwrapped loop_vt loop_clock s \<and> map ev_peer (events s) = [Some 1, Some 1, Some 1] \<and>
     map closes (events s) = [False, True, False] \<and> map opened (events s) = [False, False, True]"
proof -
  have "ensures (loop_run loop_late) (\<lambda>s. map ev_peer (events s) = [Some 1, Some 1, Some 1] \<and>
     map closes (events s) = [False, True, False] \<and> map opened (events s) = [False, False, True])"
    by code_simp
  then obtain s where s: "loop_run loop_late = Some s" "unwrapped loop_vt loop_clock s"
    "map ev_peer (events s) = [Some 1, Some 1, Some 1] \<and>
     map closes (events s) = [False, True, False] \<and> map opened (events s) = [False, False, True]"
    by (rule loop_unwrapped) (rule loop_runs_allowed loop_runs_below)+
  show ?thesis by (rule exI [of _ s], rule conjI [OF s(2) s(3)])
qed

text \<open>
  C6: Accepting. When the listener hands out a connection, the listen thread files one new peer
  with a fresh socket, a fresh id, and the addresses the socket reports, queried in the order the
  compiler has chosen; nothing else in the table changes, the callback gets that peer, and
  \<open>latestPeer\<close> returns it.
\<close>

theorem accept_registers:
  assumes "unwrapped V T s" and "m_connection_counter s \<noteq> - 1" and "names_defined V"
    and "m_listener s = Some l" and "objects s l = Some so"
    and "visListener V so" and "visListening V so" and "m_listener_available s"
    and "vaccept V so (world s) = (Some n, so', w1)"
  shows "ensures (accept_peer V s) (\<lambda>s'. \<exists>a pp w2.
    a \<notin> live s \<and> objects s' a = Some n \<and> m_socket pp = Some a \<and> m_valid pp \<and>
    \<not> m_to_be_deleted pp \<and> m_connection_id pp = m_connection_counter s + 1 \<and>
    query_address V (m_arg_order s w1) n w1 =
      Some ((m_ip_address pp, m_port_number pp, m_hostname pp), w2) \<and>
    m_peers s' = (m_connection_id pp, pp) # m_peers s \<and> latestPeer s' = Some (Some pp) \<and>
    events s' = events s @ (case m_callbackNewPeerConnected (m_callbacks s) of
      None \<Rightarrow> [] | Some c \<Rightarrow> [NewPeerConnected c pp]))"
  using node_invD(1) [OF reachable_inv [OF unwrapped_reachable [OF assms(1)] assms(3)]]
    unwrapped_trace [OF assms(1)] assms(2-)
  by (rule accept_newest)

theorem accept_registers_witness:
  "ensures (loop_run loop_listening \<bind> accept_peer loop_vt) (\<lambda>s'. \<exists>pp.
     latestPeer s' = Some (Some pp) \<and> m_connection_id pp = 1 \<and> m_valid pp)"
proof -
  have "ensures (loop_run loop_listening) (\<lambda>s. m_connection_counter s = 0 \<and>
      m_listener s = Some 0 \<and> m_listener_available s \<and>
      (case objects s 0 of None \<Rightarrow> False | Some so \<Rightarrow> m_is_listener so \<and> m_is_listening so \<and>
         fst (Socket_accept loopback so (world s)) \<noteq> None))" by code_simp
  then obtain s where s: "loop_run loop_listening = Some s" "unwrapped loop_vt loop_clock s"
    "m_connection_counter s = 0 \<and> m_listener s = Some 0 \<and> m_listener_available s \<and>
      (case objects s 0 of None \<Rightarrow> False | Some so \<Rightarrow> m_is_listener so \<and> m_is_listening so \<and>
         fst (Socket_accept loopback so (world s)) \<noteq> None)"
    by (rule loop_unwrapped) (rule loop_runs_allowed loop_runs_below)+
  then obtain so n so' w1 where "objects s 0 = Some so" "m_is_listener so" "m_is_listening so"
    "Socket_accept loopback so (world s) = (Some n, so', w1)"
    by (cases "objects s 0"; cases "Socket_accept loopback (the (objects s 0)) (world s)") auto
  then show ?thesis
    using accept_registers [OF s(2) _ loop_names, of 0 so n so' w1] s(1,3)
    by (auto elim!: ensures_mono)
qed

text \<open>
  C7: \<open>latestPeer\<close>. It never throws; on a node with peers it returns one of them, the one with
  the greatest id, and otherwise a default-constructed peer.
\<close>

theorem latest_peer_is_greatest:
  assumes "reachable V T s" and "names_defined V"
  shows "ensures (latestPeer s) (\<lambda>p.
    if m_peers s = [] then p = Some PeerPrivate_new
    else \<exists>k pp. (k, pp) \<in> set (m_peers s) \<and> p = Some pp \<and> m_connection_id pp = k \<and>
           (\<forall>k' \<in> set (keys_of (m_peers s)). k' \<le> k))"
  using latestPeer_spec [OF node_invD(1) [OF reachable_inv [OF assms]]] .

theorem latest_peer_is_greatest_witness:
  "ensures (loop_run loop_accepted \<bind> latestPeer) (\<lambda>p. Peer_id p = 1)"
proof -
  have "ensures (loop_run loop_accepted) (\<lambda>s. keys_of (m_peers s) = [1])" by code_simp
  then obtain s where s: "loop_run loop_accepted = Some s" "reachable loop_vt loop_clock s"
    "keys_of (m_peers s) = [1]"
    by (rule loop_reached) (rule loop_runs_allowed)
  then show ?thesis
    using latest_peer_is_greatest [OF s(2) loop_names]
    by (auto elim!: ensures_mono simp: Peer_id_def)
qed

text \<open>
  C8: Closing. One pass of the deletion takes the first connection that is scheduled: its
  socket is deleted, its entry is erased, all others stay, and exactly the callback that fits
  the reason is invoked, if it is set; without one the pass changes nothing. As many passes as
  there are scheduled connections remove exactly these, in the order of the table, with one
  fitting callback each.
\<close>

theorem scheduled_connections_close:
  assumes "reachable V T s" and "names_defined V"
  shows "(case next_scheduled (m_peers s) of
      None \<Rightarrow> delete_next V s = Some s
    | Some (k, pp) \<Rightarrow> ensures (delete_next V s) (\<lambda>s'. m_peers s' = AList.delete k (m_peers s) \<and>
        events s' = events s @ closing_events (m_callbacks s) pp \<and>
        Some ` live s' = Some ` live s - {m_socket pp})) \<and>
    ensures (delete_passes V (length (scheduled (m_peers s))) s) (\<lambda>s'.
      m_peers s' = filter (\<lambda>(k, pp). \<not> m_to_be_deleted pp) (m_peers s) \<and>
      events s' = events s @
        concat (map (\<lambda>(k, pp). closing_events (m_callbacks s) pp) (scheduled (m_peers s))))"
proof (rule conjI)
  note core = node_invD(1) [OF reachable_inv [OF assms]]
  show "case next_scheduled (m_peers s) of
      None \<Rightarrow> delete_next V s = Some s
    | Some (k, pp) \<Rightarrow> ensures (delete_next V s) (\<lambda>s'. m_peers s' = AList.delete k (m_peers s) \<and>
        events s' = events s @ closing_events (m_callbacks s) pp \<and>
        Some ` live s' = Some ` live s - {m_socket pp})"
  proof (cases "next_scheduled (m_peers s)")
    case None
    then show ?thesis by (simp add: delete_next_def)
  next
    case (Some p)
    obtain k pp where p: "p = (k, pp)" by (cases p)
    show ?thesis
      unfolding Some p option.case prod.case
      by (rule ensures_mono [OF delete_next_spec [OF core Some [unfolded p]]]) simp
  qed
  show "ensures (delete_passes V (length (scheduled (m_peers s))) s) (\<lambda>s'.
      m_peers s' = filter (\<lambda>(k, pp). \<not> m_to_be_deleted pp) (m_peers s) \<and>
      events s' = events s @
        concat (map (\<lambda>(k, pp). closing_events (m_callbacks s) pp) (scheduled (m_peers s))))"
    by (rule delete_passes_spec [OF core refl])
qed

theorem scheduled_connections_close_witness:
  "ensures (loop_run (loop_accepted @ [Call DisconnectAll]) \<bind> delete_passes loop_vt 1)
     (\<lambda>s'. m_peers s' = [])"
proof -
  have "ensures (loop_run (loop_accepted @ [Call DisconnectAll])) (\<lambda>s.
      length (scheduled (m_peers s)) = 1 \<and>
      filter (\<lambda>(k, pp). \<not> m_to_be_deleted pp) (m_peers s) = [])" by code_simp
  then obtain s where s: "loop_run (loop_accepted @ [Call DisconnectAll]) = Some s"
    "reachable loop_vt loop_clock s" "length (scheduled (m_peers s)) = 1 \<and>
      filter (\<lambda>(k, pp). \<not> m_to_be_deleted pp) (m_peers s) = []"
    by (rule loop_reached) (use loop_runs_allowed(2) in simp)
  from conjunct2 [OF scheduled_connections_close [OF s(2) loop_names]] s(1,3) show ?thesis
    by (auto elim!: ensures_mono)
qed

text \<open>
  C9: Receiving. A scheduled connection is skipped. If the socket of any other is not connected,
  nothing is called on it, and the connection is scheduled as faulty with that message. If it is
  connected, the result of \<open>receive\<close> decides: data goes to the callback and the connection stays,
  nothing received changes nothing, the peer's disconnection and errors schedule the connection
  with that reason. No other connection is touched.
\<close>

theorem receive_outcome:
  assumes "reachable V T s" and "names_defined V" and "map_of (m_peers s) k = Some pp"
    and "m_socket pp = Some a" and "objects s a = Some so"
    and "vreceive V [] so (world s) = ((res, d), so', w')"
  shows "if m_to_be_deleted pp then receive_peer V k s = Some s
    else if \<not> visConnected V so
    then ensures (receive_peer V k s) (\<lambda>s'.
      conns s' = (conns s)(k \<mapsto> Closing PEER_WAS_DISCONNECTED_DUE_TO_ERROR) \<and>
      map_option m_errmsg (map_of (m_peers s') k) =
        Some \<lparr>msg_head = ''Receive Error'', msg_body = ''Socket is not connected.''\<rparr> \<and>
      events s' = events s \<and> objects s' = objects s \<and> world s' = world s)
    else ensures (receive_peer V k s) (\<lambda>s'. conns s' = after_receive res k (conns s) \<and>
      events s' = events s @
        (case m_callbackReceived (m_callbacks s) of
           None \<Rightarrow> [] | Some c \<Rightarrow> if res = RR_OK then [Received c pp d] else []))"
proof -
  note core = node_invD(1) [OF reachable_inv [OF assms(1,2)]]
  have "\<not> m_to_be_deleted pp \<Longrightarrow> \<not> visConnected V so \<Longrightarrow> ensures (receive_peer V k s) (\<lambda>s'.
      conns s' = (conns s)(k \<mapsto> Closing PEER_WAS_DISCONNECTED_DUE_TO_ERROR) \<and>
      map_option m_errmsg (map_of (m_peers s') k) =
        Some \<lparr>msg_head = ''Receive Error'', msg_body = ''Socket is not connected.''\<rparr> \<and>
      events s' = events s \<and> objects s' = objects s \<and> world s' = world s)"
    using conns_schedule [OF assms(3)] assms(3)
    by (simp add: receive_peer_unconnected [OF assms(3) _ assms(4,5)])
      (simp add: update_peer_def map_of_map_entry)
  then show ?thesis
    using receive_peer_spec [OF core assms(3) _ assms(4,5) _ assms(6)]
      receive_peer_scheduled [OF assms(3)]
    by (cases "m_to_be_deleted pp") simp_all
qed

theorem receive_outcome_witness:
  "ensures (loop_run loop_receiving \<bind> receive_peer loop_vt 1) (\<lambda>s'. conns s' 1 = Some Active \<and>
     (case last (events s') of Received c pp d \<Rightarrow> c = 3 \<and> d = [1, 2, 3] | _ \<Rightarrow> False))"
proof -
  have "ensures (loop_run loop_receiving) (\<lambda>s.
      m_callbackReceived (m_callbacks s) = Some 3 \<and>
      (case map_of (m_peers s) 1 of None \<Rightarrow> False | Some pp \<Rightarrow> \<not> m_to_be_deleted pp \<and>
         m_socket pp = Some 1 \<and> (case objects s 1 of None \<Rightarrow> False | Some so \<Rightarrow>
           m_is_connected so \<and> fst (Socket_receive loopback [] so (world s)) = (RR_OK, [1, 2, 3]))))"
    by code_simp
  then obtain s where s: "loop_run loop_receiving = Some s" "reachable loop_vt loop_clock s"
    "m_callbackReceived (m_callbacks s) = Some 3 \<and>
      (case map_of (m_peers s) 1 of None \<Rightarrow> False | Some pp \<Rightarrow> \<not> m_to_be_deleted pp \<and>
         m_socket pp = Some 1 \<and> (case objects s 1 of None \<Rightarrow> False | Some so \<Rightarrow>
           m_is_connected so \<and> fst (Socket_receive loopback [] so (world s)) = (RR_OK, [1, 2, 3])))"
    by (rule loop_reached) (rule loop_runs_allowed)
  then obtain pp so where pp: "map_of (m_peers s) 1 = Some pp" "\<not> m_to_be_deleted pp"
    "m_socket pp = Some 1" "objects s 1 = Some so" "m_is_connected so"
    "fst (Socket_receive loopback [] so (world s)) = (RR_OK, [1, 2, 3])"
    by (auto split: option.splits)
  then obtain so' w' where "Socket_receive loopback [] so (world s) = ((RR_OK, [1, 2, 3]), so', w')"
    by (metis prod.collapse)
  moreover have "conns s 1 = Some Active" using pp by (simp add: conns_of_def status_def)
  ultimately show ?thesis
    using receive_outcome [OF s(2) loop_names pp(1,3,4), of RR_OK "[1, 2, 3]" so' w'] pp s
    by (auto elim!: ensures_mono simp: after_receive_def)
qed

text \<open>
  C10: Sending. The front of the output list leaves it whatever comes of it. For an unknown
  connection there is one error report; for one that is scheduled for closing nothing happens.
  Otherwise all its bytes are handed to the connection's socket in one \<open>send\<close>: a positive count
  goes to the callback; any other result schedules the connection as faulty when an error
  callback is set, and is ignored otherwise (the error callback itself is not invoked).
\<close>

theorem send_outcome:
  assumes "reachable V T s" and "names_defined V" and "m_data_to_send s = (k, dat) # rest"
  shows "case map_of (m_peers s) k of
      None \<Rightarrow> send_front V s = Some (s\<lparr>events := events s @
        (case m_callbackSendError (m_callbacks s) of None \<Rightarrow> []
         | Some c \<Rightarrow> [SendError c \<lparr>msg_head = ''Send Error'',
                       msg_body = ''Specified peer does not exist.''\<rparr>]), m_data_to_send := rest\<rparr>)
    | Some pp \<Rightarrow>
        if m_to_be_deleted pp then send_front V s = Some (s\<lparr>m_data_to_send := rest\<rparr>)
        else \<exists>a so. m_socket pp = Some a \<and> objects s a = Some so \<and>
          (\<forall>n so' w'. vsend V dat so (world s) = (n, so', w') \<longrightarrow>
            ensures (send_front V s) (\<lambda>s'. m_data_to_send s' = rest \<and>
              (if 0 < n then conns s' = conns s \<and> objects s' a = Some so' \<and> world s' = w' \<and>
                  events s' = events s @
                    (case m_callbackSent (m_callbacks s) of None \<Rightarrow> [] | Some c \<Rightarrow> [Sent c pp n])
               else events s' = events s \<and>
                 conns s' = (if m_callbackSendError (m_callbacks s) = None then conns s
                   else (conns s)(k \<mapsto> Closing PEER_WAS_DISCONNECTED_DUE_TO_ERROR)))))"
proof (cases "map_of (m_peers s) k")
  case None
  then show ?thesis using send_front_unknown [OF assms(3)] by simp
next
  case (Some pp)
  note core = node_invD(1) [OF reachable_inv [OF assms(1,2)]]
  obtain a so where a: "m_socket pp = Some a" "objects s a = Some so"
    using peer_live [OF core Some] by (auto simp: live_def)
  show ?thesis
  proof (cases "m_to_be_deleted pp")
    case True
    then show ?thesis using send_front_scheduled [OF assms(3) Some] Some by simp
  next
    case False
    from send_front_spec [OF core assms(3) Some False a, of V] show ?thesis
      unfolding Some option.case using False a by auto
  qed
qed

theorem send_outcome_witness:
  "ensures (loop_run loop_sending \<bind> send_front loop_vt) (\<lambda>s'. m_data_to_send s' = [] \<and>
     (case last (events s') of Sent c pp n \<Rightarrow> c = 4 \<and> n = 2 | _ \<Rightarrow> False))"
proof -
  have "ensures (loop_run loop_sending) (\<lambda>s. m_data_to_send s = [(1, [7, 8])] \<and>
      m_callbackSent (m_callbacks s) = Some 4 \<and>
      (case map_of (m_peers s) 1 of None \<Rightarrow> False | Some pp \<Rightarrow> \<not> m_to_be_deleted pp \<and>
         m_socket pp = Some 1 \<and> (case objects s 1 of None \<Rightarrow> False | Some so \<Rightarrow>
           fst (Socket_send loopback [7, 8] so (world s)) = 2)))"
    by code_simp
  then obtain s where s: "loop_run loop_sending = Some s" "reachable loop_vt loop_clock s"
    "m_data_to_send s = [(1, [7, 8])] \<and> m_callbackSent (m_callbacks s) = Some 4 \<and>
      (case map_of (m_peers s) 1 of None \<Rightarrow> False | Some pp \<Rightarrow> \<not> m_to_be_deleted pp \<and>
         m_socket pp = Some 1 \<and> (case objects s 1 of None \<Rightarrow> False | Some so \<Rightarrow>
           fst (Socket_send loopback [7, 8] so (world s)) = 2))"
    by (rule loop_reached) (rule loop_runs_allowed)
  then obtain pp so where pp: "map_of (m_peers s) 1 = Some pp" "\<not> m_to_be_deleted pp"
    "m_socket pp = Some 1" "objects s 1 = Some so"
    "fst (Socket_send loopback [7, 8] so (world s)) = 2"
    by (auto split: option.splits)
  then obtain so' w' where v: "Socket_send loopback [7, 8] so (world s) = (2, so', w')"
    by (metis prod.collapse)
  have "m_data_to_send s = (1, [7, 8]) # []" using s(3) by simp
  from send_outcome [OF s(2) loop_names this] pp v s(3)
  have "ensures (send_front loop_vt s) (\<lambda>s'. m_data_to_send s' = [] \<and>
      events s' = events s @ [Sent 4 pp 2])"
    by (auto elim!: ensures_mono)
  with s(1) show ?thesis by (auto elim!: ensures_mono)
qed

text \<open>
  C11: Progress of sending. At the top of its loop with data waiting, the send thread removes
  the front within three steps, also when the number of entries is a multiple of 256, which
  the code's \<open>uint8_t\<close> copy of the size takes for zero.
\<close>

theorem send_thread_progress:
  assumes "reachable V T s" and "names_defined V" and "m_sendThread s = S_Loop"
    and "m_send_thread_running s" and "m_data_to_send s \<noteq> []"
  shows "\<exists>n \<le> 3. ensures (run_schedule V T (replicate n Send_thread) s)
    (\<lambda>s'. m_sendThread s' = S_Loop \<and> m_data_to_send s' = tl (m_data_to_send s))"
  using node_invD(1) [OF reachable_inv [OF assms(1,2)]] assms(3-5) by (rule send_progress)

theorem send_thread_progress_witness:
  "ensures (loop_run loop_sending) (\<lambda>s. \<exists>n \<le> 3.
     ensures (run_schedule loop_vt loop_clock (replicate n Send_thread) s)
       (\<lambda>s'. m_data_to_send s' = []))"
proof -
  have "ensures (loop_run loop_sending) (\<lambda>s. m_data_to_send s = [(1, [7, 8])] \<and>
      m_sendThread s = S_Loop \<and> m_send_thread_running s)" by code_simp
  then obtain s where s: "loop_run loop_sending = Some s" "reachable loop_vt loop_clock s"
    "m_data_to_send s = [(1, [7, 8])] \<and> m_sendThread s = S_Loop \<and> m_send_thread_running s"
    by (rule loop_reached) (rule loop_runs_allowed)
  with send_thread_progress [OF s(2) loop_names] show ?thesis
    by (fastforce elim!: ensures_mono)
qed

text \<open>
  C12: Termination of an attempt to connect. If the clock advances by at least \<open>\<delta>\<close> nanoseconds
  per pass, the retry loop ends, with success or failure, within the number of passes that the
  timeout allows, whatever the socket returns.
\<close>

theorem connect_attempt_ends:
  assumes "reachable V T s" and "names_defined V"
    and "m_connectThread s = C_Try i n a ip port e"
    and "\<And>ms w. \<delta> \<le> fst (T ms w)" and "0 < \<delta>"
    and "0 < k" and "m_connect_timeout s * 1000000 - e < int k * \<delta>"
  shows "\<exists>j \<le> k. ensures (run_schedule V T (replicate j Connect_thread) s)
    (\<lambda>s'. m_connectThread s' = C_Connected i n a \<or> m_connectThread s' = C_Failed i n a ip port)"
  using node_invD(1) [OF reachable_inv [OF assms(1,2)]] assms(3-) by (rule try_ends_within)

theorem connect_attempt_ends_witness:
  "ensures (loop_run (loop_connecting @ [Connect_thread])) (\<lambda>s. \<exists>j \<le> 3000000001.
     ensures (run_schedule loop_vt loop_clock (replicate j Connect_thread) s)
       (\<lambda>s'. m_connectThread s' = C_Connected 0 2 1 \<or>
             m_connectThread s' = C_Failed 0 2 1 ''a'' 1))"
proof -
  have "ensures (loop_run (loop_connecting @ [Connect_thread])) (\<lambda>s.
      m_connectThread s = C_Try 0 2 1 ''a'' 1 0 \<and> m_connect_timeout s = 3000)" by code_simp
  then obtain s where s: "loop_run (loop_connecting @ [Connect_thread]) = Some s"
    "reachable loop_vt loop_clock s"
    "m_connectThread s = C_Try 0 2 1 ''a'' 1 0 \<and> m_connect_timeout s = 3000"
    by (rule loop_reached) (use loop_runs_allowed(7) in simp)
  have "1 \<le> fst (loop_clock ms w)" for ms w by (simp add: loop_clock_def)
  with connect_attempt_ends [OF s(2) loop_names, of 0 2 1 "''a''" 1 0 1 3000000001] s(1,3)
  show ?thesis by simp
qed

text \<open>
  C13: With the code's own sockets the retry loop makes exactly one pass: a failed \<open>connect\<close> of
  \<open>Socket\<close> always leaves a nonzero error number, on which the loop stops, so the connect
  timeout never comes into play.
\<close>

theorem socket_connect_single_pass:
  assumes "posix_errno S" and "m_connectThread s = C_Try i n a ip port e"
    and "objects s a = Some so" and "m_socket_fd so = -1"
  shows "ensures (connectThread_step (Socket_vt S) T s)
    (\<lambda>s'. m_connectThread s' = C_Connected i n a \<or> m_connectThread s' = C_Failed i n a ip port)"
  using assms by (rule socket_one_pass)

theorem socket_connect_single_pass_witness:
  "ensures (loop_run (loop_connecting @ [Connect_thread]) \<bind> connectThread_step loop_vt loop_clock)
     (\<lambda>s'. m_connectThread s' = C_Connected 0 2 1 \<or> m_connectThread s' = C_Failed 0 2 1 ''a'' 1)"
proof -
  have "ensures (loop_run (loop_connecting @ [Connect_thread])) (\<lambda>s.
      m_connectThread s = C_Try 0 2 1 ''a'' 1 0 \<and>
      map_option m_socket_fd (objects s 1) = Some (-1))" by code_simp
  then obtain s so where s: "loop_run (loop_connecting @ [Connect_thread]) = Some s"
    "m_connectThread s = C_Try 0 2 1 ''a'' 1 0" "objects s 1 = Some so" "m_socket_fd so = -1"
    by (auto elim!: ensuresE)
  with socket_connect_single_pass [OF loopback_errno s(2-4)] show ?thesis by simp
qed

text \<open>
  C14: A round of the connect thread over a queue of \<open>n\<close> targets, when connections fail: it
  tries the first target \<open>n\<close> times, reports \<open>n\<close> errors for it, then removes that one entry;
  the other targets have not been tried.
\<close>

theorem connect_round_repeats_front:
  assumes "posix_errno S" and "\<And>ip port so w. \<not> fst (Socket_connect S ip port so w)"
    and "m_connectThread s = C_For 0 n"
    and "m_potential_peers s = (ip, port) # q"
    and "m_createNewSocketFunction s = defaultNewSocket"
    and "m_callbackConnectError (m_callbacks s) = Some c"
  shows "ensures (run_schedule (Socket_vt S) T (replicate (3 * n + 2) Connect_thread) s)
    (\<lambda>s'. m_connectThread s' = C_Loop \<and> m_potential_peers s' = q \<and>
      events s' = events s @ replicate n (connect_error c ip port))"
  using failing_round [OF assms(1,2,3) _ assms(4-6), of T] by simp

theorem connect_round_repeats_front_witness:
  "ensures (run_schedule (Socket_vt refusing) loop_clock
      (loop_connecting @ replicate 8 Connect_thread) loop_node)
     (\<lambda>s'. m_potential_peers s' = [(''b'', 2)] \<and>
       events s' = [connect_error 5 ''a'' 1, connect_error 5 ''a'' 1])"
proof -
  have "ensures (run_schedule (Socket_vt refusing) loop_clock loop_connecting loop_node) (\<lambda>s.
      m_connectThread s = C_For 0 2 \<and> m_potential_peers s = [(''a'', 1), (''b'', 2)] \<and>
      m_callbackConnectError (m_callbacks s) = Some 5 \<and> events s = [])" by code_simp
  then obtain s where s: "run_schedule (Socket_vt refusing) loop_clock loop_connecting loop_node = Some s"
    "m_connectThread s = C_For 0 2" "m_potential_peers s = (''a'', 1) # [(''b'', 2)]"
    "m_callbackConnectError (m_callbacks s) = Some 5" "events s = []"
    by (auto elim!: ensuresE)
  have f: "m_createNewSocketFunction s = defaultNewSocket"
    using s(1)
    by (auto simp: loop_connecting_def loop_node_def TcpNodePrivate_new_def create_socket_def
        new_object_def perform_def api_def onConnectError_def connectTo_def
        startListenThreadIfNotRunning_def connectThread_enabled_def connectThread_step_def
        Let_def split: if_splits option.splits)
  show ?thesis
    using connect_round_repeats_front [OF refusing_errno refusing_connect s(2,3) f s(4), of loop_clock]
      s(1,5)
    by (auto simp: run_schedule_append numeral_2_eq_2 numeral_eq_Suc elim!: ensures_mono)
qed

text \<open>
  C15: A request to listen that finds the listen thread at the top of its loop. On a node in use,
  with the code's sockets and IPv4 peers, whose listen thread is about to test its loop condition
  and whose listener is idle: if \<open>doListen\<close> is followed by two steps of the listen thread with
  nothing in between, then either the listener's socket listens on exactly the requested port and
  the callback was told that port, or the request is withdrawn and the error was reported. At
  other points of the loop the request can be lost: C16.
\<close>

theorem listen_request_served:
  assumes "reachable (Socket_vt S) T s" and "ipv4_peers S" and "m_owner s = O_Running"
    and "m_listenThread s = L_Loop" and "\<not> m_listener_available s"
  shows "ensures (run_schedule (Socket_vt S) T
      [Call (DoListen port ipv), Listen_thread, Listen_thread] s)
    (\<lambda>s'. m_listenThread s' = L_Wake \<and> m_listening_enabled s' = m_listener_available s' \<and>
      (if m_listener_available s'
       then (\<exists>l so. m_listener s' = Some l \<and> objects s' l = Some so \<and> m_is_listening so \<and>
               m_listen_port so = port) \<and>
            events s' = events s @ (case m_callbackStartedListening (m_callbacks s) of
              None \<Rightarrow> [] | Some c \<Rightarrow> [StartedListening c port])
       else \<exists>m. events s' = events s @ (case m_callbackListenError (m_callbacks s) of
              None \<Rightarrow> [] | Some c \<Rightarrow> [ListenError c m])))"
  using reachable_inv [OF assms(1) ipv4_vt [OF assms(2)]] assms(3-) by (rule listen_request)

theorem listen_request_served_witness:
  "ensures (loop_run ([Call (ConnectTo ''a'' 1)] @ [Call (DoListen 5 IPV4), Listen_thread, Listen_thread]))
     (\<lambda>s'. m_listening_enabled s' = m_listener_available s')"
proof -
  have "ensures (loop_run [Call (ConnectTo ''a'' 1)]) (\<lambda>s. m_owner s = O_Running \<and>
      m_listenThread s = L_Loop \<and> \<not> m_listener_available s)" by code_simp
  then obtain s where s: "loop_run [Call (ConnectTo ''a'' 1)] = Some s"
    "reachable loop_vt loop_clock s"
    "m_owner s = O_Running \<and> m_listenThread s = L_Loop \<and> \<not> m_listener_available s"
    by (rule loop_reached) simp
  have "loop_run ([Call (ConnectTo ''a'' 1)] @ [Call (DoListen 5 IPV4), Listen_thread, Listen_thread]) =
      run_schedule loop_vt loop_clock [Call (DoListen 5 IPV4), Listen_thread, Listen_thread] s"
    using s(1) unfolding loop_run_def run_schedule_append by simp
  with listen_request_served [OF s(2) loopback_ipv4, of 5 IPV4] s(3) show ?thesis
    by (auto elim!: ensures_mono)
qed

text \<open>
  C16: A lost wake-up. A node can be brought into a state in which listening has been
  requested, the listener is not listening, and the listen thread waits for a condition that
  does not hold: the thread cleared the wake-up flag after \<open>doListen\<close> had set it.
\<close>

theorem listen_request_can_be_lost:
  "\<exists>s. reachable loop_vt loop_clock s \<and> m_owner s = O_Running \<and> isListening s \<and>
     \<not> m_listener_available s \<and> m_listenThread s = L_Pause \<and> \<not> listenThread_enabled s"
proof -
  let ?xs = "[Call (ConnectTo ''a'' 1), Listen_thread, Call (DoListen 5 IPV4), Listen_thread]"
  have "ensures (loop_run ?xs) (\<lambda>s. m_owner s = O_Running \<and> isListening s \<and>
     \<not> m_listener_available s \<and> m_listenThread s = L_Pause \<and> \<not> listenThread_enabled s)"
    by code_simp
  then show ?thesis by (rule loop_reached) auto
qed

text \<open>
  C17: What a connection carries is reported. On a node whose receive and send callbacks are set
  from the start, and as long as the 64-bit connection counter does not wrap around, for every
  connection at any time: the data its receive callbacks were given, in their order, is all the
  data its socket has delivered since it was connected, and the sizes its send callbacks were
  given are the results of all its sends that sent something. Nothing is reported twice, on
  another connection, or not at all, whatever the sockets and the threads do.
\<close>

theorem traffic_is_reported:
  assumes "informed_run (recording V) T s" and "names_defined V" and "(k, pp) \<in> set (m_peers s)"
  shows "\<exists>a so. m_socket pp = Some a \<and> objects s a = Some (so, reported (events s) (Some k))"
proof -
  note b = recorded.accounts_balance [OF assms(1), unfolded recording_names, OF assms(2)]
  have "node_inv s"
    using informed_unwrapped [OF assms(1)] assms(2)
    by (intro reachable_inv [OF unwrapped_reachable]) (auto simp: recording_names)
  note core = node_invD(1) [OF this]
  have pp: "map_of (m_peers s) k = Some pp"
    using core assms(3) by (simp add: core_inv_def peers_inv_def)
  obtain a so where a: "m_socket pp = Some a" "objects s a = Some so"
    using peer_live [OF core pp] by (auto simp: live_def)
  have "snd so = reported (events s) (Some k)"
    using balancedD [OF b _ a(2), of "Some k"] watched_peer [OF pp] a(1) by simp
  with a show ?thesis by (metis prod.collapse)
qed

theorem traffic_is_reported_witness:
  "\<exists>s pp a so. informed_run (recording loop_vt) loop_clock s \<and> (1, pp) \<in> set (m_peers s) \<and>
     m_socket pp = Some a \<and> objects s a = Some (so, [1, 2, 3], [2])"
proof -
  obtain s where s: "informed_run (recording loop_vt) loop_clock s" "map fst (m_peers s) = [1]"
    "reported (events s) (Some 1) = ([1, 2, 3], [2])" by (rule recorded_informed)
  then obtain pp where "(1, pp) \<in> set (m_peers s)" by auto
  with traffic_is_reported [OF s(1) loop_names this] s show ?thesis by auto
qed

text \<open>
  C18: \<open>sendData\<close>. For a known connection the bytes go to the end of the output list under its
  id and the send thread exists; for any other the list stays and one error is reported.
\<close>

theorem send_data_queues:
  assumes "reachable V T s" and "names_defined V" and "m_owner s = O_Running"
  shows "ensures (sendData V pr d s) (\<lambda>s'. m_peers s' = m_peers s \<and>
    (if conns s (Peer_id pr) = None
     then m_data_to_send s' = m_data_to_send s \<and> m_sendThread s' = m_sendThread s \<and>
       (\<exists>m. events s' = events s @ (case m_callbackSendError (m_callbacks s) of
          None \<Rightarrow> [] | Some c \<Rightarrow> [SendError c m]))
     else m_data_to_send s' = m_data_to_send s @ [(Peer_id pr, d)] \<and> events s' = events s \<and>
       m_send_thread_running s' \<and> m_sendThread s' \<noteq> S_NoThread))"
  using reachable_inv [OF assms(1,2)] assms(3) by (rule sendData_spec)

theorem send_data_queues_witness:
  "ensures (loop_run loop_accepted \<bind> sendData loop_vt loop_peer [7, 8])
     (\<lambda>s'. m_data_to_send s' = [(1, [7, 8])])"
proof -
  have "ensures (loop_run loop_accepted) (\<lambda>s. m_owner s = O_Running \<and> m_data_to_send s = [] \<and>
      conns s 1 = Some Active)" by code_simp
  then obtain s where s: "loop_run loop_accepted = Some s" "reachable loop_vt loop_clock s"
    "m_owner s = O_Running \<and> m_data_to_send s = [] \<and> conns s 1 = Some Active"
    by (rule loop_reached) (rule loop_runs_allowed)
  have "Peer_id loop_peer = 1" by (simp add: Peer_id_def loop_peer_def PeerPrivate_set_def)
  with send_data_queues [OF s(2) loop_names, of loop_peer "[7, 8]"] s(1,3) show ?thesis
    by (auto elim!: ensures_mono)
qed

text \<open>
  C19: The work queues are first in, first out. Along every schedule from a reachable state, the
  data the send thread has taken, followed by what is still in the list, is what was in the list
  followed by what \<open>sendData\<close> has accepted, in the order of the calls: nothing is lost, doubled or
  overtaken before its turn. The same holds of the targets of \<open>connectTo\<close> and the connect
  thread. The reports of sent data concern the data taken, in the same order.
\<close>

theorem work_queues_are_fifo:
  assumes "reachable V T s" and "names_defined V" and "list_all action_allowed xs"
    and "run_schedule V T xs s = Some s'"
  shows "along take_data V T xs s @ m_data_to_send s' =
      m_data_to_send s @ along put_data V T xs s \<and>
    along take_target V T xs s @ m_potential_peers s' =
      m_potential_peers s @ along put_target V T xs s \<and>
    (\<exists>ks. sent_to (events s') = sent_to (events s) @ ks \<and>
       subseq ks (map fst (along take_data V T xs s)))"
  by (rule work_queues [OF assms(4,3,1,2)])

theorem work_queues_are_fifo_witness:
  "ensures (loop_run (loop_sending @ [Send_thread])) (\<lambda>s. m_data_to_send s = [] \<and>
     sent_to (events s) = [1] \<and>
     along take_data loop_vt loop_clock (loop_sending @ [Send_thread]) loop_node =
       along put_data loop_vt loop_clock (loop_sending @ [Send_thread]) loop_node)"
proof -
  let ?xs = "loop_sending @ [Send_thread]"
  have "ensures (loop_run ?xs) (\<lambda>s. m_data_to_send s = [] \<and> sent_to (events s) = [1])" by code_simp
  then obtain s where s: "loop_run ?xs = Some s" "m_data_to_send s = []" "sent_to (events s) = [1]"
    by (auto elim: ensuresE)
  have xs: "list_all action_allowed ?xs" "m_data_to_send loop_node = []"
    by (simp_all add: loop_runs_allowed loop_node_def TcpNodePrivate_new_def create_socket_def
        new_object_def Let_def)
  from work_queues_are_fifo [OF reachable.init [OF loop_initial] loop_names xs(1)
      s(1) [unfolded loop_run_def]] xs(2) s show ?thesis by simp
qed

text \<open>
  C20: Disconnecting is scheduling. \<open>disconnectPeer\<close> schedules the one connection with the
  peer's id, if there is one, and \<open>disconnectAll\<close> every connection; neither does anything else:
  no socket is closed, no other connection changes, no callback is invoked.
\<close>

theorem disconnect_only_schedules:
  assumes "reachable V T s" and "names_defined V"
  shows "ensures (disconnectPeer pr s) (\<lambda>s'. objects s' = objects s \<and> world s' = world s \<and>
      events s' = events s \<and>
      conns s' = (if conns s (Peer_id pr) = None then conns s
                  else (conns s)(Peer_id pr \<mapsto> Closing PEER_WAS_DISCONNECTED))) \<and>
    conns (disconnectAll s) = (\<lambda>k. map_option (\<lambda>_. Closing PEER_WAS_DISCONNECTED) (conns s k)) \<and>
    objects (disconnectAll s) = objects s \<and> world (disconnectAll s) = world s \<and>
    events (disconnectAll s) = events s"
  using disconnectPeer_spec [OF node_invD(1) [OF reachable_inv [OF assms]]]
  by (simp add: disconnectAll_spec fun_eq_iff)

theorem disconnect_only_schedules_witness:
  "ensures (loop_run loop_accepted \<bind> disconnectPeer loop_peer)
     (\<lambda>s'. conns s' 1 = Some (Closing PEER_WAS_DISCONNECTED))"
proof -
  have "ensures (loop_run loop_accepted) (\<lambda>s. conns s 1 = Some Active)" by code_simp
  then obtain s where s: "loop_run loop_accepted = Some s" "reachable loop_vt loop_clock s"
    "conns s 1 = Some Active"
    by (rule loop_reached) (rule loop_runs_allowed)
  have "Peer_id loop_peer = 1" by (simp add: Peer_id_def loop_peer_def PeerPrivate_set_def)
  with conjunct1 [OF disconnect_only_schedules [OF s(2) loop_names, of loop_peer]] s(1,3)
  show ?thesis by (auto elim!: ensures_mono)
qed

text \<open>
  C21: The end of the destructor. Its last stage completes. It closes and deletes the listener's
  socket, and calls nothing on any other: the sockets of all connections that are still in the
  table stay as they are, neither closed nor deleted. Once it has returned, no thread of the node
  can take another step.
\<close>

theorem destructor_leaks_connections:
  assumes "reachable V T s" and "names_defined V"
  shows "(m_owner s = O_JoinListen \<and> listen_stopped s \<longrightarrow>
      ensures (dtor_end V s) (\<lambda>s'. m_owner s' = O_Destroyed \<and>
        (\<exists>l lo lo' w. m_listener s = Some l \<and> objects s l = Some lo \<and>
           vclose V lo (world s) = (lo', w) \<and>
           objects s' = (objects s)(l := None) \<and> world s' = vdestroy V lo' w) \<and>
        set (peer_sockets (m_peers s')) = set (peer_sockets (m_peers s)) \<and>
        set (peer_sockets (m_peers s')) \<subseteq> Some ` live s')) \<and>
    (m_owner s = O_Destroyed \<longrightarrow>
      \<not> listenThread_enabled s \<and> \<not> connectThread_enabled s \<and> \<not> sendThread_enabled s)"
proof (intro conjI impI)
  note inv = reachable_inv [OF assms]
  assume "m_owner s = O_JoinListen \<and> listen_stopped s"
  then have stop: "m_owner s = O_JoinListen" "listen_stopped s" by simp_all
  obtain l lo where l: "m_listener s = Some l" "objects s l = Some lo"
    using listener_live [OF node_invD(1) [OF inv]] stop(1) by (auto simp: live_def)
  obtain lo' w where c: "vclose V lo (world s) = (lo', w)" by fastforce
  from dtor_end_ok [OF inv stop, of V] obtain s' where s': "dtor_end V s = Some s'" "node_inv s'"
    "m_owner s' = O_Destroyed" "peer_sockets (m_peers s') = peer_sockets (m_peers s)"
    by (auto elim!: ensuresE)
  from dtor_end_calls [OF l c] s'(1)
  have o: "objects s' = (objects s)(l := None)" "world s' = vdestroy V lo' w" by auto
  have p: "set (peer_sockets (m_peers s')) \<subseteq> Some ` live s'"
    by (rule peer_sockets_live [OF s'(2)])
  show "ensures (dtor_end V s) (\<lambda>s'. m_owner s' = O_Destroyed \<and>
        (\<exists>l lo lo' w. m_listener s = Some l \<and> objects s l = Some lo \<and>
           vclose V lo (world s) = (lo', w) \<and>
           objects s' = (objects s)(l := None) \<and> world s' = vdestroy V lo' w) \<and>
        set (peer_sockets (m_peers s')) = set (peer_sockets (m_peers s)) \<and>
        set (peer_sockets (m_peers s')) \<subseteq> Some ` live s')"
    using l c o p s'(3,4) by (simp only: s'(1) ensures_Some) blast
qed (use destroyed_quiet [OF reachable_inv [OF assms]] in blast)+

theorem destructor_leaks_connections_witness:
  "ensures (loop_run loop_joined \<bind> dtor_end loop_vt) (\<lambda>s'. m_owner s' = O_Destroyed \<and> 1 \<in> live s')"
proof -
  have "ensures (loop_run loop_joined) (\<lambda>s. m_owner s = O_JoinListen \<and> listen_stopped s \<and>
      peer_sockets (m_peers s) = [Some 1])" by code_simp
  then obtain s where s: "loop_run loop_joined = Some s" "reachable loop_vt loop_clock s"
    "m_owner s = O_JoinListen \<and> listen_stopped s \<and> peer_sockets (m_peers s) = [Some 1]"
    by (rule loop_reached) (rule loop_runs_allowed)
  with destructor_leaks_connections [OF s(2) loop_names] show ?thesis
    by (auto elim!: ensures_mono)
qed

section \<open>The socket\<close>

text \<open>
  C22: The flags of a socket. Every call keeps the invariant that a socket listens exactly when
  it is a listener, never both listens and is connected, and holds a descriptor when it does
  either; \<open>listen\<close> and \<open>connect\<close> set the flag exactly when they report success.
\<close>

theorem socket_flags_consistent:
  assumes "socket_ok so"
  shows "(case Socket_listen S p ver so w of (b, so', w') \<Rightarrow>
      socket_ok so' \<and> m_is_listening so' = b \<and> (b \<longrightarrow> m_listen_port so' = p)) \<and>
    (case Socket_connect S ip p so w of (b, so', w') \<Rightarrow> socket_ok so' \<and> m_is_connected so' = b) \<and>
    (case Socket_accept S so w of (r, so', w') \<Rightarrow> socket_ok so' \<and>
      (case r of None \<Rightarrow> True | Some n \<Rightarrow> socket_ok n \<and> m_is_connected n)) \<and>
    (case Socket_receive S d so w of (r, so', w') \<Rightarrow> socket_ok so') \<and>
    (case Socket_send S d so w of (n, so', w') \<Rightarrow> socket_ok so') \<and>
    (case Socket_close S so w of (so', w') \<Rightarrow>
      socket_ok so' \<and> \<not> m_is_connected so' \<and> \<not> m_is_listening so' \<and> m_socket_fd so' = -1)"
  by (intro conjI socket_calls_ok [OF assms])

theorem socket_flags_consistent_witness:
  "case Socket_listen loopback 5 IPV4 Socket_new lw_start of (b, so', w') \<Rightarrow>
     b \<and> socket_ok so' \<and> m_is_listening so'"
proof -
  have "fst (Socket_listen loopback 5 IPV4 Socket_new lw_start)" by code_simp
  then show ?thesis
    using socket_flags_consistent [OF socket_ok_new, where S = loopback and p = 5 and ver = IPV4
      and w = lw_start] by auto
qed

text \<open>
  C23: Descriptors. When descriptors can be made non-blocking, \<open>connect\<close> and \<open>listen\<close> close
  the descriptor the socket held; on success the socket holds one newly opened descriptor, on
  failure none is left open, whatever list of addresses \<open>getaddrinfo\<close> gave. But when the
  descriptor of an address that is not the last one cannot be made non-blocking, the loop of
  \<open>listen\<close> goes on without closing it: after the call it is still open, and the socket does not
  refer to it any more.
\<close>

theorem socket_descriptors:
  assumes "posix_fds S fds"
  shows "(posix_fcntl_ok S \<and> -1 \<notin> fds w \<longrightarrow>
      (case Socket_connect S ip port so w of (b, so', w') \<Rightarrow>
        if b then m_socket_fd so' \<notin> fds w - {m_socket_fd so} \<and>
                  fds w' = insert (m_socket_fd so') (fds w - {m_socket_fd so})
        else fds w' = fds w - {m_socket_fd so} \<and> m_socket_fd so' = -1) \<and>
      (case Socket_listen S port ver so w of (b, so', w') \<Rightarrow>
        if b then m_socket_fd so' \<notin> fds w - {m_socket_fd so} \<and>
                  fds w' = insert (m_socket_fd so') (fds w - {m_socket_fd so})
        else fds w' = fds w - {m_socket_fd so})) \<and>
    (\<forall>ai ais fd w1 w2 w3 b so' w'.
      sys_socket S (ai_family ai) (ai_socktype ai) (ai_protocol ai) w = (fd, w1) \<and> fd \<noteq> -1 \<and>
      listen_prepare S fd ai w1 = (True, w2) \<and> setNonBlocking S fd w2 = (False, w3) \<and>
      listen_loop S port (ai # ais) so w = (b, so', w') \<and> ais \<noteq> [] \<longrightarrow>
      fd \<in> fds w' \<and> m_socket_fd so' \<noteq> fd)"
proof (intro conjI impI allI)
  assume h: "posix_fcntl_ok S \<and> -1 \<notin> fds w"
  obtain b so' w' where c: "Socket_connect S ip port so w = (b, so', w')" by (metis surj_pair)
  show "case Socket_connect S ip port so w of (b, so', w') \<Rightarrow>
      if b then m_socket_fd so' \<notin> fds w - {m_socket_fd so} \<and>
                fds w' = insert (m_socket_fd so') (fds w - {m_socket_fd so})
      else fds w' = fds w - {m_socket_fd so} \<and> m_socket_fd so' = -1"
    unfolding c prod.case by (rule Socket_connect_fds [OF assms conjunct2 [OF h] c])
  obtain b so' w' where l: "Socket_listen S port ver so w = (b, so', w')" by (metis surj_pair)
  show "case Socket_listen S port ver so w of (b, so', w') \<Rightarrow>
      if b then m_socket_fd so' \<notin> fds w - {m_socket_fd so} \<and>
                fds w' = insert (m_socket_fd so') (fds w - {m_socket_fd so})
      else fds w' = fds w - {m_socket_fd so}"
    unfolding l prod.case by (rule Socket_listen_fds [OF assms conjunct1 [OF h] conjunct2 [OF h] l])
qed (use listen_loop_leak [OF assms] in blast)+

theorem socket_descriptors_witness:
  "(case Socket_listen loopback 5 IPV4 Socket_new lw_start of (b, so', w') \<Rightarrow>
     b \<and> set (lw_fds w') = {m_socket_fd so'}) \<and>
   (case listen_loop blocking 5 [AddrInfo.make 2 1 6 loopback_addr, AddrInfo.make 2 1 6 loopback_addr]
     Socket_new lw_start of (b, so', w') \<Rightarrow> 3 \<in> set (lw_fds w') \<and> m_socket_fd so' \<noteq> 3)"
proof
  obtain b so' w' where c: "Socket_listen loopback 5 IPV4 Socket_new lw_start = (b, so', w')"
    by (metis surj_pair)
  have "posix_fcntl_ok loopback \<and> -1 \<notin> set (lw_fds lw_start)"
    using loopback_fcntl by (simp add: lw_start_def)
  note l = conjunct2 [OF conjunct1 [OF socket_descriptors [OF loopback_fds, where w = lw_start
      and port = 5 and ver = IPV4 and so = Socket_new], rule_format, OF this], unfolded c prod.case]
  have "fst (Socket_listen loopback 5 IPV4 Socket_new lw_start)" by code_simp
  with c l show "case Socket_listen loopback 5 IPV4 Socket_new lw_start of (b, so', w') \<Rightarrow>
      b \<and> set (lw_fds w') = {m_socket_fd so'}" by (simp add: lw_start_def)
  let ?ai = "AddrInfo.make 2 1 6 loopback_addr"
  let ?w = "lw_start\<lparr>lw_fds := [3]\<rparr>"
  obtain b so' w' where c: "listen_loop blocking 5 [?ai, ?ai] Socket_new lw_start = (b, so', w')"
    by (metis surj_pair)
  have "sys_socket blocking (ai_family ?ai) (ai_socktype ?ai) (ai_protocol ?ai) lw_start = (3, ?w)"
    "listen_prepare blocking 3 ?ai ?w = (True, ?w)" "setNonBlocking blocking 3 ?w = (False, ?w)"
    by (simp_all add: blocking_def loopback_def lw_open_def lw_start_def listen_prepare_def
        setNonBlocking_def AddrInfo.make_def)
  with c conjunct2 [OF socket_descriptors [OF blocking_fds, where w = lw_start and port = 5
      and so = Socket_new], rule_format, of ?ai 3 ?w ?w ?w "[?ai]" b so' w']
  show "case listen_loop blocking 5 [?ai, ?ai] Socket_new lw_start of (b, so', w') \<Rightarrow>
      3 \<in> set (lw_fds w') \<and> m_socket_fd so' \<noteq> 3" by (simp only: c prod.case) simp
qed

text \<open>
  C24: Receiving and sending. With a buffer below two gigabytes, \<open>receive\<close> returns either at
  least one and at most the buffer size of bytes, or an error and the vector it was given
  unchanged; a system error closes the connection, and everything else leaves the socket as it
  was. The count \<open>send\<close> reports is never more than the number of bytes it was given, and
  \<open>send\<close> changes nothing of the socket but the stored error number.
\<close>

theorem socket_io_results:
  assumes "posix_transfer S" and "socket_ok so" and "unat (m_receive_buffer_size so) < 2 ^ 31"
    and "Socket_receive S rd so w = ((r, d), so', w')"
    and "length data < 2 ^ 64" and "Socket_send S data so w = (n, so'', w'')"
  shows "(if r = RR_OK then d \<noteq> [] \<and> length d \<le> unat (m_receive_buffer_size so) else d = rd) \<and>
    (if r = ERROR_SYSTEM then \<not> m_is_connected so' \<and> m_socket_fd so' = -1
     else so' = so\<lparr>m_last_errno := 0\<rparr>) \<and>
    unat n \<le> length data \<and> so'' = so\<lparr>m_last_errno := m_last_errno so''\<rparr>"
proof -
  obtain w1 where "receive_body S rd so w = ((r, d), w1)"
    using Socket_receive_eq [OF assms(4)] by blast
  from receive_body_results [OF assms(1) this assms(3)] Socket_receive_ok [OF assms(4,2)]
    Socket_send_bound [OF assms(1,6,5)] Socket_send_ok [OF assms(6)]
  show ?thesis by auto
qed

theorem socket_io_results_witness:
  "case Socket_receive loopback [] (Socket_new\<lparr>m_socket_fd := 3, m_is_connected := True\<rparr>)
     (lw_start\<lparr>lw_inbox := [[1, 2, 3]]\<rparr>) of ((r, d), so', w') \<Rightarrow> r = RR_OK \<and> d \<noteq> [] \<and> length d \<le> 1024"
proof -
  let ?so = "Socket_new\<lparr>m_socket_fd := 3, m_is_connected := True\<rparr>"
  let ?w = "lw_start\<lparr>lw_inbox := [[1, 2, 3]]\<rparr>"
  obtain r d so' w' where c: "Socket_receive loopback [] ?so ?w = ((r, d), so', w')"
    by (metis surj_pair)
  obtain n so'' w'' where s: "Socket_send loopback [7, 8] ?so ?w = (n, so'', w'')"
    by (metis surj_pair)
  have "fst (fst (Socket_receive loopback [] ?so ?w)) = RR_OK" by code_simp
  moreover have "socket_ok ?so" "m_receive_buffer_size ?so = 1024"
    by (simp_all add: socket_ok_def Socket_new_def SPW_DEF_RECBUF_SIZE_def)
  ultimately show ?thesis
    using c socket_io_results [OF loopback_transfer _ _ c _ s] by simp
qed

text \<open>
  C25: A connection is a stream of bytes. Along any sequence of sends of one socket and receives of
  the other, the bytes that were delivered are, in order and without gaps, the bytes that were
  on their way and those \<open>send\<close> said it had sent; as long as no receive failed, what is not
  delivered yet is still on its way. Partial sends, short reads and interruptions included.
\<close>

theorem socket_stream:
  assumes "posix_transfer S" and "posix_stream S linked (m_socket_fd x) (m_socket_fd y) pipe"
    and "linked w" and "m_is_connected x" and "\<not> m_is_listener x"
    and "m_is_connected y" and "\<not> m_is_listener y" and "unat (m_receive_buffer_size y) < 2 ^ 31"
    and "\<forall>d. Sends d \<in> set ts \<longrightarrow> length d < 2 ^ 64"
    and "exchange S ts x y w = ((sent, received), x', y', w')"
  shows "prefix received (pipe w @ sent) \<and>
    (m_is_connected y' \<longrightarrow> received @ pipe w' = pipe w @ sent)"
  using exchange_stream [OF assms(1,2,3) _ refl _ refl assms(8-10)] assms(4-7)
  by (simp add: open_end_def)

theorem socket_stream_witness:
  "ensures (connected IPV4 ''127.0.0.1'') (\<lambda>(oks, server, client, peer, w).
     case exchange network [Sends [1, 2, 3], Sends [4], Receives] peer client w of
       ((sent, received), x, y, w') \<Rightarrow> received = [1, 2, 3, 4] \<and> prefix received sent)"
proof -
  let ?ts = "[Sends [1, 2, 3], Sends [4], Receives]"
  have "ensures (connected IPV4 ''127.0.0.1'') (\<lambda>(oks, server, client, peer, w).
      m_is_connected peer \<and> \<not> m_is_listener peer \<and> m_is_connected client \<and> \<not> m_is_listener client \<and>
      nw_linked (m_socket_fd peer) (m_socket_fd client) w \<and> nw_waiting w (m_socket_fd client) = [] \<and>
      m_receive_buffer_size client = 1024 \<and>
      snd (fst (exchange network ?ts peer client w)) = [1, 2, 3, 4])" by code_simp
  then obtain oks server client peer w where
    c: "connected IPV4 ''127.0.0.1'' = Some (oks, server, client, peer, w)"
    and so: "m_is_connected peer" "\<not> m_is_listener peer" "m_is_connected client" "\<not> m_is_listener client"
    and n: "nw_linked (m_socket_fd peer) (m_socket_fd client) w" "nw_waiting w (m_socket_fd client) = []"
    and b: "m_receive_buffer_size client = 1024"
    and r: "snd (fst (exchange network ?ts peer client w)) = [1, 2, 3, 4]"
    by (auto elim!: ensuresE)
  obtain sent received x y w' where e: "exchange network ?ts peer client w = ((sent, received), x, y, w')"
    by (metis surj_pair)
  have "unat (m_receive_buffer_size client) < 2 ^ 31" by (simp add: b)
  moreover have "\<forall>d. Sends d \<in> set ?ts \<longrightarrow> length d < 2 ^ 64" by auto
  ultimately have "prefix received (nw_waiting w (m_socket_fd client) @ sent)"
    using socket_stream [OF network_transfer network_stream n(1) so _ _ e] by simp
  with c r e n(2) show ?thesis by simp
qed

section \<open>The socket on Windows\<close>

text \<open>
  C26: The flags of a socket in the Windows build. On a system where \<open>ioctlsocket\<close> fails on an
  invalid handle, every call keeps the socket well-formed: it listens exactly when it is a
  listener, never both listens and is connected, and holds a descriptor when it does either;
  the results report what was achieved. An accepted socket is well-formed, too.
\<close>

theorem windows_socket_flags:
  assumes "win_ioctl_checks S" and "socket_ok so"
  shows "(case WinSocket_listen S p ver so w of (b, so', w') \<Rightarrow>
      socket_ok so' \<and> m_is_listening so' = b \<and> (b \<longrightarrow> m_listen_port so' = p)) \<and>
    (case WinSocket_connect S ip p so w of (b, so', w') \<Rightarrow> socket_ok so' \<and> m_is_connected so' = b) \<and>
    (case WinSocket_accept S so ww of (r, so', w') \<Rightarrow> socket_ok so' \<and>
      (case r of None \<Rightarrow> True | Some n \<Rightarrow> socket_ok n \<and> m_is_connected n)) \<and>
    (case WinSocket_receive S d so w of (r, so', w') \<Rightarrow> socket_ok so') \<and>
    (case WinSocket_send S d so w of (n, so', w') \<Rightarrow> socket_ok so') \<and>
    (case WinSocket_close S so w of (so', w') \<Rightarrow>
      socket_ok so' \<and> \<not> m_is_connected so' \<and> \<not> m_is_listening so' \<and> m_socket_fd so' = -1)"
  by (intro conjI win_calls_ok [OF assms])

theorem windows_socket_flags_witness:
  "case WinSocket_connect winloop ''::1'' 5 Socket_new wl_start of (b, so', w') \<Rightarrow>
     b \<and> socket_ok so' \<and> m_is_connected so'"
proof -
  have "fst (WinSocket_connect winloop ''::1'' 5 Socket_new wl_start)" by code_simp
  then show ?thesis
    using windows_socket_flags [OF winloop_ioctl socket_ok_new, where p = 5 and ip = "''::1''"
      and w = wl_start] by auto
qed

text \<open>
  C27: Descriptors in the Windows build. \<open>listen\<close> and \<open>connect\<close> close the handle the socket held;
  on success the socket holds one newly opened handle, on failure none is left open. Other than
  in the Linux build this needs no assumption that handles can be made non-blocking: the loop
  of \<open>listen\<close> closes one that cannot.
\<close>

theorem windows_descriptors:
  assumes "win_handles S hs"
  shows "(case WinSocket_listen S port ver so w of (b, so', w') \<Rightarrow>
      if b then handle so' \<notin> hs w - {handle so} \<and>
                hs w' = insert (handle so') (hs w - {handle so})
      else hs w' = hs w - {handle so}) \<and>
    (win_ioctl_checks S \<and> INVALID_SOCKET \<notin> hs w \<longrightarrow>
     (case WinSocket_connect S ip port so w of (b, so', w') \<Rightarrow>
      if b then handle so' \<notin> hs w - {handle so} \<and>
                hs w' = insert (handle so') (hs w - {handle so})
      else hs w' = hs w - {handle so}))"
proof (intro conjI impI)
  obtain b so' w' where l: "WinSocket_listen S port ver so w = (b, so', w')" by (metis surj_pair)
  show "case WinSocket_listen S port ver so w of (b, so', w') \<Rightarrow>
      if b then handle so' \<notin> hs w - {handle so} \<and>
                hs w' = insert (handle so') (hs w - {handle so})
      else hs w' = hs w - {handle so}"
    unfolding l prod.case by (rule WinSocket_listen_handles [OF assms l])
  assume c: "win_ioctl_checks S \<and> INVALID_SOCKET \<notin> hs w"
  obtain b so' w' where l: "WinSocket_connect S ip port so w = (b, so', w')" by (metis surj_pair)
  show "case WinSocket_connect S ip port so w of (b, so', w') \<Rightarrow>
      if b then handle so' \<notin> hs w - {handle so} \<and>
                hs w' = insert (handle so') (hs w - {handle so})
      else hs w' = hs w - {handle so}"
    unfolding l prod.case
    by (rule WinSocket_connect_handles [OF assms conjunct1 [OF c] conjunct2 [OF c] l])
qed

theorem windows_descriptors_witness:
  "case WinSocket_listen winloop 5 IPV6 Socket_new wl_start of (b, so', w') \<Rightarrow>
     b \<and> set (wl_handles w') = {handle so'}"
proof -
  obtain b so' w' where c: "WinSocket_listen winloop 5 IPV6 Socket_new wl_start = (b, so', w')"
    by (metis surj_pair)
  have "fst (WinSocket_listen winloop 5 IPV6 Socket_new wl_start)" by code_simp
  then have b: "b" by (simp only: c fst_conv)
  note conjunct1 [OF windows_descriptors [OF winloop_handles, where w = wl_start and port = 5
      and ver = IPV6 and so = Socket_new], unfolded c prod.case]
  with b have "set (wl_handles w') = insert (handle so') (set (wl_handles wl_start) - {handle Socket_new})"
    by (simp only: if_True)
  with b show ?thesis unfolding c prod.case by (simp add: wl_start_def)
qed

text \<open>
  C28: Addresses in the Windows build. The buffer of 128 bytes holds every address: the queries
  always have a result, so the properties of the node that need defined addresses hold there for
  IPv6 peers as well, and both an IPv4 and an IPv6 address come back as they were stored.
\<close>

theorem windows_peer_addresses:
  assumes "win_lengths S"
  shows "names_defined (WinSocket_vt S) \<and>
    (m_is_connected so \<and> \<not> m_is_listener so \<longrightarrow>
      (\<forall>port a w'. length a = 16 \<and>
         win_getpeername S (handle so) 128 w = ((0, win_sockaddr_in6 port a, 28), w') \<longrightarrow>
         WinSocket_peerPort S so w = Some (port, w') \<and>
         WinSocket_peerIpAddress S so w = Some (win_inet_ntop S WIN_AF_INET6 a, w')) \<and>
      (\<forall>port a w'. length a = 4 \<and>
         win_getpeername S (handle so) 128 w = ((0, sockaddr_in port a, 16), w') \<longrightarrow>
         WinSocket_peerPort S so w = Some (port, w') \<and>
         WinSocket_peerIpAddress S so w = Some (win_inet_ntop S AF_INET a, w')))"
  using win_names_defined [OF assms]
  by (auto simp: WinSocket_peerPort_def WinSocket_peerIpAddress_def win_storage_fields
      win_storage_ipv4)

theorem windows_peer_addresses_witness:
  "WinSocket_peerPort winloop (Socket_new\<lparr>m_socket_fd := 4, m_is_connected := True\<rparr>) wl_start =
     Some (4242, wl_start) \<and>
   ensures (run_schedule (WinSocket_vt winloop) win_clock win_accepted win_node) (\<lambda>s.
     length (m_peers s) = 1 \<and> node_inv s)"
proof
  let ?so = "Socket_new\<lparr>m_socket_fd := 4, m_is_connected := True\<rparr>"
  note p = windows_peer_addresses [OF winloop_lengths, of ?so wl_start]
  have "m_is_connected ?so \<and> \<not> m_is_listener ?so" by (simp add: Socket_new_def)
  with p winloop_getpeername ipv6_localhost_length
  show "WinSocket_peerPort winloop ?so wl_start = Some (4242, wl_start)" by blast
  from p have "names_defined (WinSocket_vt winloop)" by blast
  then show "ensures (run_schedule (WinSocket_vt winloop) win_clock win_accepted win_node) (\<lambda>s.
     length (m_peers s) = 1 \<and> node_inv s)"
    using win_accepted_runs win_accepted_reachable
    by (elim ensuresE) (simp add: reachable_inv)
qed

text \<open>
  C29: The life time of Winsock. While one thread at a time constructs and destroys sockets, the
  static counter is the number of living objects, and \<open>WSAStartup\<close> is in effect exactly while
  there is one, along every sequence of constructions and destructions. But the counter is
  neither atomic nor locked: there is an interleaving of two threads that construct and destroy
  a socket each in which both read it before either writes it, one count is lost, and the
  second destructor switches Winsock off under an object that still lives.
\<close>

theorem winsock_lifetime:
  assumes "win_startups S startups" and "living xs 0 = Some m" and "length xs < 2 ^ 64"
    and "m_socket_counter w = 0" and "startups (win_os w) = 0"
  shows "m_socket_counter (lifetimes S xs w) = of_nat m \<and>
    startups (win_os (lifetimes S xs w)) = (if m = 0 then 0 else 1) \<and>
    (\<exists>is s. shared_moves is two_threads = Some s \<and>
      programs s = [[], []] \<and> counter s = 0 \<and> winsock_on s = 0)"
  using lifetimes_inv [OF assms(1), of 0 w xs m] assms(2-) counter_race
  by (simp add: winsock_inv_def)

theorem winsock_lifetime_witness:
  "wl_startups (win_os (lifetimes winloop [Construct, Construct, Destruct Socket_new]
     \<lparr>win_os = wl_start, m_socket_counter = 0\<rparr>)) = 1"
  using winsock_lifetime [OF winloop_startups, of "[Construct, Construct, Destruct Socket_new]" 1
      "\<lparr>win_os = wl_start, m_socket_counter = 0\<rparr>"]
  by (simp add: wl_start_def)

section \<open>What peers and messages say\<close>

text \<open>
  C30: Addresses of peers on Linux. From the \<open>sockaddr_in\<close> that \<open>getpeername\<close> stores for an IPv4
  peer, \<open>peerPort\<close> recovers exactly the port that was encoded, \<open>peerIpAddress\<close> prints exactly the
  four address bytes, and \<open>peerName\<close> looks up the whole structure. The 16 bytes of the \<open>sockaddr\<close>
  object cannot hold an IPv6 address: there \<open>peerIpAddress\<close> reads past the end of the object, so
  its result is undefined, and so is building the peer for such a connection, if the address is
  the first thing that is queried, or if the system keeps giving the same answer.
\<close>

theorem peer_addresses:
  assumes "m_is_connected so" and "\<not> m_is_listener so"
    and "sys_getpeername S (m_socket_fd so) 16 (world s) = ((0, st, len), w')"
  shows "(\<forall>port a. length a = 4 \<and> st = sockaddr_in port a \<and> len = 16 \<longrightarrow>
      Socket_peerPort S so (world s) = Some (port, w') \<and>
      Socket_peerIpAddress S so (world s) = Some (sys_inet_ntop S AF_INET a, w') \<and>
      Socket_peerName S so (world s) =
        (case sys_getnameinfo S (sockaddr_in port a) w' of ((r, name), w'') \<Rightarrow>
           Some (if r = 0 then name else [], w''))) \<and>
    (sa_family st = Some AF_INET6 \<longrightarrow> Socket_peerIpAddress S so (world s) = None \<and>
      (\<forall>p k. objects s p = Some so \<and>
         (m_arg_order s (world s) \<in> {Ip_Port_Name, Ip_Name_Port} \<or>
          (\<forall>w. fst (sys_getpeername S (m_socket_fd so) 16 w) = (0, st, len))) \<longrightarrow>
         make_peer (Socket_vt S) p k s = None))"
  using assms address_undefined [where so = so and S = S and st = st and len = len]
  by (auto simp: Socket_peerPort_def Socket_peerIpAddress_def sa_family_sockaddr_in
      ntohs_sockaddr_in sin_addr_sockaddr_in peerName_sockaddr_in sin6_addr_undefined make_peer_def
      call_query_def query_address_def)

theorem peer_addresses_witness:
  "Socket_peerPort loopback (Socket_new\<lparr>m_socket_fd := 3, m_is_connected := True\<rparr>) lw_start =
     Some (4242, lw_start) \<and>
   make_peer (Socket_vt ipv6_loopback) 0 1
     (loop_node\<lparr>objects := [0 \<mapsto> Socket_new\<lparr>m_socket_fd := 3, m_is_connected := True\<rparr>]\<rparr>) = None"
proof
  let ?so = "Socket_new\<lparr>m_socket_fd := 3, m_is_connected := True\<rparr>"
  let ?s = "loop_node\<lparr>objects := [0 \<mapsto> ?so]\<rparr>"
  have so: "m_is_connected ?so" "\<not> m_is_listener ?so" by (simp_all add: Socket_new_def)
  have "sys_getpeername loopback (m_socket_fd ?so) 16 (world ?s) = ((0, loopback_addr, 16), lw_start)"
    by (simp add: loopback_def loop_node_start)
  from conjunct1 [OF peer_addresses [OF so this], rule_format, of "[127, 0, 0, 1]" 4242]
  show "Socket_peerPort loopback ?so lw_start = Some (4242, lw_start)"
    by (simp add: loop_node_start loopback_addr_def)
  have "sys_getpeername ipv6_loopback (m_socket_fd ?so) 16 (world ?s) =
      ((0, sockaddr_in6_head 4242, 28), lw_start)"
    by (simp add: ipv6_loopback_def loop_node_start)
  from conjunct2 [OF peer_addresses [OF so this]]
  have "m_arg_order ?s (world ?s) = Ip_Port_Name \<longrightarrow> make_peer (Socket_vt ipv6_loopback) 0 1 ?s = None"
    by (simp add: sa_family_def read_object_def sockaddr_in6_head_def)
  then show "make_peer (Socket_vt ipv6_loopback) 0 1 ?s = None"
    by (simp add: loop_node_def TcpNodePrivate_new_def create_socket_def new_object_def Let_def)
qed

text \<open>
  C31: System errors are lost. The message built for a socket names its error number but never
  contains the system's description of it: reading the number clears it before the description
  is asked for. Afterwards the socket has no error stored. And the errors of \<open>accept\<close> are silent:
  whatever error the system gives, the listener clears it, so that the node's report of a failed
  accept is never made.
\<close>

theorem system_errors_are_lost:
  assumes "objects s a = Some so"
  shows "createErrorMessage (Socket_vt S) h b (Some a) s =
      Some (\<lparr>msg_head = h,
             msg_body = (if m_last_errno so = 0 then b
                         else b @ CHR 0x0A # ''Error number '' @ to_string_int (m_last_errno so) @ '' :'')\<rparr>,
            s\<lparr>objects := (objects s)(a \<mapsto> so\<lparr>m_last_errno := 0\<rparr>)\<rparr>) \<and>
    (\<forall>so' w1. m_listener s = Some a \<and> m_is_listener so \<and> m_is_listening so \<and>
        m_listener_available s \<and> Socket_accept S so (world s) = (None, so', w1) \<longrightarrow>
        ensures (accept_peer (Socket_vt S) s) (\<lambda>s'. events s' = events s \<and> m_peers s' = m_peers s))"
  using assms accept_error_silent [of s a so S]
  by (auto simp: createErrorMessage_def call_local_def call_def Socket_getLastErrno_def
      Socket_getLastErrnoString_def store_object_def Let_def)

theorem system_errors_are_lost_witness:
  "ensures (createErrorMessage loop_vt ''Listen Error'' ''Failed'' (Some 0)
     (loop_node\<lparr>objects := [0 \<mapsto> Socket_new\<lparr>m_last_errno := 98\<rparr>]\<rparr>))
     (\<lambda>(m, s). msg_body m = ''Failed'' @ [CHR 0x0A] @ ''Error number 98 :'') \<and>
   ensures (loop_run loop_accepted \<bind> accept_peer loop_vt) (\<lambda>s'. length (events s') = 1)"
proof
  have "to_string_int 98 = ''98''" by code_simp
  then show "ensures (createErrorMessage loop_vt ''Listen Error'' ''Failed'' (Some 0)
     (loop_node\<lparr>objects := [0 \<mapsto> Socket_new\<lparr>m_last_errno := 98\<rparr>]\<rparr>))
     (\<lambda>(m, s). msg_body m = ''Failed'' @ [CHR 0x0A] @ ''Error number 98 :'')"
    using conjunct1 [OF system_errors_are_lost
        [of "loop_node\<lparr>objects := [0 \<mapsto> Socket_new\<lparr>m_last_errno := 98\<rparr>]\<rparr>" 0
          "Socket_new\<lparr>m_last_errno := 98\<rparr>" loopback "''Listen Error''" "''Failed''"]]
    by simp
  have "ensures (loop_run loop_accepted) (\<lambda>s. length (events s) = 1 \<and>
      m_listener s = Some 0 \<and> m_listener_available s \<and>
      (case objects s 0 of None \<Rightarrow> False | Some so \<Rightarrow> m_is_listener so \<and> m_is_listening so \<and>
         fst (Socket_accept loopback so (world s)) = None))" by code_simp
  then obtain s so where s: "loop_run loop_accepted = Some s" "length (events s) = 1"
    "m_listener s = Some 0" "m_listener_available s" "objects s 0 = Some so"
    "m_is_listener so" "m_is_listening so" "fst (Socket_accept loopback so (world s)) = None"
    by (auto elim!: ensuresE split: option.splits)
  then obtain so' w1 where "Socket_accept loopback so (world s) = (None, so', w1)"
    by (metis prod.collapse)
  then have "ensures (accept_peer loop_vt s) (\<lambda>s'. events s' = events s \<and> m_peers s' = m_peers s)"
    using conjunct2 [OF system_errors_are_lost [OF s(5)], of loopback] s by blast
  with s(1,2) show "ensures (loop_run loop_accepted \<bind> accept_peer loop_vt)
      (\<lambda>s'. length (events s') = 1)"
    by (auto elim!: ensures_mono)
qed

text \<open>
  C32: Sizes of receive buffers. \<open>setReceiveBufferSize\<close> of a node reaches the listener alone: the
  new size is the one \<open>receiveBufferSize\<close> reports from then on, but no peer and no other socket
  changes, and a connection the listener accepts afterwards has the built-in size. A connected
  socket whose buffer has size zero never delivers data: when the system has data or the end of
  the stream, \<open>receive\<close> reports that the peer has disconnected, and otherwise that nothing was
  received or an error.
\<close>

theorem receive_buffer_sizes:
  assumes "m_listener s = Some l" and "objects s l = Some lo"
    and "posix_transfer S" and "m_receive_buffer_size so = 0"
    and "m_is_connected so" and "\<not> m_is_listener so"
    and "sys_recv S (m_socket_fd so) 0 w = ((k, bs), w1)"
    and "Socket_receive S rd so w = ((r, d), so', w')"
  shows "ensures (setReceiveBufferSize (Socket_vt S) n s) (\<lambda>s'.
      receiveBufferSize (Socket_vt S) s' = Some n \<and> m_peers s' = m_peers s \<and>
      (\<forall>a. a \<noteq> l \<longrightarrow> objects s' a = objects s a) \<and>
      (\<forall>w c so' w'. Socket_accept S (the (objects s' l)) w = (Some c, so', w') \<longrightarrow>
         m_receive_buffer_size c = SPW_DEF_RECBUF_SIZE)) \<and>
    d = rd \<and> r \<noteq> RR_OK \<and> (0 \<le> k \<longrightarrow> r = ERROR_PEER_DISCONNECTED)"
proof (rule conjI)
  show "ensures (setReceiveBufferSize (Socket_vt S) n s) (\<lambda>s'.
      receiveBufferSize (Socket_vt S) s' = Some n \<and> m_peers s' = m_peers s \<and>
      (\<forall>a. a \<noteq> l \<longrightarrow> objects s' a = objects s a) \<and>
      (\<forall>w c so' w'. Socket_accept S (the (objects s' l)) w = (Some c, so', w') \<longrightarrow>
         m_receive_buffer_size c = SPW_DEF_RECBUF_SIZE))"
    using assms(1,2) posix_socket.accept_new [of S]
    by (auto simp: setReceiveBufferSize_def receiveBufferSize_def call_local_def call_def
        call_read_def store_object_def Socket_setReceiveBufferSize_def)
  obtain w2 where b: "receive_body S rd so w = ((r, d), w2)"
    using Socket_receive_eq [OF assms(8)] by blast
  have "-1 \<le> k \<and> k \<le> 0" using assms(3,7) unfolding posix_transfer_def by fastforce
  then show "d = rd \<and> r \<noteq> RR_OK \<and> (0 \<le> k \<longrightarrow> r = ERROR_PEER_DISCONNECTED)"
    using b assms(4-7) by (auto simp: receive_body_def Let_def to_int32_id split: if_splits)
qed

theorem receive_buffer_sizes_witness:
  "ensures (setReceiveBufferSize loop_vt 9 loop_node) (\<lambda>s'. receiveBufferSize loop_vt s' = Some 9) \<and>
   fst (Socket_receive loopback []
      (Socket_new\<lparr>m_socket_fd := 3, m_is_connected := True, m_receive_buffer_size := 0\<rparr>)
      (lw_start\<lparr>lw_inbox := [[1, 2]]\<rparr>)) = (ERROR_PEER_DISCONNECTED, [])"
proof -
  let ?so = "Socket_new\<lparr>m_socket_fd := 3, m_is_connected := True, m_receive_buffer_size := 0\<rparr>"
  let ?w = "lw_start\<lparr>lw_inbox := [[1, 2]]\<rparr>"
  obtain r d so' w' where c: "Socket_receive loopback [] ?so ?w = ((r, d), so', w')"
    by (metis surj_pair)
  have q: "sys_recv loopback (m_socket_fd ?so) 0 ?w = ((0, []), ?w\<lparr>lw_inbox := []\<rparr>)"
    by (simp add: loopback_def lw_recv_def)
  have "m_receive_buffer_size ?so = 0" "m_is_connected ?so" "\<not> m_is_listener ?so"
    by (simp_all add: Socket_new_def)
  note t = receive_buffer_sizes [OF loop_node_start(1,2) loopback_transfer this q c, of 9]
  from t have "d = [] \<and> r = ERROR_PEER_DISCONNECTED" by simp
  with t show ?thesis unfolding c by (auto elim!: ensures_mono)
qed

text \<open>
  C33: \<open>Peer\<close> as a value. A copy holds the value its source had, and keeps it whether the source
  is changed or destroyed afterwards; no object is deleted twice or lost. Two uses lose the
  value: assigning a peer to itself deletes its object and copies a new one onto itself, so it
  becomes a default peer; copying from a peer that was moved from dereferences its null pointer.
\<close>

theorem peer_copies:
  assumes "store_ok st"
  shows "(denote st p = None \<and> denote st q = Some (Some v) \<longrightarrow>
      ensures (do { st \<leftarrow> Peer_copy_ctor p q st; Peer_update q f st })
        (\<lambda>st'. store_ok st' \<and> denote st' p = Some (Some v) \<and> denote st' q = Some (Some (f v))) \<and>
      ensures (do { st \<leftarrow> Peer_copy_ctor p q st; Peer_dtor q st })
        (\<lambda>st'. store_ok st' \<and> denote st' p = Some (Some v) \<and> denote st' q = None)) \<and>
    (handles st p \<noteq> None \<longrightarrow>
      ensures (Peer_assign p p st)
        (\<lambda>st'. store_ok st' \<and> denote st' = (denote st)(p \<mapsto> Some PeerPrivate_new)) \<and>
      (p \<noteq> q \<longrightarrow> (do { st \<leftarrow> Peer_move_ctor q p st; Peer_assign q p st }) = None))"
  using peer_values.copy_then_update [OF assms, of p q v f]
    peer_values.copy_then_destroy [OF assms, of p q v]
    Peer_copy_body_self [OF assms, of p] Peer_assign_moved [OF assms, of p _ q]
  by (auto simp: ensures_def Peer_assign_def)

theorem peer_copies_witness:
  "ensures (do { st \<leftarrow> Peer_ctor 0 no_peers; st \<leftarrow> Peer_copy_ctor 1 0 st; Peer_dtor 0 st })
     (\<lambda>st'. denote st' 1 = Some (Some PeerPrivate_new) \<and> denote st' 0 = None)"
proof -
  obtain st where "Peer_ctor 0 no_peers = Some st" "store_ok st"
    "denote st 1 = None" "denote st 0 = Some (Some PeerPrivate_new)"
    using Peer_ctor_first by blast
  with conjunct2 [OF conjunct1 [OF peer_copies [of st 1 0 PeerPrivate_new], rule_format]]
  show ?thesis by (auto elim!: ensures_mono)
qed

section \<open>Locks\<close>

text \<open>
  C34: No deadlock on the common paths. Whatever number of threads run the paths of the code
  with callbacks that call no function of the node, in any order and interleaving, but for the
  switching off of the listener with a callback set: in every state some thread can go on until
  all have finished, and every run is as long as the operations it has done.
\<close>

theorem lock_order_has_no_deadlock:
  assumes "\<forall>p\<in>set ps. \<exists>qs. list_all quiet_path qs \<and> p = concat qs"
    and "(lock_step ^^ n) (all_free ps) c"
  shows "\<not> deadlocked c \<and> n + work c = work (all_free ps)"
proof -
  have "lock_inv (all_free ps)"
    using assms(1) by (auto intro!: lock_inv_free quiet_concat_ordered)
  then show ?thesis
    using lock_progress [OF lock_steps_inv [OF relpowp_imp_rtranclp [OF assms(2)]]]
      relpow_work [OF assms(2)] by simp
qed

theorem lock_order_has_no_deadlock_witness:
  "ensures (run_moves [0, 0, 0]
     (all_free [poll_path [Some [], None], send_path [Some []], send_unknown_path (Some [])]))
     (\<lambda>c. \<not> deadlocked c)"
proof -
  let ?ps = "[poll_path [Some [], None], send_path [Some []], send_unknown_path (Some [])]"
  have "\<exists>qs. list_all quiet_path qs \<and> p = concat qs" if "p \<in> set ?ps" for p
    using that by (intro exI [of _ "[p]"]) (auto intro: quiet_path.intros)
  moreover have "ensures (run_moves [0, 0, 0] (all_free ?ps)) (\<lambda>c. True)" by code_simp
  then obtain c where "run_moves [0, 0, 0] (all_free ?ps) = Some c" by (rule ensuresE)
  ultimately show ?thesis
    using lock_order_has_no_deadlock [of ?ps "length [0, 0, 0]" c]
      run_moves_relpow [of "[0, 0, 0]" "all_free ?ps" c] by simp
qed

text \<open>
  C35: Deadlocks. The listen thread switching the listener off, with a callback set, and the
  send thread reporting sent data can block each other, each holding the mutex the other waits
  for. And a callback that calls the node blocks its thread for ever, whatever else runs: one
  for received data that calls any function working under the data mutex, and one for a new
  connection that registers a callback.
\<close>

theorem callbacks_can_deadlock:
  "(\<exists>c. lock_step\<^sup>*\<^sup>* (all_free [listen_stop_path (Some []), send_path [Some []]]) c \<and> deadlocked c) \<and>
   (\<exists>c. lock_step\<^sup>*\<^sup>* (all_free (poll_path (Some (data_path @ body) # cs) # ps)) c \<and>
      (\<forall>c'. lock_step\<^sup>*\<^sup>* c c' \<longrightarrow> \<not> finished c')) \<and>
   (\<exists>c. lock_step\<^sup>*\<^sup>* (all_free (connect_done_path (Some (register_path @ body)) # ps)) c \<and>
      (\<forall>c'. lock_step\<^sup>*\<^sup>* c c' \<longrightarrow> \<not> finished c'))"
proof (intro conjI)
  have "ensures (run_moves [0, 0, 0, 1] (all_free [listen_stop_path (Some []), send_path [Some []]]))
      deadlocked" by code_simp
  then show "\<exists>c. lock_step\<^sup>*\<^sup>* (all_free [listen_stop_path (Some []), send_path [Some []]]) c \<and>
      deadlocked c" by (rule deadlock_reached)
  have "ensures (run_moves [0, 0, 0] (all_free (poll_path (Some (data_path @ body) # cs) # ps)))
      (self_waiting 0 Data)"
    by (simp add: all_free_def poll_path_def callback_block_def unlocked_def data_path_def
        self_waiting_def)
  then show "\<exists>c. lock_step\<^sup>*\<^sup>* (all_free (poll_path (Some (data_path @ body) # cs) # ps)) c \<and>
      (\<forall>c'. lock_step\<^sup>*\<^sup>* c c' \<longrightarrow> \<not> finished c')" by (rule self_waiting_forever)
  have "ensures (run_moves [0, 0, 0] (all_free (connect_done_path (Some (register_path @ body)) # ps)))
      (self_waiting 0 Callback)"
    by (simp add: all_free_def connect_done_path_def invoke_def register_path_def self_waiting_def)
  then show "\<exists>c. lock_step\<^sup>*\<^sup>* (all_free (connect_done_path (Some (register_path @ body)) # ps)) c \<and>
      (\<forall>c'. lock_step\<^sup>*\<^sup>* c c' \<longrightarrow> \<not> finished c')" by (rule self_waiting_forever)
qed

theorem callbacks_can_deadlock_witness:
  "\<exists>c. lock_step\<^sup>*\<^sup>* (all_free [poll_path [Some data_path]]) c \<and>
     (\<forall>c'. lock_step\<^sup>*\<^sup>* c c' \<longrightarrow> \<not> finished c')"
  using callbacks_can_deadlock [of "[]" "[]" "[]"] by simp

text \<open>
  C36: Wake-ups. Any number of threads call the functions that change the condition of a waiting
  thread under the mutex and then notify, in any order and interleaved at every operation, while
  the thread waits, works and waits again: it never sleeps with its condition true and no
  notification on its way. The destructor and \<open>stopListening\<close> set their flags without the mutex.
  When one of them does so between the thread's test and its sleep, the thread sleeps on with
  the condition true; then no thread can go on, and the destructor's join waits for the end of
  the sleeper, unless the system wakes it spuriously.
\<close>

theorem wake_ups_need_the_mutex:
  assumes "list_all (list_all locked_ops) calls"
    and "monitor_step\<^sup>*\<^sup>* (monitor_start (map concat calls)) s"
  shows "\<not> overslept s \<and>
    (\<exists>s'. monitor_step\<^sup>*\<^sup>* (monitor_start [destructor_ops]) s' \<and> overslept s' \<and>
       todo s' = [[N_Join]] \<and> (\<forall>a. moves a s' = None)) \<and>
    (\<exists>s'. monitor_step\<^sup>*\<^sup>* (monitor_start [stopListening_ops]) s' \<and> overslept s' \<and>
       todo s' = [[]] \<and> (\<forall>a. moves a s' = None))"
proof (intro conjI)
  have "list_all (disciplined False) (map concat calls)"
    using assms(1) locked_disciplined by (auto simp: list_all_iff)
  then show "\<not> overslept s"
    by (intro not_overslept monitor_inv_steps [OF assms(2)] monitor_inv_start)
  have "ensures (run_monitor [Waiter, Waiter, Thread 0, Thread 0, Thread 0, Waiter]
      (monitor_start [destructor_ops])) (\<lambda>s. overslept s \<and> todo s = [[N_Join]])" by code_simp
  from run_monitor_reached [OF this]
  show "\<exists>s'. monitor_step\<^sup>*\<^sup>* (monitor_start [destructor_ops]) s' \<and> overslept s' \<and>
      todo s' = [[N_Join]] \<and> (\<forall>a. moves a s' = None)"
    using overslept_stuck by blast
  have "ensures (run_monitor [Waiter, Waiter, Thread 0, Thread 0, Waiter]
      (monitor_start [stopListening_ops])) (\<lambda>s. overslept s \<and> todo s = [[]])" by code_simp
  from run_monitor_reached [OF this]
  show "\<exists>s'. monitor_step\<^sup>*\<^sup>* (monitor_start [stopListening_ops]) s' \<and> overslept s' \<and>
      todo s' = [[]] \<and> (\<forall>a. moves a s' = None)"
    using overslept_stuck by blast
qed

theorem wake_ups_need_the_mutex_witness:
  "ensures (run_monitor ([Waiter, Waiter, Waiter] @ replicate 3 (Thread 0) @ [Thread 1, Thread 1])
     (monitor_start [doListen_ops, connected_ops]))
     (\<lambda>s. cond s \<and> waiter s = W_Asleep \<and> \<not> overslept s)"
proof -
  let ?as = "[Waiter, Waiter, Waiter] @ replicate 3 (Thread 0) @ [Thread 1, Thread 1]"
  have "ensures (run_monitor ?as (monitor_start [doListen_ops, connected_ops]))
      (\<lambda>s. cond s \<and> waiter s = W_Asleep)" by code_simp
  then obtain s where s: "run_monitor ?as (monitor_start [doListen_ops, connected_ops]) = Some s"
    "cond s \<and> waiter s = W_Asleep" by (rule ensuresE)
  have "list_all (list_all locked_ops) [[doListen_ops], [connected_ops]]"
    by (simp add: locked_ops.intros)
  from wake_ups_need_the_mutex [OF this] run_monitor_steps [OF s(1)] s show ?thesis by simp
qed

section \<open>The command line client\<close>

text \<open>
  C37: The client is a correct user of the library. In every reachable state of the program its
  node is in a reachable state; every line that is read runs to the end, whatever it says; and
  every stage of the destruction at the end can be taken.
\<close>

theorem demo_commands_never_fail:
  assumes "demo_reachable V T d" and "names_defined V"
  shows "(main_pc d = M_Loop \<longrightarrow> iteration V d \<noteq> None) \<and>
    (main_pc d = M_Destroy \<longrightarrow> TcpNode_dtor V (demo_node d) \<noteq> None) \<and>
    (\<forall>s. demo_node d = Some s \<longrightarrow> reachable V T s)"
proof -
  note inv = demo_reachable_inv [OF assms]
  obtain c "is" where g: "getline (cin d) (command d) = (c, is)" by fastforce
  have "iteration V d \<noteq> None" if "main_pc d = M_Loop"
    using ensures_defined [OF iteration_ok [OF _ assms(2) g]] inv that by (auto simp: demo_inv_def)
  moreover have "TcpNode_dtor V (demo_node d) \<noteq> None" if "main_pc d = M_Destroy"
    using ensures_defined [OF TcpNode_dtor_ok [OF _ assms(2)]] inv that
    by (cases "demo_node d") (auto simp: demo_inv_def TcpNode_dtor_def [of V None])
  ultimately show ?thesis
    using inv by (auto simp: demo_inv_def demo_ok_def split: main_pc.splits)
qed

theorem demo_commands_never_fail_witness:
  "ensures (loop_demo ''Listen 70000'') (\<lambda>d. iteration loop_vt d \<noteq> None)"
proof -
  have "ensures (loop_demo ''Listen 70000'') (\<lambda>d. main_pc d = M_Loop)" by code_simp
  then obtain d where d: "loop_demo ''Listen 70000'' = Some d" "main_pc d = M_Loop"
    by (auto elim: ensuresE)
  with demo_commands_never_fail [OF loop_demo_reachable [OF d(1)] loop_names] show ?thesis by simp
qed

text \<open>
  C38: The end of the input. When the input ends in a line that is not the exit command, the
  program never leaves its loop: whatever happens, the exit flag stays unset, no other line is
  read, and every iteration executes that same line again.
\<close>

theorem input_end_repeats_line:
  assumes "demo_reachable V T d" and "names_defined V"
    and "input_ended d" and "main_pc d = M_Loop" and "\<not> exit_program d"
    and "\<not> is_exit (command d)" and "(demo_step V T)\<^sup>*\<^sup>* d d'"
  shows "main_pc d' = M_Loop \<and> \<not> exit_program d' \<and> command d' = command d \<and>
    iteration V d' = (let d' = d'\<lparr>command := command d, cin := (cin d')\<lparr>failbit := True\<rparr>,
        cmd_tokens := tokenize (command d) '' ''\<rparr>
      in if cmd_tokens d' = [] then Some (print_err [''> Error: Command empty.''] d')
         else dispatch V d')"
proof -
  have "stuck_on (command d) d'"
    using assms by (intro stuck_steps [OF assms(7,2) demo_reachable_inv]) (simp_all add: stuck_on_def)
  then show ?thesis by (simp add: stuck_on_def input_ended_def iteration_def getline_def Let_def)
qed

theorem input_end_repeats_line_witness:
  "ensures (loop_demo ''Is_listening'' \<bind> iteration loop_vt)
     (\<lambda>d. \<forall>d'. (demo_step loop_vt loop_clock)\<^sup>*\<^sup>* d d' \<longrightarrow> \<not> exit_program d')"
proof -
  have "ensures (loop_demo ''Is_listening'') (\<lambda>d. main_pc d = M_Loop \<and> \<not> exit_program d \<and>
      ensures (iteration loop_vt d) (\<lambda>d'. input_ended d' \<and> main_pc d' = M_Loop \<and>
        \<not> exit_program d' \<and> \<not> is_exit (command d')))" by code_simp
  then obtain d0 d where d0: "loop_demo ''Is_listening'' = Some d0" "main_pc d0 = M_Loop"
    "\<not> exit_program d0" and d: "iteration loop_vt d0 = Some d" "input_ended d" "main_pc d = M_Loop"
    "\<not> exit_program d" "\<not> is_exit (command d)"
    by (auto elim!: ensuresE)
  have "demo_reachable loop_vt loop_clock d"
    using demo_reachable.stepped [OF loop_demo_reachable [OF d0(1)] demo_iterate] d0 d(1) by blast
  with input_end_repeats_line [OF _ loop_names d(2-5)] d0(1) d(1) show ?thesis by simp
qed

text \<open>
  C39: The text of commands. A line is split into its non-empty pieces between separators; what
  \<open>Send\<close> sends has exactly the tokens of the line from the third on, a run of spaces having
  become one; a number printed in decimal is read back; and the bytes that are sent are read
  back as the same text.
\<close>

theorem command_text_round_trips:
  assumes "- (2 ^ 31) \<le> i" and "i < 2 ^ 31"
  shows "tokenize line '' '' = filter (\<lambda>t. t \<noteq> []) (split_on (\<lambda>c. c = CHR '' '') (c_str line)) \<and>
    tokenize (data_to_send (tokenize line '' '')) '' '' = drop 2 (tokenize line '' '') \<and>
    stoi (to_string_int i) = Inr i \<and>
    bytesToString (stringToBytes line) = line"
proof (intro conjI)
  have "c_str '' '' = '' ''" by (simp add: c_str_def)
  then show "tokenize line '' '' = filter (\<lambda>t. t \<noteq> []) (split_on (\<lambda>c. c = CHR '' '') (c_str line))"
    by (simp add: tokenize_split)
qed (rule data_to_send_tokens stoi_to_string [OF assms] bytes_round_trip)+

theorem command_text_round_trips_witness:
  "tokenize (data_to_send (tokenize ''Send  3 hello   world '' '' '')) '' '' = [''hello'', ''world''] \<and>
   stoi (to_string_int (- 70)) = Inr (- 70)"
proof -
  have "drop 2 (tokenize ''Send  3 hello   world '' '' '') = [''hello'', ''world'']" by code_simp
  with command_text_round_trips [of "- 70" "''Send  3 hello   world ''", THEN conjunct2] show ?thesis
    by simp
qed

text \<open>
  C40: Received text. The receive callback prints \<open>strlen\<close> of the received bytes, which ends at
  a zero byte only: whatever line is sent by this program, the callback of the one that receives
  it reads past the end of the vector.
\<close>

theorem received_line_is_undefined:
  "demo_callback (Received k pr (stringToBytes (data_to_send (tokenize line '' '')))) = None"
proof -
  have "CHR 0x00 \<notin> set (data_to_send (tokenize line '' ''))"
    using data_to_send_plain [of "CHR 0x00" line] by auto
  then have "0 \<notin> set (erase_last_newline (stringToBytes (data_to_send (tokenize line '' ''))))"
    by (auto simp: erase_last_newline_def dest: notin_set_remove1 stringToBytes_zero)
  then show ?thesis by (simp add: strlen_data_def)
qed

end
